(* ===== verification/CoreTypes.thy ===== *)
theory CoreTypes
  imports Prelude "HOL-Library.List_Lexorder" "HOL-Library.Char_ord"
begin

text \<open>
  \<open>are-core\<close>: capabilities (\<open>capability.rs\<close>), the domain error (\<open>error.rs\<close>), the identifier
  newtypes (\<open>ids.rs\<close>), platforms (\<open>platform.rs\<close>), environments (\<open>environment.rs\<close>) and the
  machine-identity records (\<open>identity.rs\<close>).  A newtype around \<open>String\<close> is a datatype with one
  constructor; \<open>X::new\<close>, which panics on a bad identifier, returns \<open>None\<close> there.
\<close>

section \<open>Capabilities\<close>

datatype capability =
    FilesystemRead | FilesystemWrite | FilesystemList
  | ProcessExecute | ProcessInspect | ProcessTerminate

definition all_capabilities :: "capability list" where
  "all_capabilities = [FilesystemRead, FilesystemWrite, FilesystemList,
     ProcessExecute, ProcessInspect, ProcessTerminate]"

lemma set_all_capabilities: "set all_capabilities = UNIV"
proof -
  have "c \<in> set all_capabilities" for c
    by (cases c) (simp_all add: all_capabilities_def)
  then show ?thesis by blast
qed

instantiation capability :: enum
begin

definition enum_capability :: "capability list" where
  "enum_capability = all_capabilities"

definition enum_all_capability :: "(capability \<Rightarrow> bool) \<Rightarrow> bool" where
  "enum_all_capability P = list_all P all_capabilities"

definition enum_ex_capability :: "(capability \<Rightarrow> bool) \<Rightarrow> bool" where
  "enum_ex_capability P = list_ex P all_capabilities"

instance
proof
  show "distinct (enum_class.enum :: capability list)"
    by (simp add: enum_capability_def all_capabilities_def)
qed (simp_all add: enum_capability_def enum_all_capability_def enum_ex_capability_def
      set_all_capabilities list_all_iff list_ex_iff)

end

fun capability_as_str :: "capability \<Rightarrow> string" where
  "capability_as_str FilesystemRead = ''filesystem.read''"
| "capability_as_str FilesystemWrite = ''filesystem.write''"
| "capability_as_str FilesystemList = ''filesystem.list''"
| "capability_as_str ProcessExecute = ''process.execute''"
| "capability_as_str ProcessInspect = ''process.inspect''"
| "capability_as_str ProcessTerminate = ''process.terminate''"

text \<open>\<open>{0:?}\<close> of a capability is its constructor name.\<close>

fun capability_debug :: "capability \<Rightarrow> string" where
  "capability_debug FilesystemRead = ''FilesystemRead''"
| "capability_debug FilesystemWrite = ''FilesystemWrite''"
| "capability_debug FilesystemList = ''FilesystemList''"
| "capability_debug ProcessExecute = ''ProcessExecute''"
| "capability_debug ProcessInspect = ''ProcessInspect''"
| "capability_debug ProcessTerminate = ''ProcessTerminate''"

section \<open>Domain errors\<close>

datatype core_error =
    InvalidEnvironmentId string
  | InvalidSessionId string
  | InvalidProcessId string
  | InvalidCapability string
  | InvalidGrant string
  | InvalidRequest string
  | MissingCapability capability
  | InvalidIdentity string

fun core_error_display :: "core_error \<Rightarrow> string" where
  "core_error_display (InvalidEnvironmentId s) = ''invalid environment id: '' @ s"
| "core_error_display (InvalidSessionId s) = ''invalid session id: '' @ s"
| "core_error_display (InvalidProcessId s) = ''invalid process id: '' @ s"
| "core_error_display (InvalidCapability s) = ''invalid capability: '' @ s"
| "core_error_display (InvalidGrant s) = ''invalid grant: '' @ s"
| "core_error_display (InvalidRequest s) = ''invalid request: '' @ s"
| "core_error_display (MissingCapability c) =
     ''missing required capability: '' @ capability_debug c"
| "core_error_display (InvalidIdentity s) = ''invalid identity: '' @ s"

definition capability_parse_str :: "string \<Rightarrow> core_error + capability" where
  "capability_parse_str s =
     (if s = ''filesystem.read'' then Inr FilesystemRead
      else if s = ''filesystem.write'' then Inr FilesystemWrite
      else if s = ''filesystem.list'' then Inr FilesystemList
      else if s = ''process.execute'' then Inr ProcessExecute
      else if s = ''process.inspect'' then Inr ProcessInspect
      else if s = ''process.terminate'' then Inr ProcessTerminate
      else Inl (InvalidCapability s))"

type_synonym capability_set = "capability set"

definition cs_empty :: capability_set where
  "cs_empty = {}"

definition cs_contains :: "capability_set \<Rightarrow> capability \<Rightarrow> bool" where
  "cs_contains s c \<longleftrightarrow> c \<in> s"

definition cs_is_subset :: "capability_set \<Rightarrow> capability_set \<Rightarrow> bool" where
  "cs_is_subset s other \<longleftrightarrow> s \<subseteq> other"

definition cs_grants :: "capability_set \<Rightarrow> capability_set \<Rightarrow> bool" where
  "cs_grants s required = cs_is_subset required s"

definition cs_insert :: "capability_set \<Rightarrow> capability \<Rightarrow> capability_set" where
  "cs_insert s c = insert c s"

definition cs_len :: "capability_set \<Rightarrow> nat" where
  "cs_len s = card s"

definition cs_is_empty :: "capability_set \<Rightarrow> bool" where
  "cs_is_empty s \<longleftrightarrow> s = {}"

definition cs_from_iter :: "capability list \<Rightarrow> capability_set" where
  "cs_from_iter cs = set cs"

section \<open>Identifiers\<close>

definition MAX_ID_LENGTH :: nat where
  "MAX_ID_LENGTH = 64"

definition is_valid_id_byte :: "char \<Rightarrow> bool" where
  "is_valid_id_byte b =
     (let n = (of_char b :: nat)
      in (97 \<le> n \<and> n \<le> 122) \<or> (48 \<le> n \<and> n \<le> 57) \<or> n = 45 \<or> n = 95 \<or> n = 46)"

definition validate_id_bytes :: "string \<Rightarrow> string + unit" where
  "validate_id_bytes raw =
     (if raw = [] then Inl ''must not be empty''
      else if length raw > MAX_ID_LENGTH
      then Inl (''length '' @ nat_str (length raw) @ '' exceeds maximum '' @ nat_str MAX_ID_LENGTH)
      else if \<not> list_all is_valid_id_byte raw
      then Inl ''contains invalid characters (allowed: [a-z0-9-_.])''
      else Inr ())"

datatype environment_id = EnvironmentId (env_str: string)
datatype session_id = SessionId (sess_str: string)
datatype process_id = ProcessId (proc_str: string)

definition environment_id_try_new :: "string \<Rightarrow> core_error + environment_id" where
  "environment_id_try_new raw =
     bindE (mapE InvalidEnvironmentId (validate_id_bytes raw)) (\<lambda>_. Inr (EnvironmentId raw))"

definition session_id_try_new :: "string \<Rightarrow> core_error + session_id" where
  "session_id_try_new raw =
     bindE (mapE InvalidSessionId (validate_id_bytes raw)) (\<lambda>_. Inr (SessionId raw))"

definition process_id_try_new :: "string \<Rightarrow> core_error + process_id" where
  "process_id_try_new raw =
     bindE (mapE InvalidProcessId (validate_id_bytes raw)) (\<lambda>_. Inr (ProcessId raw))"

definition or_panic :: "'e + 'a \<Rightarrow> 'a option" where
  "or_panic r = (case r of Inl _ \<Rightarrow> None | Inr x \<Rightarrow> Some x)"

definition environment_id_new :: "string \<Rightarrow> environment_id option" where
  "environment_id_new raw = or_panic (environment_id_try_new raw)"

definition session_id_new :: "string \<Rightarrow> session_id option" where
  "session_id_new raw = or_panic (session_id_try_new raw)"

definition process_id_new :: "string \<Rightarrow> process_id option" where
  "process_id_new raw = or_panic (process_id_try_new raw)"

definition valid_id :: "string \<Rightarrow> bool" where
  "valid_id raw \<longleftrightarrow> 0 < length raw \<and> length raw \<le> 64 \<and> (\<forall>b \<in> set raw. is_valid_id_byte b)"

lemma validate_id_bytes_iff: "validate_id_bytes raw = Inr () \<longleftrightarrow> valid_id raw"
  by (auto simp: validate_id_bytes_def valid_id_def MAX_ID_LENGTH_def list_all_iff)

subsection \<open>The contract of a checked newtype\<close>

locale checked_newtype =
  fixes try_new :: "string \<Rightarrow> core_error + 'a"
    and raw_of :: "'a \<Rightarrow> string"
  assumes accepts: "valid_id s \<Longrightarrow> \<exists>x. try_new s = Inr x \<and> raw_of x = s"
    and rejects: "\<not> valid_id s \<Longrightarrow> \<exists>e. try_new s = Inl e"
begin

lemma Ok_iff: "(\<exists>x. try_new s = Inr x) \<longleftrightarrow> valid_id s"
  using accepts rejects by (metis sum.distinct(1))

lemma Ok_valid: "try_new s = Inr x \<Longrightarrow> valid_id (raw_of x) \<and> raw_of x = s"
  using accepts rejects by (metis sum.distinct(1) sum.inject(2))

lemma inj_on_ok: "try_new s = Inr x \<Longrightarrow> try_new t = Inr x \<Longrightarrow> s = t"
  using Ok_valid by metis

lemma new_panics_iff: "or_panic (try_new s) = None \<longleftrightarrow> \<not> valid_id s"
  using Ok_iff [of s] by (cases "try_new s") (auto simp: or_panic_def)

end

interpretation env_newtype: checked_newtype environment_id_try_new env_str
  by unfold_locales
    (auto simp: environment_id_try_new_def validate_id_bytes_iff bindE_def mapE_def
          split: sum.splits simp flip: validate_id_bytes_iff)

interpretation sess_newtype: checked_newtype session_id_try_new sess_str
  by unfold_locales
    (auto simp: session_id_try_new_def validate_id_bytes_iff bindE_def mapE_def
          split: sum.splits simp flip: validate_id_bytes_iff)

interpretation proc_newtype: checked_newtype process_id_try_new proc_str
  by unfold_locales
    (auto simp: process_id_try_new_def validate_id_bytes_iff bindE_def mapE_def
          split: sum.splits simp flip: validate_id_bytes_iff)

end
