(* ===== verification/Identity.thy ===== *)
theory Identity
  imports CoreTypes
begin

text \<open>
  \<open>platform.rs\<close>, \<open>environment.rs\<close> and \<open>identity.rs\<close> of \<open>are-core\<close>: pure data with
  checked constructors.  Rust compares strings by their bytes, which is the lexicographic order
  on \<open>string\<close>.
\<close>

section \<open>Platforms and environments\<close>

datatype platform = Debian | Ubuntu | GenericLinux | UnknownPlatform string

fun platform_display :: "platform \<Rightarrow> string" where
  "platform_display Debian = ''Debian''"
| "platform_display Ubuntu = ''Ubuntu''"
| "platform_display GenericLinux = ''Generic Linux''"
| "platform_display (UnknownPlatform s) = ''Unknown ('' @ s @ '')''"

record environment_metadata =
  em_created_at :: string
  em_version :: string

record environment =
  env_id :: environment_id
  env_name :: string
  env_platform :: platform
  env_advertised_capabilities :: capability_set
  env_metadata :: environment_metadata

definition environment_validate :: "environment \<Rightarrow> core_error + unit" where
  "environment_validate e =
     (if env_name e = [] then Inl (InvalidRequest ''environment name must not be empty'')
      else Inr ())"

section \<open>Machine identities\<close>

record machine_identity =
  mi_id :: string
  mi_public_key_fingerprint :: string
  mi_certificate_pem :: string

definition FINGERPRINT_PREFIX :: string where
  "FINGERPRINT_PREFIX = ''sha256:''"

definition FINGERPRINT_HEX_LEN :: nat where
  "FINGERPRINT_HEX_LEN = 64"

definition mi_validate_fingerprint :: "string \<Rightarrow> core_error + unit" where
  "mi_validate_fingerprint fingerprint =
     bindE (ok_or (InvalidIdentity
              (''fingerprint must start with '' @ [CHR 0x60] @ FINGERPRINT_PREFIX @ [CHR 0x60]))
            (strip_prefix FINGERPRINT_PREFIX fingerprint))
       (\<lambda>rest.
         if length rest \<noteq> FINGERPRINT_HEX_LEN
         then Inl (InvalidIdentity (''fingerprint hex part must be '' @ nat_str FINGERPRINT_HEX_LEN
                @ '' characters, got '' @ nat_str (length rest)))
         else if \<not> list_all is_ascii_hexdigit rest
         then Inl (InvalidIdentity ''fingerprint hex part contains non-hex characters'')
         else Inr ())"

definition machine_identity_try_new ::
  "string \<Rightarrow> string \<Rightarrow> string \<Rightarrow> core_error + machine_identity" where
  "machine_identity_try_new i fingerprint cert =
     (if i = [] then Inl (InvalidIdentity ''machine id must not be empty'')
      else bindE (mi_validate_fingerprint fingerprint) (\<lambda>_.
        if cert = [] \<or> \<not> prefix ''-----BEGIN'' cert
        then Inl (InvalidIdentity ''certificate_pem must be a valid PEM block'')
        else Inr \<lparr> mi_id = i, mi_public_key_fingerprint = fingerprint,
                   mi_certificate_pem = cert \<rparr>))"

definition machine_identity_display :: "machine_identity \<Rightarrow> string" where
  "machine_identity_display m = mi_id m @ '' ('' @ mi_public_key_fingerprint m @ '')''"

datatype trust_anchor = SelfSigned | CaSigned string

section \<open>Enrollment credentials\<close>

record enrollment_credential =
  ec_token :: string
  ec_environment_id :: environment_id
  ec_capabilities :: capability_set
  ec_expires_at :: string
  ec_single_use :: bool
  ec_issued_at :: string

definition ENROLLMENT_MAX_TTL_SECS :: nat where
  "ENROLLMENT_MAX_TTL_SECS = 3600"

definition enrollment_credential_try_new ::
  "string \<Rightarrow> environment_id \<Rightarrow> capability_set \<Rightarrow> string \<Rightarrow> string
    \<Rightarrow> core_error + enrollment_credential" where
  "enrollment_credential_try_new token eid caps expires_at issued_at =
     (if token = [] then Inl (InvalidIdentity ''enrollment token must not be empty'')
      else if expires_at = [] then Inl (InvalidIdentity ''expires_at must not be empty'')
      else Inr \<lparr> ec_token = token, ec_environment_id = eid, ec_capabilities = caps,
                 ec_expires_at = expires_at, ec_single_use = True, ec_issued_at = issued_at \<rparr>)"

definition ec_is_expired :: "enrollment_credential \<Rightarrow> string \<Rightarrow> bool" where
  "ec_is_expired c now \<longleftrightarrow> ec_expires_at c \<le> now"

definition ec_validate :: "enrollment_credential \<Rightarrow> string \<Rightarrow> bool \<Rightarrow> core_error + unit" where
  "ec_validate c now consumed =
     (if ec_is_expired c now then Inl (InvalidIdentity ''enrollment credential has expired'')
      else if ec_single_use c \<and> consumed
      then Inl (InvalidIdentity ''enrollment credential has already been consumed'')
      else Inr ())"

datatype revocation_reason = Compromised | Expired | Administrative | EnvironmentDisabled

fun revocation_reason_display :: "revocation_reason \<Rightarrow> string" where
  "revocation_reason_display Compromised = ''compromised''"
| "revocation_reason_display Expired = ''expired''"
| "revocation_reason_display Administrative = ''administrative''"
| "revocation_reason_display EnvironmentDisabled = ''environment_disabled''"

section \<open>Correctness\<close>

lemma mi_validate_fingerprint_iff:
  "mi_validate_fingerprint fp = Inr () \<longleftrightarrow>
     (\<exists>h. fp = ''sha256:'' @ h \<and> length h = 64 \<and> (\<forall>c \<in> set h. is_ascii_hexdigit c))"
  by (auto simp: mi_validate_fingerprint_def bindE_Inr_iff strip_prefix_Some_iff list_all_iff
        FINGERPRINT_PREFIX_def FINGERPRINT_HEX_LEN_def)

text \<open>
  A credential built by \<open>EnrollmentCredential::try_new\<close> is bootstrap-only: whatever
  time it is presented at, once it is consumed \<open>validate\<close> refuses it, and once it has expired it
  is refused at every later timestamp as well.
\<close>

theorem enrollment_single_use_and_expiry:
  assumes "enrollment_credential_try_new token eid caps expires_at issued_at = Inr c"
  shows "(\<exists>e. ec_validate c now True = Inl e) \<and>
    (ec_validate c now False = Inr () \<longleftrightarrow> now < expires_at) \<and>
    (ec_is_expired c now \<longrightarrow> now \<le> later \<longrightarrow> (\<exists>e. ec_validate c later consumed = Inl e))"
  using assms
  by (auto simp: enrollment_credential_try_new_def ec_validate_def ec_is_expired_def not_le
      split: if_splits)

theorem enrollment_single_use_and_expiry_witness:
  "(\<exists>e. ec_validate \<lparr> ec_token = ''t'', ec_environment_id = EnvironmentId ''e'',
       ec_capabilities = {}, ec_expires_at = ''2025'', ec_single_use = True,
       ec_issued_at = ''2024'' \<rparr> ''2024'' True = Inl e)"
  using enrollment_single_use_and_expiry
    [of "''t''" "EnvironmentId ''e''" "{}" "''2025''" "''2024''"]
  by (simp add: enrollment_credential_try_new_def)

end
