(* ===== verification/Grant.thy ===== *)
theory Grant
  imports CoreTypes
begin

text \<open>
  \<open>are-core/src/grant.rs\<close>: scoped grants, the normalisation of grant roots and program names,
  and the four questions the daemon asks of a principal's grants.
\<close>

datatype grant =
    GFilesystemRead string
  | GFilesystemWrite string
  | GFilesystemList string
  | GProcessExecute "string list"
  | GProcessInspect
  | GProcessTerminate

datatype fs_grant_kind = GRead | GWrite | GList

definition slash :: char where
  "slash = CHR ''/''"

definition backslash :: char where
  "backslash = CHR 0x5C"

text \<open>The loop over the components: \<open>..\<close> is an error, empty and \<open>.\<close> segments are dropped.\<close>

fun normalize_parts :: "string \<Rightarrow> string list \<Rightarrow> string list \<Rightarrow> core_error + string list" where
  "normalize_parts raw [] parts = Inr parts"
| "normalize_parts raw (c # cs) parts =
     (if c = [] \<or> c = ''.'' then normalize_parts raw cs parts
      else if c = ''..''
      then Inl (InvalidGrant (''grant root climbs above its scope: '' @ debug_str raw))
      else normalize_parts raw cs (parts @ [c]))"

definition normalize_grant_root :: "string \<Rightarrow> core_error + string" where
  "normalize_grant_root raw =
     bindE (normalize_parts raw (split_on slash (replace_char backslash slash raw)) [])
       (\<lambda>parts. Inr (join_with [slash] parts))"

definition root_covers :: "string \<Rightarrow> string \<Rightarrow> bool" where
  "root_covers root rel =
     (if root = [] then True
      else if rel = root then True
      else (case strip_prefix root rel of None \<Rightarrow> False | Some rest \<Rightarrow> prefix [slash] rest))"

text \<open>
  \<open>raw.rsplit(['/', '\\']).next()\<close> is the text after the last separator; \<open>rsplit\<close> always
  yields an element, so the \<open>unwrap_or\<close> branch is not taken.
\<close>

definition program_base :: "string \<Rightarrow> string" where
  "program_base raw = rev (takeWhile (\<lambda>c. c \<noteq> slash \<and> c \<noteq> backslash) (rev raw))"

definition normalize_program_name :: "string \<Rightarrow> string" where
  "normalize_program_name raw =
     (let lower = to_ascii_lowercase (program_base raw)
      in (case strip_suffix ''.exe'' lower of None \<Rightarrow> lower | Some s \<Rightarrow> s))"

fun grant_allows_fs :: "fs_grant_kind \<Rightarrow> string \<Rightarrow> grant \<Rightarrow> bool" where
  "grant_allows_fs GRead rel (GFilesystemRead root) = root_covers root rel"
| "grant_allows_fs GWrite rel (GFilesystemWrite root) = root_covers root rel"
| "grant_allows_fs GList rel (GFilesystemList root) = root_covers root rel"
| "grant_allows_fs _ _ _ = False"

definition grants_allow_fs :: "grant list \<Rightarrow> fs_grant_kind \<Rightarrow> string \<Rightarrow> bool" where
  "grants_allow_fs grants kind rel = list_ex (grant_allows_fs kind rel) grants"

fun grant_allows_exec :: "string \<Rightarrow> grant \<Rightarrow> bool" where
  "grant_allows_exec want (GProcessExecute programs) =
     list_ex (\<lambda>entry. normalize_program_name entry = want) programs"
| "grant_allows_exec want _ = False"

definition grants_allow_exec :: "grant list \<Rightarrow> string \<Rightarrow> bool" where
  "grants_allow_exec grants program =
     (let want = normalize_program_name program
      in if want = [] then False else list_ex (grant_allows_exec want) grants)"

definition grants_allow_inspect :: "grant list \<Rightarrow> bool" where
  "grants_allow_inspect grants = list_ex (\<lambda>g. g = GProcessInspect) grants"

definition grants_allow_terminate :: "grant list \<Rightarrow> bool" where
  "grants_allow_terminate grants = list_ex (\<lambda>g. g = GProcessTerminate) grants"

section \<open>The contract of a grant check\<close>

text \<open>
  Every check is a disjunction over the grants: no grant means no access, and a principal's
  authority is exactly the union of what each of its grants gives.
\<close>

locale grant_check =
  fixes allows :: "grant list \<Rightarrow> 'q \<Rightarrow> bool"
  assumes allows_Nil: "\<not> allows [] q"
    and allows_append: "allows (gs @ hs) q \<longleftrightarrow> allows gs q \<or> allows hs q"
begin

lemma allows_mono: "allows gs q \<Longrightarrow> set gs \<subseteq> set hs \<Longrightarrow> allows hs q"
proof (induction gs)
  case Nil
  then show ?case by (simp add: allows_Nil)
next
  case (Cons g gs)
  from Cons.prems(1) have "allows [g] q \<or> allows gs q"
    using allows_append [of "[g]" gs] by simp
  moreover obtain xs ys where hs: "hs = xs @ [g] @ ys"
    using Cons.prems(2) by (metis append_Cons append_Nil list.set_intros(1) split_list subsetD)
  ultimately show ?case
    using Cons allows_append by (metis insert_subset list.simps(15))
qed

lemma allows_iff_member: "allows gs q \<longleftrightarrow> (\<exists>g \<in> set gs. allows [g] q)"
proof (induction gs)
  case (Cons g gs)
  then show ?case using allows_append [of "[g]" gs] by auto
qed (simp add: allows_Nil)

end

interpretation fs_check: grant_check "\<lambda>gs (kind, rel). grants_allow_fs gs kind rel"
  by unfold_locales (auto simp: grants_allow_fs_def)

interpretation exec_check: grant_check grants_allow_exec
  by unfold_locales (auto simp: grants_allow_exec_def Let_def)

interpretation inspect_check: grant_check "\<lambda>gs (_ :: unit). grants_allow_inspect gs"
  by unfold_locales (auto simp: grants_allow_inspect_def)

interpretation terminate_check: grant_check "\<lambda>gs (_ :: unit). grants_allow_terminate gs"
  by unfold_locales (auto simp: grants_allow_terminate_def)

section \<open>Grant roots\<close>

text \<open>The component view of a relative path, on which coverage is a prefix test.\<close>

definition rel_comps :: "string \<Rightarrow> string list" where
  "rel_comps s = (if s = [] then [] else split_on slash s)"

definition normal_comp :: "string \<Rightarrow> bool" where
  "normal_comp c \<longleftrightarrow> c \<noteq> [] \<and> c \<noteq> ''.'' \<and> c \<noteq> ''..'' \<and> slash \<notin> set c"

definition normal_rel :: "string \<Rightarrow> bool" where
  "normal_rel s \<longleftrightarrow> (\<forall>c \<in> set (rel_comps s). normal_comp c)"

lemma rel_comps_join: "(\<And>c. c \<in> set cs \<Longrightarrow> normal_comp c) \<Longrightarrow> rel_comps (join_with [slash] cs) = cs"
  by (cases "cs = []")
    (auto simp: rel_comps_def normal_comp_def join_with_eq_Nil intro!: split_join)

lemma join_rel_comps: "join_with [slash] (rel_comps s) = s"
  by (simp add: rel_comps_def join_split)

lemma normalize_parts_spec:
  "normalize_parts raw cs parts =
     (if ''..'' \<in> set cs
      then Inl (InvalidGrant (''grant root climbs above its scope: '' @ debug_str raw))
      else Inr (parts @ filter (\<lambda>c. c \<noteq> [] \<and> c \<noteq> ''.'') cs))"
  by (induction raw cs parts rule: normalize_parts.induct) auto

lemma normalize_grant_root_spec:
  "normalize_grant_root raw =
     (let cs = split_on slash (replace_char backslash slash raw)
      in if ''..'' \<in> set cs
         then Inl (InvalidGrant (''grant root climbs above its scope: '' @ debug_str raw))
         else Inr (join_with [slash] (filter (\<lambda>c. c \<noteq> [] \<and> c \<noteq> ''.'') cs)))"
  by (simp add: normalize_grant_root_def normalize_parts_spec Let_def)

lemma normal_comp_replace: "normal_comp c \<Longrightarrow> backslash \<notin> set c \<Longrightarrow> replace_char backslash slash c = c"
  by (auto simp: replace_char_def intro!: map_idI)

lemma normalize_grant_root_Ok:
  assumes "normalize_grant_root raw = Inr r"
  shows "normal_rel r \<and> backslash \<notin> set r"
proof -
  let ?cs = "split_on slash (replace_char backslash slash raw)"
  let ?fs = "filter (\<lambda>c. c \<noteq> [] \<and> c \<noteq> ''.'') ?cs"
  have r: "r = join_with [slash] ?fs" and dd: "''..'' \<notin> set ?cs"
    using assms by (auto simp: normalize_grant_root_spec Let_def split: if_splits)
  have comps: "normal_comp c" if "c \<in> set ?fs" for c
    using that dd split_on_no_sep by (force simp: normal_comp_def)
  have "rel_comps r = ?fs" unfolding r by (rule rel_comps_join) (rule comps)
  moreover have "backslash \<notin> set c" if "c \<in> set ?cs" for c
    using set_split_on [OF that] set_replace_char [of backslash slash raw]
    by (auto simp: slash_def backslash_def)
  then have "backslash \<notin> set r"
    unfolding r using set_join_with [of slash ?fs] by (auto simp: slash_def backslash_def)
  ultimately show ?thesis
    using comps by (simp add: normal_rel_def)
qed

lemma normalize_grant_root_normal:
  assumes "normal_rel r" and "backslash \<notin> set r"
  shows "normalize_grant_root r = Inr r"
proof -
  have rep: "replace_char backslash slash r = r"
    using assms(2) by (auto simp: replace_char_def intro!: map_idI)
  show ?thesis
  proof (cases "r = []")
    case False
    then have "filter (\<lambda>c. c \<noteq> [] \<and> c \<noteq> ''.'') (split_on slash r) = split_on slash r"
      and "''..'' \<notin> set (split_on slash r)"
      using assms(1) by (auto simp: normal_rel_def rel_comps_def normal_comp_def filter_id_conv)
    then show ?thesis by (simp add: normalize_grant_root_spec rep join_split)
  qed (simp add: normalize_grant_root_spec replace_char_def)
qed

text \<open>
  Grant matching is component-wise: a root covers a path exactly when the path's
  components start with the root's (\<open>logs\<close> covers \<open>logs\<close> and \<open>logs/a\<close>, never \<open>logs2/x\<close>).
\<close>

theorem root_covers_iff_prefix:
  "root_covers root rel \<longleftrightarrow> prefix (rel_comps root) (rel_comps rel)"
proof (cases "root = [] \<or> rel = []")
  case True
  then show ?thesis
    by (auto simp: root_covers_def rel_comps_def strip_prefix_def split: option.splits)
next
  case False
  then have *: "rel_comps root = split_on slash root" "rel_comps rel = split_on slash rel"
    by (simp_all add: rel_comps_def)
  have cov: "root_covers root rel \<longleftrightarrow> rel = root \<or> (\<exists>rest. rel = root @ slash # rest)"
    using False by (auto simp: root_covers_def strip_prefix_Some_iff prefix_def
        strip_prefix_def split: option.splits)
  show ?thesis
  proof
    assume "root_covers root rel"
    then show "prefix (rel_comps root) (rel_comps rel)"
      unfolding cov * by (auto simp: split_on_append)
  next
    assume "prefix (rel_comps root) (rel_comps rel)"
    then obtain ys where ys: "split_on slash rel = split_on slash root @ ys"
      unfolding * by (auto simp: prefix_def)
    have rel: "rel = join_with [slash] (split_on slash root @ ys)"
      using join_split [of slash rel] by (simp add: ys)
    show "root_covers root rel"
      unfolding cov by (cases "ys = []") (simp_all add: rel join_with_append join_split)
  qed
qed

text \<open>
  Normalising a grant root fails exactly on a \<open>..\<close> segment (with either slash), never
  scopes it silently; on success the root has only proper components, no backslash, and is a
  fixed point of the normalisation.
\<close>

theorem normalize_grant_root_canonical:
  "((\<exists>e. normalize_grant_root raw = Inl e) \<longleftrightarrow>
      ''..'' \<in> set (split_on slash (replace_char backslash slash raw))) \<and>
   (normalize_grant_root raw = Inr r \<longrightarrow>
      normal_rel r \<and> backslash \<notin> set r \<and> normalize_grant_root r = Inr r)"
  using normalize_grant_root_Ok [of raw r] normalize_grant_root_normal [of r]
  by (auto simp: normalize_grant_root_spec Let_def)

theorem normalize_grant_root_canonical_witness:
  "normalize_grant_root ''/logs/./a'' = Inr ''logs/a'' \<and> normal_rel ''logs/a''"
  using normalize_grant_root_canonical [of "''/logs/./a''" "''logs/a''"]
  by (simp add: normalize_grant_root_spec slash_def backslash_def replace_char_def)

section \<open>Program names\<close>

lemma program_base_no_sep: "slash \<notin> set (program_base raw) \<and> backslash \<notin> set (program_base raw)"
  by (auto simp: program_base_def dest: set_takeWhileD)

lemma takeWhile_stop: "\<not> P c \<Longrightarrow> takeWhile P (xs @ c # ys) = takeWhile P xs"
  by (induction xs) auto

lemma program_base_append:
  "c = slash \<or> c = backslash \<Longrightarrow> program_base (dir @ c # base) = program_base base"
  by (auto simp: program_base_def takeWhile_stop)

lemma ascii_lower_code: "(of_char (ascii_lower_char c) :: nat) =
    (let n = of_char c in if 65 \<le> n \<and> n \<le> 90 then n + 32 else n)"
  by (simp add: ascii_lower_char_def Let_def)

lemma ascii_lower_lower [simp]: "ascii_lower_char (ascii_lower_char c) = ascii_lower_char c"
  by (subst ascii_lower_char_def) (auto simp: ascii_lower_code Let_def)

lemma to_ascii_lowercase_idem [simp]: "to_ascii_lowercase (to_ascii_lowercase s) = to_ascii_lowercase s"
  by (simp add: to_ascii_lowercase_def)

lemma ascii_lower_sep:
  "ascii_lower_char c = slash \<longleftrightarrow> c = slash"
  "ascii_lower_char c = backslash \<longleftrightarrow> c = backslash"
proof -
  have inj: "x = y \<longleftrightarrow> (of_char x :: nat) = of_char y" for x y :: char
    by simp
  show "ascii_lower_char c = slash \<longleftrightarrow> c = slash"
    unfolding inj ascii_lower_code by (auto simp: slash_def Let_def)
  show "ascii_lower_char c = backslash \<longleftrightarrow> c = backslash"
    unfolding inj ascii_lower_code by (auto simp: backslash_def Let_def)
qed

lemma program_base_lowercase:
  "program_base (to_ascii_lowercase raw) = to_ascii_lowercase (program_base raw)"
  by (simp add: program_base_def to_ascii_lowercase_def rev_map takeWhile_map comp_def ascii_lower_sep)

lemma strip_suffix_append [simp]: "strip_suffix p (r @ p) = Some r"
  by (simp add: strip_suffix_Some_iff)

lemma normalize_program_name_set: "set (normalize_program_name raw) \<subseteq> set (to_ascii_lowercase (program_base raw))"
  by (auto simp: normalize_program_name_def Let_def strip_suffix_def split: option.splits if_splits
      dest: in_set_takeD)

lemma normalize_program_name_no_sep:
  "slash \<notin> set (normalize_program_name raw) \<and> backslash \<notin> set (normalize_program_name raw)"
  using normalize_program_name_set [of raw] program_base_no_sep [of "to_ascii_lowercase raw"]
  by (auto simp: program_base_lowercase)

text \<open>
  Program names are compared by lower-cased basename: any directory part (with either
  separator), ASCII case and one trailing \<open>.exe\<close> are immaterial, and the normal form contains no
  separator, so a path can never match as a whole.
\<close>

theorem normalize_program_name_canonical:
  "normalize_program_name (dir @ slash # base) = normalize_program_name base \<and>
   normalize_program_name (dir @ backslash # base) = normalize_program_name base \<and>
   normalize_program_name (to_ascii_lowercase raw) = normalize_program_name raw \<and>
   normalize_program_name (raw @ ''.exe'') = to_ascii_lowercase (program_base raw) \<and>
   slash \<notin> set (normalize_program_name raw) \<and> backslash \<notin> set (normalize_program_name raw)"
proof -
  have "program_base (raw @ ''.exe'') = program_base raw @ ''.exe''"
    by (simp add: program_base_def slash_def backslash_def)
  moreover have "to_ascii_lowercase ''.exe'' = ''.exe''"
    by (simp add: to_ascii_lowercase_def ascii_lower_char_def)
  ultimately have "normalize_program_name (raw @ ''.exe'') = to_ascii_lowercase (program_base raw)"
    by (simp add: normalize_program_name_def to_ascii_lowercase_def)
  then show ?thesis
    using normalize_program_name_no_sep
    by (simp add: normalize_program_name_def program_base_append program_base_lowercase)
qed

lemma grants_allow_exec_iff:
  "grants_allow_exec gs program \<longleftrightarrow>
     normalize_program_name program \<noteq> [] \<and>
     (\<exists>ps. GProcessExecute ps \<in> set gs \<and>
        (\<exists>p \<in> set ps. normalize_program_name p = normalize_program_name program))"
proof -
  have "grant_allows_exec want g \<longleftrightarrow>
     (\<exists>ps. g = GProcessExecute ps \<and> (\<exists>p \<in> set ps. normalize_program_name p = want))" for want g
    by (cases g) (auto simp: list_ex_iff)
  then show ?thesis by (auto simp: grants_allow_exec_def list_ex_iff Let_def)
qed

lemma grants_allow_fs_iff:
  "grants_allow_fs gs GRead rel \<longleftrightarrow> (\<exists>r. GFilesystemRead r \<in> set gs \<and> root_covers r rel)"
  "grants_allow_fs gs GWrite rel \<longleftrightarrow> (\<exists>r. GFilesystemWrite r \<in> set gs \<and> root_covers r rel)"
  "grants_allow_fs gs GList rel \<longleftrightarrow> (\<exists>r. GFilesystemList r \<in> set gs \<and> root_covers r rel)"
proof -
  have "grant_allows_fs GRead rel g \<longleftrightarrow> (\<exists>r. g = GFilesystemRead r \<and> root_covers r rel)"
    "grant_allows_fs GWrite rel g \<longleftrightarrow> (\<exists>r. g = GFilesystemWrite r \<and> root_covers r rel)"
    "grant_allows_fs GList rel g \<longleftrightarrow> (\<exists>r. g = GFilesystemList r \<and> root_covers r rel)" for g
    by (cases g; simp)+
  then show
    "grants_allow_fs gs GRead rel \<longleftrightarrow> (\<exists>r. GFilesystemRead r \<in> set gs \<and> root_covers r rel)"
    "grants_allow_fs gs GWrite rel \<longleftrightarrow> (\<exists>r. GFilesystemWrite r \<in> set gs \<and> root_covers r rel)"
    "grants_allow_fs gs GList rel \<longleftrightarrow> (\<exists>r. GFilesystemList r \<in> set gs \<and> root_covers r rel)"
    by (auto simp: grants_allow_fs_def list_ex_iff)
qed

end
