(* ===== verification/GrantsTable.thy ===== *)
theory GrantsTable
  imports Grant
begin

text \<open>
  \<open>are-daemon/src/grants.rs\<close> and \<open>auth.rs\<close>: the grants file, validated into a table from
  certificate fingerprints to grants, and the caller's identity.  The JSON parser (\<open>serde_json\<close>)
  and \<open>blake3\<close> are parameters: \<open>from_str\<close> gives the raw file or its rendered error,
  \<open>blake3_hex\<close> the hex digest of a byte string.
\<close>

section \<open>Grants file\<close>

record raw_principal_grants =
  rp_filesystem_read :: "string list"
  rp_filesystem_write :: "string list"
  rp_filesystem_list :: "string list"
  rp_process_execute :: "string list"
  rp_process_inspect :: bool
  rp_process_terminate :: bool

record raw_grants_file =
  rf_principals :: "(string, raw_principal_grants) hmap"

record grants_table =
  gt_principals :: "(string, grant list) hmap"

definition malformed_fingerprint :: "string \<Rightarrow> string" where
  "malformed_fingerprint fp = ''malformed principal fingerprint '' @ debug_str fp
     @ '': expected '' @ [dquote] @ ''blake3:<64 hex>'' @ [dquote]"

definition validate_fingerprint :: "string \<Rightarrow> string + unit" where
  "validate_fingerprint fp =
     bindE (ok_or (malformed_fingerprint fp) (strip_prefix ''blake3:'' fp))
       (\<lambda>hex. if length hex = 64 \<and> list_all is_ascii_hexdigit hex then Inr ()
              else Inl (malformed_fingerprint fp))"

text \<open>One of the three loops over roots; \<open>what\<close> names the field in the error.\<close>

fun parse_roots ::
  "string \<Rightarrow> string \<Rightarrow> (string \<Rightarrow> grant) \<Rightarrow> string list \<Rightarrow> grant list \<Rightarrow> string + grant list" where
  "parse_roots fp what mk [] acc = Inr acc"
| "parse_roots fp what mk (root # roots) acc =
     bindE (mapE (\<lambda>e. ''principal '' @ fp @ '': bad '' @ what @ '' root: '' @ core_error_display e)
              (normalize_grant_root root))
       (\<lambda>r. parse_roots fp what mk roots (acc @ [mk r]))"

fun parse_programs :: "string \<Rightarrow> string list \<Rightarrow> string list \<Rightarrow> string + string list" where
  "parse_programs fp [] acc = Inr acc"
| "parse_programs fp (entry # entries) acc =
     (if normalize_program_name entry = []
      then Inl (''principal '' @ fp @ '': empty process_execute entry'')
      else parse_programs fp entries (acc @ [entry]))"

definition parse_principal :: "string \<Rightarrow> raw_principal_grants \<Rightarrow> string + grant list" where
  "parse_principal fp g =
     bindE (validate_fingerprint fp) (\<lambda>_.
     bindE (parse_roots fp ''filesystem_read'' GFilesystemRead (rp_filesystem_read g) []) (\<lambda>n1.
     bindE (parse_roots fp ''filesystem_write'' GFilesystemWrite (rp_filesystem_write g) n1) (\<lambda>n2.
     bindE (parse_roots fp ''filesystem_list'' GFilesystemList (rp_filesystem_list g) n2) (\<lambda>n3.
     bindE (if rp_process_execute g \<noteq> []
            then bindE (parse_programs fp (rp_process_execute g) [])
                   (\<lambda>ps. Inr (n3 @ [GProcessExecute ps]))
            else Inr n3) (\<lambda>n4.
     let n5 = (if rp_process_inspect g then n4 @ [GProcessInspect] else n4);
         n6 = (if rp_process_terminate g then n5 @ [GProcessTerminate] else n5)
     in Inr n6)))))"

fun parse_principals ::
  "(string, raw_principal_grants) hmap \<Rightarrow> (string, grant list) hmap
    \<Rightarrow> string + (string, grant list) hmap" where
  "parse_principals [] acc = Inr acc"
| "parse_principals ((fp, g) # rest) acc =
     bindE (parse_principal fp g) (\<lambda>n. parse_principals rest (hm_insert fp n acc))"

definition grants_parse_json ::
  "(string \<Rightarrow> string + raw_grants_file) \<Rightarrow> string \<Rightarrow> string + grants_table" where
  "grants_parse_json from_str content =
     bindE (mapE (\<lambda>e. ''invalid grants JSON: '' @ e) (from_str content)) (\<lambda>raw.
     bindE (parse_principals (rf_principals raw) []) (\<lambda>ps.
     Inr \<lparr> gt_principals = ps \<rparr>))"

definition grants_for :: "grants_table \<Rightarrow> string \<Rightarrow> grant list option" where
  "grants_for t fp = hm_get (gt_principals t) fp"

definition grants_is_known :: "grants_table \<Rightarrow> string \<Rightarrow> bool" where
  "grants_is_known t fp \<longleftrightarrow> hm_get (gt_principals t) fp \<noteq> None"

definition grants_len :: "grants_table \<Rightarrow> nat" where
  "grants_len t = length (gt_principals t)"

definition grants_is_empty :: "grants_table \<Rightarrow> bool" where
  "grants_is_empty t \<longleftrightarrow> gt_principals t = []"

section \<open>Caller identity\<close>

record caller =
  ca_fingerprint :: string

definition caller_new :: "string \<Rightarrow> caller" where
  "caller_new fp = \<lparr> ca_fingerprint = fp \<rparr>"

definition fingerprint_der :: "(bytes \<Rightarrow> string) \<Rightarrow> bytes \<Rightarrow> string" where
  "fingerprint_der blake3_hex der = ''blake3:'' @ blake3_hex der"

definition caller_from_leaf_der :: "(bytes \<Rightarrow> string) \<Rightarrow> bytes \<Rightarrow> caller" where
  "caller_from_leaf_der blake3_hex der = caller_new (fingerprint_der blake3_hex der)"

definition caller_from_peer_certs :: "(bytes \<Rightarrow> string) \<Rightarrow> bytes list option \<Rightarrow> caller option" where
  "caller_from_peer_certs blake3_hex certs =
     (case certs of
        None \<Rightarrow> None
      | Some [] \<Rightarrow> None
      | Some (leaf # _) \<Rightarrow> Some (caller_from_leaf_der blake3_hex leaf))"

section \<open>What a loaded table satisfies\<close>

fun valid_grant :: "grant \<Rightarrow> bool" where
  "valid_grant (GFilesystemRead r) = normal_rel r"
| "valid_grant (GFilesystemWrite r) = normal_rel r"
| "valid_grant (GFilesystemList r) = normal_rel r"
| "valid_grant (GProcessExecute ps) =
     (ps \<noteq> [] \<and> list_all (\<lambda>p. normalize_program_name p \<noteq> []) ps)"
| "valid_grant _ = True"

definition valid_fingerprint :: "string \<Rightarrow> bool" where
  "valid_fingerprint fp \<longleftrightarrow>
     (\<exists>h. fp = ''blake3:'' @ h \<and> length h = 64 \<and> list_all is_ascii_hexdigit h)"

lemma validate_fingerprint_iff: "validate_fingerprint fp = Inr u \<longleftrightarrow> valid_fingerprint fp"
  by (auto simp: validate_fingerprint_def valid_fingerprint_def bindE_Inr_iff strip_prefix_Some_iff)

definition root_value :: "string \<Rightarrow> string" where
  "root_value root = (case normalize_grant_root root of Inl _ \<Rightarrow> [] | Inr r \<Rightarrow> r)"

definition root_ok :: "string \<Rightarrow> bool" where
  "root_ok root \<longleftrightarrow> (case normalize_grant_root root of Inl _ \<Rightarrow> False | Inr _ \<Rightarrow> True)"

lemma root_okD: "root_ok root \<Longrightarrow> normalize_grant_root root = Inr (root_value root)"
  by (auto simp: root_ok_def root_value_def split: sum.splits)

lemma root_value_normal: "root_ok root \<Longrightarrow> normal_rel (root_value root)"
  using normalize_grant_root_Ok root_okD by blast

lemma parse_roots_Inr_iff:
  "parse_roots fp what mk roots acc = Inr n \<longleftrightarrow>
     (\<forall>root \<in> set roots. root_ok root) \<and> n = acc @ map (\<lambda>root. mk (root_value root)) roots"
proof (induction roots arbitrary: acc)
  case (Cons root roots)
  then show ?case
    by (cases "normalize_grant_root root") (auto simp: root_ok_def root_value_def)
qed auto

lemma parse_programs_Inr_iff:
  "parse_programs fp entries acc = Inr n \<longleftrightarrow>
     (\<forall>e \<in> set entries. normalize_program_name e \<noteq> []) \<and> n = acc @ entries"
  by (induction entries arbitrary: acc) auto

text \<open>When one principal's raw entry is accepted, and the grants it then denotes.\<close>

definition acceptable_entry :: "raw_principal_grants \<Rightarrow> bool" where
  "acceptable_entry g \<longleftrightarrow>
     list_all root_ok (rp_filesystem_read g @ rp_filesystem_write g @ rp_filesystem_list g) \<and>
     list_all (\<lambda>e. normalize_program_name e \<noteq> []) (rp_process_execute g)"

definition denoted_grants :: "raw_principal_grants \<Rightarrow> grant list" where
  "denoted_grants g =
     map (\<lambda>r. GFilesystemRead (root_value r)) (rp_filesystem_read g)
     @ map (\<lambda>r. GFilesystemWrite (root_value r)) (rp_filesystem_write g)
     @ map (\<lambda>r. GFilesystemList (root_value r)) (rp_filesystem_list g)
     @ (if rp_process_execute g = [] then [] else [GProcessExecute (rp_process_execute g)])
     @ (if rp_process_inspect g then [GProcessInspect] else [])
     @ (if rp_process_terminate g then [GProcessTerminate] else [])"

lemma parse_principal_Inr_iff:
  "parse_principal fp g = Inr gs \<longleftrightarrow>
     valid_fingerprint fp \<and> acceptable_entry g \<and> gs = denoted_grants g"
  by (auto simp: parse_principal_def bindE_Inr_iff validate_fingerprint_iff parse_roots_Inr_iff
      parse_programs_Inr_iff denoted_grants_def acceptable_entry_def list_all_iff Let_def)

lemma denoted_grants_valid: "acceptable_entry g \<Longrightarrow> x \<in> set (denoted_grants g) \<Longrightarrow> valid_grant x"
  by (auto simp: denoted_grants_def acceptable_entry_def list_all_iff root_value_normal
      split: if_splits)

lemma parse_principals_Inr:
  assumes "parse_principals ps acc = Inr t" and "hm_ok ps" and "hm_ok acc"
    and "hm_keys ps \<inter> hm_keys acc = {}"
  shows "hm_ok t \<and>
    (\<forall>fp. hm_get t fp = (case hm_get ps fp of
        None \<Rightarrow> hm_get acc fp | Some g \<Rightarrow> Some (denoted_grants g))) \<and>
    (\<forall>fp g. hm_get ps fp = Some g \<longrightarrow> valid_fingerprint fp \<and> acceptable_entry g)"
  using assms
proof (induction ps acc rule: parse_principals.induct)
  case (2 fp g rest acc)
  from "2.prems"(1) obtain n where n: "parse_principal fp g = Inr n"
    and rest: "parse_principals rest (hm_insert fp n acc) = Inr t"
    by (auto simp: bindE_Inr_iff)
  have ok: "hm_ok rest" and fresh: "hm_get rest fp = None"
    using "2.prems"(2) by (auto simp: hm_ok_def hm_get_def map_of_eq_None_iff)
  then have "fp \<notin> hm_keys rest" by (simp add: hm_keys_conv)
  then have "hm_keys rest \<inter> hm_keys (hm_insert fp n acc) = {}"
    using "2.prems"(4) by auto
  from "2.IH" [OF n rest ok _ this] "2.prems"(3)
  show ?case
    using n fresh by (auto simp: hm_get_def parse_principal_Inr_iff split: option.splits if_splits)
qed simp

definition table_ok :: "grants_table \<Rightarrow> bool" where
  "table_ok t \<longleftrightarrow> hm_ok (gt_principals t) \<and>
     (\<forall>fp gs. grants_for t fp = Some gs \<longrightarrow> valid_fingerprint fp \<and> (\<forall>g \<in> set gs. valid_grant g))"

text \<open>
  Claim C40.  A loaded grants table is strict and exact: it has an entry for exactly the principals
  of the file, every key is a well-formed fingerprint, every root is normalised and every program
  entry names a program, and each principal gets precisely the grants its entry denotes.
\<close>

theorem grants_parse_json_exact:
  assumes "grants_parse_json from_str content = Inr t"
    and "from_str content = Inr raw" and "hm_ok (rf_principals raw)"
  shows "table_ok t \<and>
    (\<forall>fp. grants_for t fp = map_option denoted_grants (hm_get (rf_principals raw) fp)) \<and>
    (\<forall>fp g. hm_get (rf_principals raw) fp = Some g \<longrightarrow> valid_fingerprint fp \<and> acceptable_entry g)"
proof -
  obtain ps where ps: "parse_principals (rf_principals raw) [] = Inr ps"
    and t: "t = \<lparr> gt_principals = ps \<rparr>"
    using assms(1,2) by (auto simp: grants_parse_json_def bindE_Inr_iff)
  have "hm_keys (rf_principals raw) \<inter> hm_keys [] = {}" by (simp add: hm_keys_def)
  from parse_principals_Inr [OF ps assms(3) hm_ok_Nil this]
  show ?thesis
    by (auto simp: t table_ok_def grants_for_def split: option.splits) (meson denoted_grants_valid)
qed

definition sample_raw :: raw_grants_file where
  "sample_raw = \<lparr> rf_principals =
     [(''blake3:'' @ replicate 64 CHR ''a'',
       \<lparr> rp_filesystem_read = [''/logs/''], rp_filesystem_write = [], rp_filesystem_list = [[]],
         rp_process_execute = [''git''], rp_process_inspect = True,
         rp_process_terminate = False \<rparr>)] \<rparr>"

definition sample_table :: grants_table where
  "sample_table = \<lparr> gt_principals =
     [(''blake3:'' @ replicate 64 CHR ''a'',
       [GFilesystemRead ''logs'', GFilesystemList [], GProcessExecute [''git''], GProcessInspect])] \<rparr>"

lemma sample_parses: "grants_parse_json (\<lambda>_. Inr sample_raw) [] = Inr sample_table"
  by code_simp

theorem grants_parse_json_exact_witness:
  "table_ok sample_table"
  using grants_parse_json_exact [of "\<lambda>_. Inr sample_raw" "[]" sample_table sample_raw]
    sample_parses
  by (simp add: hm_ok_def sample_raw_def)

text \<open>
  The identity of a connection is the fingerprint of the first peer certificate and of
  nothing else; no certificate means no caller.  With a digest that is 64 hex digits the
  fingerprint has the shape the grants file requires, and equal identities mean equal digests.
\<close>

theorem caller_identity:
  assumes "\<And>b. length (blake3_hex b) = 64 \<and> list_all is_ascii_hexdigit (blake3_hex b)"
  shows "caller_from_peer_certs blake3_hex None = None \<and>
    caller_from_peer_certs blake3_hex (Some []) = None \<and>
    (\<exists>c. caller_from_peer_certs blake3_hex (Some (leaf # chain)) = Some c \<and>
       valid_fingerprint (ca_fingerprint c)) \<and>
    (caller_from_peer_certs blake3_hex (Some (leaf # chain)) =
       caller_from_peer_certs blake3_hex (Some (leaf' # chain')) \<longleftrightarrow>
     blake3_hex leaf = blake3_hex leaf')"
  using assms
  by (auto simp: caller_from_peer_certs_def caller_from_leaf_der_def caller_new_def
      fingerprint_der_def valid_fingerprint_def)

theorem caller_identity_witness:
  "caller_from_peer_certs (\<lambda>_. replicate 64 CHR ''0'') None = None"
  using caller_identity [of "\<lambda>_. replicate 64 CHR ''0''"]
  by (simp add: list_all_iff is_ascii_hexdigit_def)

end
