(* ===== verification/Requests.thy ===== *)
theory Requests
  imports Identity
begin

text \<open>
  \<open>are-core/src/request.rs\<close> and \<open>info.rs\<close>: the request and response types of the protocol, their
  structural validation, and the RPC envelope.  A struct is a record, an enum a datatype;
  response payloads carry the suffix \<open>P\<close> to keep them apart from the requests.  Timestamps and
  sizes (\<open>u64\<close>) are \<open>nat\<close>, exit codes (\<open>i32\<close>) are \<open>int\<close>; a \<open>SystemTime\<close> is a number of seconds.
\<close>

section \<open>Shared types\<close>

record file_metadata =
  fm_size :: nat
  fm_modified_at :: "nat option"
  fm_is_dir :: bool
  fm_is_file :: bool
  fm_hash :: "string option"

definition HASH_HEX_LEN :: nat where
  "HASH_HEX_LEN = 64"

definition is_valid_hash :: "string \<Rightarrow> bool" where
  "is_valid_hash s \<longleftrightarrow> length s = HASH_HEX_LEN \<and> list_all is_ascii_hexdigit s"

record directory_entry =
  de_name :: string
  de_path :: string
  de_metadata :: file_metadata

datatype process_state = Running | Exited int | Failed string

definition nul :: char where
  "nul = CHR 0x00"

definition reject :: "string \<Rightarrow> core_error + unit" where
  "reject msg = Inl (InvalidRequest msg)"

definition path_not_empty :: "string \<Rightarrow> core_error + unit" where
  "path_not_empty p = (if p = [] then reject ''path must not be empty'' else Inr ())"

section \<open>File operations\<close>

record read_file_request =
  rf_environment_id :: environment_id
  rf_path :: string

record read_file_response =
  rr_content :: bytes
  rr_metadata :: file_metadata

definition read_file_validate :: "read_file_request \<Rightarrow> core_error + unit" where
  "read_file_validate r = path_not_empty (rf_path r)"

record write_file_request =
  wf_environment_id :: environment_id
  wf_path :: string
  wf_content :: bytes
  wf_overwrite :: bool
  wf_expected_hash :: "string option"

record write_file_response =
  wr_metadata :: file_metadata

definition write_file_validate :: "write_file_request \<Rightarrow> core_error + unit" where
  "write_file_validate r =
     (if wf_path r = [] then reject ''path must not be empty''
      else (case wf_expected_hash r of
              None \<Rightarrow> Inr ()
            | Some h \<Rightarrow>
                if \<not> is_valid_hash h
                then reject (''expected_hash must be '' @ nat_str HASH_HEX_LEN
                       @ '' hex chars, got '' @ debug_str h)
                else Inr ()))"

record create_directory_request =
  cd_environment_id :: environment_id
  cd_path :: string

record create_directory_response =
  cdr_metadata :: file_metadata

definition create_directory_validate :: "create_directory_request \<Rightarrow> core_error + unit" where
  "create_directory_validate r = path_not_empty (cd_path r)"

record rename_request =
  rn_environment_id :: environment_id
  rn_src :: string
  rn_dst :: string

record rename_response =
  rnr_metadata :: file_metadata

definition rename_validate :: "rename_request \<Rightarrow> core_error + unit" where
  "rename_validate r =
     (if rn_src r = [] then reject ''src must not be empty''
      else if rn_dst r = [] then reject ''dst must not be empty''
      else if rn_src r = rn_dst r then reject ''src and dst must differ''
      else Inr ())"

record delete_request =
  dl_environment_id :: environment_id
  dl_path :: string

record delete_response =
  dlr_deleted :: bool

definition delete_validate :: "delete_request \<Rightarrow> core_error + unit" where
  "delete_validate r = path_not_empty (dl_path r)"

record get_file_metadata_request =
  gm_environment_id :: environment_id
  gm_path :: string

record get_file_metadata_response =
  gmr_metadata :: file_metadata

definition get_file_metadata_validate :: "get_file_metadata_request \<Rightarrow> core_error + unit" where
  "get_file_metadata_validate r = path_not_empty (gm_path r)"

record list_directory_request =
  ld_environment_id :: environment_id
  ld_path :: string

record list_directory_response =
  ldr_entries :: "directory_entry list"

definition list_directory_validate :: "list_directory_request \<Rightarrow> core_error + unit" where
  "list_directory_validate r = path_not_empty (ld_path r)"

section \<open>Environment variables\<close>

type_synonym env_map = "(string, string) hmap"

definition MAX_EXEC_ARGS :: nat where
  "MAX_EXEC_ARGS = 256"

definition MAX_EXEC_ARG_LEN :: nat where
  "MAX_EXEC_ARG_LEN = 32 * 1024"

definition MAX_EXEC_ENV_VARS :: nat where
  "MAX_EXEC_ENV_VARS = 128"

definition MAX_EXEC_ENV_KEY_LEN :: nat where
  "MAX_EXEC_ENV_KEY_LEN = 4 * 1024"

definition MAX_EXEC_ENV_VALUE_LEN :: nat where
  "MAX_EXEC_ENV_VALUE_LEN = 1024 * 1024"

definition validate_env_var :: "string \<Rightarrow> string \<Rightarrow> core_error + unit" where
  "validate_env_var key val =
     (if key = [] then reject ''env var key must not be empty''
      else if CHR ''='' \<in> set key \<or> nul \<in> set key
      then reject (''invalid env var key: '' @ debug_str key)
      else if length key > MAX_EXEC_ENV_KEY_LEN
      then reject (''env var key '' @ debug_str key @ '' exceeds maximum length ''
             @ nat_str MAX_EXEC_ENV_KEY_LEN)
      else if length val > MAX_EXEC_ENV_VALUE_LEN
      then reject (''env var value for '' @ debug_str key @ '' exceeds maximum length ''
             @ nat_str MAX_EXEC_ENV_VALUE_LEN)
      else if nul \<in> set val
      then reject (''env var value for '' @ debug_str key @ '' must not contain NUL'')
      else if key = ''PATH''
      then reject (''env var PATH must not be supplied: programs resolve against ''
             @ ''the daemon'' @ [squote] @ ''s trusted PATH'')
      else Inr ())"

fun validate_env_loop :: "env_map \<Rightarrow> core_error + unit" where
  "validate_env_loop [] = Inr ()"
| "validate_env_loop ((key, val) # rest) =
     bindE (validate_env_var key val) (\<lambda>_. validate_env_loop rest)"

definition validate_env_vars :: "env_map \<Rightarrow> core_error + unit" where
  "validate_env_vars env =
     (if length env > MAX_EXEC_ENV_VARS
      then reject (''too many env vars: '' @ nat_str (length env) @ '' exceeds maximum ''
             @ nat_str MAX_EXEC_ENV_VARS)
      else validate_env_loop env)"

section \<open>Process operations\<close>

record execute_request =
  ex_environment_id :: environment_id
  ex_session_id :: session_id
  ex_program :: string
  ex_args :: "string list"
  ex_working_directory :: string
  ex_env_vars :: env_map

record execute_response =
  exr_process_id :: process_id

fun validate_args :: "string list \<Rightarrow> core_error + unit" where
  "validate_args [] = Inr ()"
| "validate_args (arg # args) =
     (if nul \<in> set arg then reject ''args must not contain NUL''
      else if length arg > MAX_EXEC_ARG_LEN
      then reject (''arg exceeds maximum length '' @ nat_str MAX_EXEC_ARG_LEN)
      else validate_args args)"

definition execute_validate :: "execute_request \<Rightarrow> core_error + unit" where
  "execute_validate r =
     (if ex_program r = [] then reject ''program must not be empty''
      else if nul \<in> set (ex_program r) then reject ''program must not contain NUL''
      else if nul \<in> set (ex_working_directory r)
      then reject ''working_directory must not contain NUL''
      else if length (ex_args r) > MAX_EXEC_ARGS
      then reject (''too many args: '' @ nat_str (length (ex_args r)) @ '' exceeds maximum ''
             @ nat_str MAX_EXEC_ARGS)
      else bindE (validate_args (ex_args r)) (\<lambda>_. validate_env_vars (ex_env_vars r)))"

record process_status_request =
  ps_environment_id :: environment_id
  ps_session_id :: session_id
  ps_process_id :: process_id

record process_status_response =
  psr_state :: process_state

record terminate_process_request =
  tp_environment_id :: environment_id
  tp_session_id :: session_id
  tp_process_id :: process_id
  tp_force :: bool

record terminate_process_response =
  tpr_terminated :: bool

definition MIN_WAIT_TIMEOUT_SECS :: nat where
  "MIN_WAIT_TIMEOUT_SECS = 1"

definition MAX_WAIT_TIMEOUT_SECS :: nat where
  "MAX_WAIT_TIMEOUT_SECS = 3600"

record wait_process_request =
  wp_environment_id :: environment_id
  wp_session_id :: session_id
  wp_process_id :: process_id
  wp_timeout_secs :: nat

record wait_process_response =
  wpr_stdout :: bytes
  wpr_stderr :: bytes
  wpr_exit_code :: "int option"
  wpr_timed_out :: bool
  wpr_truncated :: bool

definition wait_process_validate :: "wait_process_request \<Rightarrow> core_error + unit" where
  "wait_process_validate r =
     (if wp_timeout_secs r < MIN_WAIT_TIMEOUT_SECS
      then reject (''timeout_secs '' @ nat_str (wp_timeout_secs r) @ '' is below minimum ''
             @ nat_str MIN_WAIT_TIMEOUT_SECS @ '': wait requires an explicit timeout'')
      else if wp_timeout_secs r > MAX_WAIT_TIMEOUT_SECS
      then reject (''timeout_secs '' @ nat_str (wp_timeout_secs r) @ '' exceeds maximum ''
             @ nat_str MAX_WAIT_TIMEOUT_SECS)
      else Inr ())"

section \<open>Session operations\<close>

record create_session_request =
  cs_environment_id :: environment_id
  cs_working_directory :: "string option"
  cs_env_vars :: env_map

record session_info =
  si_session_id :: session_id
  si_environment_id :: environment_id
  si_working_directory :: string
  si_env_vars :: env_map
  si_created_at :: nat
  si_last_activity :: nat
  si_owner :: "string option"

record create_session_response =
  csr_session :: session_info

definition create_session_validate :: "create_session_request \<Rightarrow> core_error + unit" where
  "create_session_validate r =
     bindE (case cs_working_directory r of
              None \<Rightarrow> Inr ()
            | Some workdir \<Rightarrow>
                if workdir = []
                then reject ''working_directory must not be empty: pass None for the default''
                else if nul \<in> set workdir then reject ''working_directory must not contain NUL''
                else Inr ())
       (\<lambda>_. validate_env_vars (cs_env_vars r))"

record get_session_request =
  gs_environment_id :: environment_id
  gs_session_id :: session_id

record get_session_response =
  gsr_session :: session_info

record list_sessions_request =
  ls_environment_id :: environment_id

record list_sessions_response =
  lsr_sessions :: "session_info list"

record terminate_session_request =
  ts_environment_id :: environment_id
  ts_session_id :: session_id

record terminate_session_response =
  tsr_terminated_processes :: nat

section \<open>Environment information and the RPC envelope\<close>

record get_environment_info_request =
  gi_environment_id :: environment_id

definition get_environment_info_validate :: "get_environment_info_request \<Rightarrow> core_error + unit" where
  "get_environment_info_validate r =
     (if env_str (gi_environment_id r) = [] then reject ''environment_id must not be empty''
      else Inr ())"

record get_environment_info_response =
  gir_environment_id :: environment_id
  gir_machine_name :: string
  gir_operating_system :: string
  gir_daemon_version :: string
  gir_advertised_capabilities :: capability_set
  gir_platform :: platform
  gir_caller_fingerprint :: "string option"

datatype rpc_request =
    GetEnvironmentInfo get_environment_info_request
  | ReadFile read_file_request
  | WriteFile write_file_request
  | CreateDirectory create_directory_request
  | RenameReq rename_request
  | DeleteFile delete_request
  | ListDirectory list_directory_request
  | GetFileMetadata get_file_metadata_request
  | Execute execute_request
  | ProcessStatus process_status_request
  | TerminateProcess terminate_process_request
  | WaitProcess wait_process_request
  | CreateSession create_session_request
  | GetSession get_session_request
  | ListSessions list_sessions_request
  | TerminateSession terminate_session_request

datatype rpc_payload =
    GetEnvironmentInfoP get_environment_info_response
  | ReadFileP read_file_response
  | WriteFileP write_file_response
  | CreateDirectoryP create_directory_response
  | RenameP rename_response
  | DeleteFileP delete_response
  | ListDirectoryP list_directory_response
  | GetFileMetadataP get_file_metadata_response
  | ExecuteP execute_response
  | ProcessStatusP process_status_response
  | TerminateProcessP terminate_process_response
  | WaitProcessP wait_process_response
  | CreateSessionP create_session_response
  | GetSessionP get_session_response
  | ListSessionsP list_sessions_response
  | TerminateSessionP terminate_session_response

datatype rpc_error =
    RpcInvalidRequest string
  | RpcUnknownRequestType string
  | RpcNotFound string
  | RpcDeniedExecutable string
  | RpcSessionNotFound string
  | RpcSessionExpired string
  | RpcForbidden string
  | RpcCapacityExceeded string
  | RpcConflict string
  | RpcInternalError string

type_synonym rpc_response = "rpc_error + rpc_payload"

fun rpc_error_display :: "rpc_error \<Rightarrow> string" where
  "rpc_error_display (RpcInvalidRequest s) = ''invalid request: '' @ s"
| "rpc_error_display (RpcUnknownRequestType s) = ''unknown request type: '' @ s"
| "rpc_error_display (RpcNotFound s) = ''not found: '' @ s"
| "rpc_error_display (RpcDeniedExecutable s) = ''executable denied by policy: '' @ s"
| "rpc_error_display (RpcSessionNotFound s) = ''session not found: '' @ s"
| "rpc_error_display (RpcSessionExpired s) = ''session expired: '' @ s"
| "rpc_error_display (RpcForbidden s) = ''forbidden: '' @ s"
| "rpc_error_display (RpcCapacityExceeded s) = ''capacity exceeded: '' @ s"
| "rpc_error_display (RpcConflict s) = ''conflict: '' @ s"
| "rpc_error_display (RpcInternalError s) = ''internal error: '' @ s"

section \<open>What validation guarantees\<close>

definition valid_env_var :: "string \<Rightarrow> string \<Rightarrow> bool" where
  "valid_env_var key val \<longleftrightarrow>
     key \<noteq> [] \<and> CHR ''='' \<notin> set key \<and> nul \<notin> set key \<and> length key \<le> MAX_EXEC_ENV_KEY_LEN \<and>
     length val \<le> MAX_EXEC_ENV_VALUE_LEN \<and> nul \<notin> set val \<and> key \<noteq> ''PATH''"

lemma validate_env_var_iff: "validate_env_var key val = Inr u \<longleftrightarrow> valid_env_var key val"
  by (auto simp: validate_env_var_def valid_env_var_def reject_def)

lemma validate_env_loop_iff:
  "validate_env_loop env = Inr u \<longleftrightarrow> (\<forall>(k, v) \<in> set env. valid_env_var k v)"
  by (induction env rule: validate_env_loop.induct)
    (auto simp: bindE_Inr_iff validate_env_var_iff)

lemma validate_env_vars_iff:
  "validate_env_vars env = Inr u \<longleftrightarrow>
     length env \<le> MAX_EXEC_ENV_VARS \<and> (\<forall>(k, v) \<in> set env. valid_env_var k v)"
  by (auto simp: validate_env_vars_def validate_env_loop_iff reject_def)

lemma validate_args_iff:
  "validate_args args = Inr u \<longleftrightarrow> (\<forall>a \<in> set args. nul \<notin> set a \<and> length a \<le> MAX_EXEC_ARG_LEN)"
  by (induction args) (auto simp: reject_def)

lemma execute_validate_iff:
  "execute_validate r = Inr u \<longleftrightarrow>
     ex_program r \<noteq> [] \<and> nul \<notin> set (ex_program r) \<and> nul \<notin> set (ex_working_directory r) \<and>
     length (ex_args r) \<le> MAX_EXEC_ARGS \<and> validate_args (ex_args r) = Inr () \<and>
     validate_env_vars (ex_env_vars r) = Inr ()"
  by (auto simp: execute_validate_def reject_def bindE_Inr_iff)

lemma create_session_validate_iff:
  "create_session_validate r = Inr u \<longleftrightarrow>
     (\<forall>w. cs_working_directory r = Some w \<longrightarrow> w \<noteq> [] \<and> nul \<notin> set w) \<and>
     validate_env_vars (cs_env_vars r) = Inr ()"
  by (auto simp: create_session_validate_def reject_def bindE_Inr_iff split: option.splits if_splits)

lemma sum_list_bound: "(\<And>x. x \<in> set xs \<Longrightarrow> f x \<le> b) \<Longrightarrow> sum_list (map f xs) \<le> length xs * (b :: nat)"
  by (induction xs) (auto intro: add_mono)

lemma valid_env_var_size: "valid_env_var k v \<Longrightarrow> length k + length v \<le> 1052672"
  by (simp add: valid_env_var_def MAX_EXEC_ENV_KEY_LEN_def MAX_EXEC_ENV_VALUE_LEN_def)

lemma args_size:
  assumes "validate_args args = Inr ()" and "length args \<le> MAX_EXEC_ARGS"
  shows "sum_list (map length args) \<le> 8388608"
proof -
  have "sum_list (map length args) \<le> length args * 32768"
    using assms(1) by (intro sum_list_bound) (simp add: validate_args_iff MAX_EXEC_ARG_LEN_def)
  then show ?thesis using assms(2) by (simp add: MAX_EXEC_ARGS_def)
qed

lemma env_size:
  assumes "validate_env_vars env = Inr ()"
  shows "sum_list (map (\<lambda>(k, v). length k + length v) env) \<le> 134742016"
proof -
  have "sum_list (map (\<lambda>(k, v). length k + length v) env) \<le> length env * 1052672"
  proof (rule sum_list_bound)
    fix x assume "x \<in> set env"
    then show "(case x of (k, v) \<Rightarrow> length k + length v) \<le> 1052672"
      using assms by (cases x) (auto simp: validate_env_vars_iff intro: valid_env_var_size)
  qed
  then show ?thesis using assms by (simp add: validate_env_vars_iff MAX_EXEC_ENV_VARS_def)
qed

text \<open>
  An execution request that passes validation is bounded and safe to spawn with: its
  arguments are at most 8 MiB in total, its environment at most 128.5 MiB, nothing contains a NUL
  byte, and \<open>PATH\<close> is not overridden.
\<close>

theorem execute_validate_bounds:
  assumes "execute_validate r = Inr ()"
  shows "sum_list (map length (ex_args r)) \<le> 8388608 \<and>
    sum_list (map (\<lambda>(k, v). length k + length v) (ex_env_vars r)) \<le> 134742016 \<and>
    nul \<notin> set (ex_program r) \<union> set (ex_working_directory r) \<union> \<Union> (set ` set (ex_args r)) \<and>
    (\<forall>(k, v) \<in> set (ex_env_vars r). k \<noteq> ''PATH'' \<and> k \<noteq> [] \<and> nul \<notin> set k \<and> nul \<notin> set v)"
proof (intro conjI)
  note acc = assms [unfolded execute_validate_iff]
  show "sum_list (map length (ex_args r)) \<le> 8388608"
    using acc by (intro args_size) simp_all
  show "sum_list (map (\<lambda>(k, v). length k + length v) (ex_env_vars r)) \<le> 134742016"
    using acc by (intro env_size) simp
  show "nul \<notin> set (ex_program r) \<union> set (ex_working_directory r) \<union> \<Union> (set ` set (ex_args r))"
    using acc by (auto simp: validate_args_iff)
  show "\<forall>(k, v) \<in> set (ex_env_vars r). k \<noteq> ''PATH'' \<and> k \<noteq> [] \<and> nul \<notin> set k \<and> nul \<notin> set v"
    using acc by (auto simp: validate_env_vars_iff valid_env_var_def)
qed

definition sample_execute :: execute_request where
  "sample_execute = \<lparr> ex_environment_id = EnvironmentId ''dev'', ex_session_id = SessionId ''s'',
     ex_program = ''git'', ex_args = [''status''], ex_working_directory = [],
     ex_env_vars = [(''LANG'', ''C'')] \<rparr>"

theorem execute_validate_bounds_witness:
  "sum_list (map length (ex_args sample_execute)) \<le> 8388608"
proof -
  have "execute_validate sample_execute = Inr ()"
    by (simp add: execute_validate_iff validate_args_iff validate_env_vars_iff valid_env_var_def
        sample_execute_def nul_def MAX_EXEC_ARGS_def MAX_EXEC_ARG_LEN_def MAX_EXEC_ENV_VARS_def
        MAX_EXEC_ENV_KEY_LEN_def MAX_EXEC_ENV_VALUE_LEN_def)
  from execute_validate_bounds [OF this] show ?thesis by blast
qed

end
