(* ===== verification/World.thy ===== *)
theory World
  imports Requests
begin

text \<open>
  The machine under the daemon, as an explicit state threaded through every effectful operation:
  the file tree with a ghost history of all its intermediate states, the entropy source, the wall
  clock and the log of spawned commands.  What the operating system decides (a failing call, a
  time, random bytes) is an oracle indexed by a counter, so that the theorems hold for all its
  choices.  An effectful Rust function is a \<open>comp\<close>: a function from worlds to a result and a world.
  Other processes do not change the tree while one operation runs (the daemon documents that
  window as best effort).
\<close>

section \<open>Errors of the operating system\<close>

datatype errno =
    ENOENT | EACCES | EPERM | EEXIST | ENOTDIR | EISDIR | ENOTEMPTY | ELOOP | EINVAL | EBUSY
  | EOther nat string

datatype error_kind = KNotFound | KPermissionDenied | KAlreadyExists | KOtherError

fun errno_kind :: "errno \<Rightarrow> error_kind" where
  "errno_kind ENOENT = KNotFound"
| "errno_kind EACCES = KPermissionDenied"
| "errno_kind EPERM = KPermissionDenied"
| "errno_kind EEXIST = KAlreadyExists"
| "errno_kind _ = KOtherError"

definition os_error :: "string \<Rightarrow> nat \<Rightarrow> string" where
  "os_error msg code = msg @ '' (os error '' @ nat_str code @ '')''"

fun errno_display :: "errno \<Rightarrow> string" where
  "errno_display ENOENT = os_error ''No such file or directory'' 2"
| "errno_display EACCES = os_error ''Permission denied'' 13"
| "errno_display EPERM = os_error ''Operation not permitted'' 1"
| "errno_display EEXIST = os_error ''File exists'' 17"
| "errno_display ENOTDIR = os_error ''Not a directory'' 20"
| "errno_display EISDIR = os_error ''Is a directory'' 21"
| "errno_display ENOTEMPTY = os_error ''Directory not empty'' 39"
| "errno_display ELOOP = os_error ''Too many levels of symbolic links'' 40"
| "errno_display EINVAL = os_error ''Invalid argument'' 22"
| "errno_display EBUSY = os_error ''Device or resource busy'' 16"
| "errno_display (EOther code msg) = os_error msg code"

text \<open>
  A call may fail for reasons that have nothing to do with the tree: permissions and devices.
  What depends on the tree (a missing entry, a file in the way) is decided by the tree alone.
\<close>

datatype os_fault = NoAccess | NotPermitted | DeviceFault nat string

fun fault_errno :: "os_fault \<Rightarrow> errno" where
  "fault_errno NoAccess = EACCES"
| "fault_errno NotPermitted = EPERM"
| "fault_errno (DeviceFault code msg) = EOther code msg"

lemma fault_errno_kind [simp]:
  "errno_kind (fault_errno f) \<noteq> KNotFound" "errno_kind (fault_errno f) \<noteq> KAlreadyExists"
  "fault_errno f \<noteq> ENOENT" "fault_errno f \<noteq> EEXIST"
  by (cases f; simp)+

lemma errno_kind_iff [simp]:
  "errno_kind e = KNotFound \<longleftrightarrow> e = ENOENT"
  "errno_kind e = KAlreadyExists \<longleftrightarrow> e = EEXIST"
  by (cases e; simp)+

section \<open>State\<close>

type_synonym fpath = "string list"

datatype node = NFile bytes | NDir | NSymlink string | NSpecial bytes

type_synonym tree = "(fpath, node) hmap"

text \<open>
  A \<open>SystemTime\<close> after the epoch: seconds and nanoseconds, ordered as Rust orders them.
  \<open>as_secs_since\<close> is \<open>now.duration_since(earlier).unwrap_or(ZERO).as_secs()\<close>.
\<close>

datatype system_time = SystemTime (st_secs: nat) (st_nanos: nat)

instantiation system_time :: linorder
begin

definition less_eq_system_time :: "system_time \<Rightarrow> system_time \<Rightarrow> bool" where
  "less_eq_system_time s t \<longleftrightarrow>
     st_secs s < st_secs t \<or> st_secs s = st_secs t \<and> st_nanos s \<le> st_nanos t"

definition less_system_time :: "system_time \<Rightarrow> system_time \<Rightarrow> bool" where
  "less_system_time s t \<longleftrightarrow>
     st_secs s < st_secs t \<or> st_secs s = st_secs t \<and> st_nanos s < st_nanos t"

instance
  by standard (auto simp: less_eq_system_time_def less_system_time_def system_time.expand)

end

definition UNIX_EPOCH :: system_time where
  "UNIX_EPOCH = SystemTime 0 0"

definition as_secs_since :: "system_time \<Rightarrow> system_time \<Rightarrow> nat" where
  "as_secs_since now earlier =
     (if now < earlier then 0
      else st_secs now - st_secs earlier - (if st_nanos now < st_nanos earlier then 1 else 0))"

record command =
  cmd_program :: string
  cmd_args :: "string list"
  cmd_dir :: fpath
  cmd_env :: env_map

record world =
  w_fs :: tree
  w_hist :: "tree list"
  w_fault :: "nat \<Rightarrow> os_fault option"
  w_sys :: nat
  w_partial :: "nat \<Rightarrow> nat"
  w_mtime :: "nat \<Rightarrow> nat option"
  w_dirlen :: "fpath \<Rightarrow> nat"
  w_entropy :: "nat \<Rightarrow> string + bytes"
  w_rng :: nat
  w_clock :: "nat \<Rightarrow> system_time"
  w_tick :: nat
  w_spawned :: "command list"

type_synonym ('e, 'a) comp = "world \<Rightarrow> ('e + 'a) \<times> world"

definition okM :: "'a \<Rightarrow> ('e, 'a) comp" where
  "okM x w = (Inr x, w)"

definition failM :: "'e \<Rightarrow> ('e, 'a) comp" where
  "failM e w = (Inl e, w)"

definition bindM :: "('e, 'a) comp \<Rightarrow> ('a \<Rightarrow> ('e, 'b) comp) \<Rightarrow> ('e, 'b) comp" where
  "bindM m f w = (case m w of (Inl e, w') \<Rightarrow> (Inl e, w') | (Inr x, w') \<Rightarrow> f x w')"

text \<open>\<open>matchM\<close> is a Rust \<open>match\<close> on a result: both outcomes continue.\<close>

definition matchM :: "('d, 'a) comp \<Rightarrow> ('a \<Rightarrow> ('e, 'b) comp) \<Rightarrow> ('d \<Rightarrow> ('e, 'b) comp) \<Rightarrow> ('e, 'b) comp" where
  "matchM m f g w = (case m w of (Inl e, w') \<Rightarrow> g e w' | (Inr x, w') \<Rightarrow> f x w')"

definition mapM_err :: "('d \<Rightarrow> 'e) \<Rightarrow> ('d, 'a) comp \<Rightarrow> ('e, 'a) comp" where
  "mapM_err h m w = (case m w of (r, w') \<Rightarrow> (mapE h r, w'))"

definition liftM :: "'e + 'a \<Rightarrow> ('e, 'a) comp" where
  "liftM r w = (r, w)"

text \<open>One system call: counted, and failing where the oracle says so.\<close>

definition syscall :: "(errno, 'a) comp \<Rightarrow> (errno, 'a) comp" where
  "syscall op w =
     (let w1 = w\<lparr> w_sys := Suc (w_sys w) \<rparr>
      in case w_fault w (w_sys w) of Some f \<Rightarrow> (Inl (fault_errno f), w1) | None \<Rightarrow> op w1)"

definition set_tree :: "tree \<Rightarrow> world \<Rightarrow> world" where
  "set_tree t w = w\<lparr> w_fs := t, w_hist := w_hist w @ [t] \<rparr>"

text \<open>\<open>getrandom\<close>: sixteen bytes or the rendered error.\<close>

definition sys_getrandom :: "(string, bytes) comp" where
  "sys_getrandom w =
     (w_entropy w (w_rng w), w\<lparr> w_rng := Suc (w_rng w) \<rparr>)"

text \<open>\<open>SystemTime::now\<close>: a reading of the wall clock, which moves on.\<close>

definition system_time_now :: "world \<Rightarrow> system_time \<times> world" where
  "system_time_now w = (w_clock w (w_tick w), w\<lparr> w_tick := Suc (w_tick w) \<rparr>)"

definition now_secs :: "world \<Rightarrow> nat \<times> world" where
  "now_secs w =
     (case system_time_now w of (now, w1) \<Rightarrow> (as_secs_since now UNIX_EPOCH, w1))"

lemma okM_run [simp]: "okM x w = (Inr x, w)"
  by (simp add: okM_def)

lemma failM_run [simp]: "failM e w = (Inl e, w)"
  by (simp add: failM_def)

lemma liftM_run [simp]: "liftM r w = (r, w)"
  by (simp add: liftM_def)

lemma bindM_Inr [res_simps]:
  "bindM m f w = (Inr y, w') \<longleftrightarrow> (\<exists>x w1. m w = (Inr x, w1) \<and> f x w1 = (Inr y, w'))"
  by (auto simp: bindM_def split: prod.splits sum.splits)

lemma bindM_Inl [res_simps]:
  "bindM m f w = (Inl e, w') \<longleftrightarrow>
     m w = (Inl e, w') \<or> (\<exists>x w1. m w = (Inr x, w1) \<and> f x w1 = (Inl e, w'))"
  by (auto simp: bindM_def split: prod.splits sum.splits)

lemma bindM_run:
  "m w = (Inr x, w1) \<Longrightarrow> bindM m f w = f x w1"
  "m w = (Inl e, w1) \<Longrightarrow> bindM m f w = (Inl e, w1)"
  by (simp_all add: bindM_def)

lemma matchM_run:
  "m w = (Inr x, w1) \<Longrightarrow> matchM m f g w = f x w1"
  "m w = (Inl e, w1) \<Longrightarrow> matchM m f g w = g e w1"
  by (simp_all add: matchM_def)

lemma mapM_err_Inr [simp]: "mapM_err h m w = (Inr x, w') \<longleftrightarrow> m w = (Inr x, w')"
  by (auto simp: mapM_err_def mapE_def split: prod.splits sum.splits)

lemma set_tree_fields [simp]:
  "w_fs (set_tree t w) = t"
  "w_hist (set_tree t w) = w_hist w @ [t]"
  "w_fault (set_tree t w) = w_fault w"
  "w_sys (set_tree t w) = w_sys w"
  "w_spawned (set_tree t w) = w_spawned w"
  "w_entropy (set_tree t w) = w_entropy w"
  by (simp_all add: set_tree_def)

lemma syscall_Inr:
  "syscall op w = (Inr x, w') \<longleftrightarrow>
     w_fault w (w_sys w) = None \<and> op (w\<lparr> w_sys := Suc (w_sys w) \<rparr>) = (Inr x, w')"
  by (auto simp: syscall_def Let_def split: option.splits)

lemma syscall_Inl:
  "syscall op w = (Inl e, w') \<longleftrightarrow>
     (\<exists>f. w_fault w (w_sys w) = Some f \<and> e = fault_errno f \<and> w' = w\<lparr> w_sys := Suc (w_sys w) \<rparr>) \<or>
     w_fault w (w_sys w) = None \<and> op (w\<lparr> w_sys := Suc (w_sys w) \<rparr>) = (Inl e, w')"
  by (auto simp: syscall_def Let_def split: option.splits)

section \<open>Relations every computation step obeys\<close>

text \<open>
  A reflexive and transitive relation between the world before and after a computation is
  respected by a program as soon as its system calls respect it.
\<close>

locale world_relation =
  fixes R :: "world \<Rightarrow> world \<Rightarrow> bool"
  assumes R_refl: "R w w"
    and R_trans: "R u v \<Longrightarrow> R v w \<Longrightarrow> R u w"
begin

definition obeys :: "('e, 'a) comp \<Rightarrow> bool" where
  "obeys m \<longleftrightarrow> (\<forall>w. R w (snd (m w)))"

lemma obeysD: "obeys m \<Longrightarrow> m w = (r, w') \<Longrightarrow> R w w'"
  unfolding obeys_def by (metis snd_conv)

lemma obeysI: "(\<And>w r w'. m w = (r, w') \<Longrightarrow> R w w') \<Longrightarrow> obeys m"
  unfolding obeys_def by (metis prod.collapse)

lemma obeys_ok: "obeys (okM x)"
  by (rule obeysI) (simp add: R_refl)

lemma obeys_fail: "obeys (failM e)"
  by (rule obeysI) (simp add: R_refl)

lemma obeys_lift: "obeys (liftM r)"
  by (rule obeysI) (simp add: R_refl)

lemma obeys_bind:
  assumes "obeys m" and "\<And>x. obeys (f x)"
  shows "obeys (bindM m f)"
proof (rule obeysI)
  fix w r w' assume run: "bindM m f w = (r, w')"
  obtain r1 w1 where m: "m w = (r1, w1)" by fastforce
  with assms(1) have R1: "R w w1" by (rule obeysD)
  show "R w w'"
  proof (cases r1)
    case (Inl e)
    then show ?thesis using run R1 by (simp add: bindM_def m)
  next
    case (Inr x)
    then have "f x w1 = (r, w')" using run by (simp add: bindM_def m)
    then show ?thesis using R1 R_trans obeysD [OF assms(2)] by blast
  qed
qed

lemma obeys_match:
  assumes "obeys m" and "\<And>x. obeys (f x)" and "\<And>e. obeys (g e)"
  shows "obeys (matchM m f g)"
proof (rule obeysI)
  fix w r w' assume run: "matchM m f g w = (r, w')"
  obtain r1 w1 where m: "m w = (r1, w1)" by fastforce
  with assms(1) have R1: "R w w1" by (rule obeysD)
  show "R w w'"
  proof (cases r1)
    case (Inl e)
    then have "g e w1 = (r, w')" using run by (simp add: matchM_def m)
    then show ?thesis using R1 R_trans obeysD [OF assms(3)] by blast
  next
    case (Inr x)
    then have "f x w1 = (r, w')" using run by (simp add: matchM_def m)
    then show ?thesis using R1 R_trans obeysD [OF assms(2)] by blast
  qed
qed

lemma obeys_map_err: "obeys m \<Longrightarrow> obeys (mapM_err h m)"
  by (rule obeysI) (auto simp: mapM_err_def dest: obeysD split: prod.splits)

lemma obeys_if: "obeys m \<Longrightarrow> obeys n \<Longrightarrow> obeys (if b then m else n)"
  by simp

lemmas obeys_intros =
  obeys_ok obeys_fail obeys_lift obeys_bind obeys_match obeys_map_err obeys_if

end

text \<open>No effect on the tree at all.\<close>

definition same_tree :: "world \<Rightarrow> world \<Rightarrow> bool" where
  "same_tree w w' \<longleftrightarrow>
     w_fs w' = w_fs w \<and> w_hist w' = w_hist w \<and> w_fault w' = w_fault w \<and> w_spawned w' = w_spawned w"

interpretation same_tree: world_relation same_tree
  by unfold_locales (auto simp: same_tree_def)

text \<open>
  A relation on trees and histories only: calls that leave the tree alone respect it, and a call
  that changes the tree respects it when the new tree does.
\<close>

locale tree_relation = world_relation +
  assumes R_same: "same_tree w w' \<Longrightarrow> R w w'"
begin

lemma obeys_same: "same_tree.obeys m \<Longrightarrow> obeys m"
  unfolding same_tree.obeys_def obeys_def using R_same by blast

lemma obeys_syscall:
  assumes "\<And>w. R w (snd (op w))"
  shows "obeys (syscall op)"
proof (rule obeysI)
  fix w r w' assume run: "syscall op w = (r, w')"
  let ?w1 = "w\<lparr> w_sys := Suc (w_sys w) \<rparr>"
  have 1: "R w ?w1" by (rule R_same) (simp add: same_tree_def)
  have "w' = ?w1 \<or> w' = snd (op ?w1)"
    using run by (auto simp: syscall_def Let_def split: option.splits)
  then show "R w w'" using 1 assms [of ?w1] R_trans by auto
qed

end

text \<open>The history is extended, never rewritten, and its last entry is the current tree.\<close>

definition extends :: "world \<Rightarrow> world \<Rightarrow> bool" where
  "extends w w' \<longleftrightarrow> w_fault w' = w_fault w \<and> w_spawned w' = w_spawned w \<and>
     (\<exists>h. w_hist w' = w_hist w @ h \<and> (h = [] \<longrightarrow> w_fs w' = w_fs w) \<and>
      (h \<noteq> [] \<longrightarrow> last h = w_fs w'))"

interpretation extends: tree_relation extends
  by unfold_locales (auto simp: extends_def last_append same_tree_def)

end
