(* ===== verification/OsFs.thy ===== *)
theory OsFs
  imports World Grant
begin

text \<open>
  The part of \<open>std::path\<close> and \<open>std::fs\<close> the daemon relies on, on Linux.  An absolute path is the
  list of its components as they stand in the string (\<open>.\<close> and \<open>..\<close> included; a trailing slash
  counts as a last \<open>.\<close>, which is how the kernel reads it); a canonical path is such a list of
  proper names.  \<open>walk\<close> is the kernel's path resolution with its limit of 40 symbolic links.
\<close>

section \<open>Paths\<close>

definition split_path :: "string \<Rightarrow> string list" where
  "split_path s =
     (let parts = filter (\<lambda>c. c \<noteq> []) (split_on slash s)
      in if s \<noteq> [] \<and> last s = slash then parts @ [''.''] else parts)"

definition trim_dots :: "string list \<Rightarrow> string list" where
  "trim_dots raw = rev (dropWhile (\<lambda>c. c = ''.'') (rev raw))"

text \<open>\<open>Path::file_name\<close> and \<open>Path::parent\<close> of an absolute path.\<close>

definition abs_file_name :: "string list \<Rightarrow> string option" where
  "abs_file_name raw =
     (let t = trim_dots raw in if t = [] \<or> last t = ''..'' then None else Some (last t))"

definition abs_parent :: "string list \<Rightarrow> string list option" where
  "abs_parent raw =
     (let t = trim_dots raw in if t = [] then None else Some (trim_dots (butlast t)))"

text \<open>The same for a relative path, whose leading \<open>.\<close> is a component of its own.\<close>

definition rel_trim :: "string list \<Rightarrow> string list" where
  "rel_trim raw =
     (case raw of [] \<Rightarrow> []
      | c # cs \<Rightarrow> if c = ''.'' then ''.'' # trim_dots cs else trim_dots raw)"

definition rel_file_name :: "string list \<Rightarrow> string option" where
  "rel_file_name raw =
     (let t = rel_trim raw
      in if t = [] \<or> last t = ''..'' \<or> last t = ''.'' then None else Some (last t))"

definition rel_parent :: "string list \<Rightarrow> string list option" where
  "rel_parent raw =
     (let t = rel_trim raw in if t = [] then None else Some (rel_trim (butlast t)))"

datatype component = RootDir | CurDir | ParentDir | Normal string

fun body_components :: "string list \<Rightarrow> component list" where
  "body_components [] = []"
| "body_components (c # cs) =
     (if c = ''.'' then body_components cs
      else if c = ''..'' then ParentDir # body_components cs
      else Normal c # body_components cs)"

text \<open>\<open>Path::components\<close> on Unix: a leading \<open>.\<close> is kept, the others are dropped.\<close>

definition path_components :: "string \<Rightarrow> component list" where
  "path_components s =
     (let raw = filter (\<lambda>c. c \<noteq> []) (split_on slash s)
      in if prefix [slash] s then RootDir # body_components raw
         else (case raw of [] \<Rightarrow> []
               | c # cs \<Rightarrow> if c = ''.'' then CurDir # body_components cs else body_components raw))"

section \<open>Path resolution\<close>

definition normal_name :: "string \<Rightarrow> bool" where
  "normal_name c \<longleftrightarrow> c \<noteq> [] \<and> c \<noteq> ''.'' \<and> c \<noteq> ''..'' \<and> slash \<notin> set c \<and> nul \<notin> set c"

definition is_dir_node :: "tree \<Rightarrow> fpath \<Rightarrow> bool" where
  "is_dir_node t p \<longleftrightarrow> (case hm_get t p of Some NDir \<Rightarrow> True | _ \<Rightarrow> False)"

function walk :: "tree \<Rightarrow> nat \<Rightarrow> bool \<Rightarrow> fpath \<Rightarrow> string list \<Rightarrow> errno + fpath" where
  "walk t budget follow cur [] = Inr cur"
| "walk t budget follow cur (c # rest) =
     (if \<not> is_dir_node t cur then Inl ENOTDIR
      else if c = ''.'' then walk t budget follow cur rest
      else if c = ''..'' then walk t budget follow (butlast cur) rest
      else (case hm_get t (cur @ [c]) of
              None \<Rightarrow> Inl ENOENT
            | Some (NSymlink target) \<Rightarrow>
                if rest = [] \<and> \<not> follow then Inr (cur @ [c])
                else if target = [] then Inl ENOENT
                else (case budget of
                        0 \<Rightarrow> Inl ELOOP
                      | Suc b \<Rightarrow>
                          walk t b follow (if prefix [slash] target then [] else cur)
                            (split_path target @ rest))
            | Some _ \<Rightarrow> walk t budget follow (cur @ [c]) rest))"
  by pat_completeness auto
termination
  by (relation "measures [\<lambda>(t, b, f, cur, todo). b, \<lambda>(t, b, f, cur, todo). length todo]") auto

definition SYMLINK_LIMIT :: nat where
  "SYMLINK_LIMIT = 40"

definition real_path :: "tree \<Rightarrow> string list \<Rightarrow> errno + fpath" where
  "real_path t raw = walk t SYMLINK_LIMIT True [] raw"

definition real_path_no_follow :: "tree \<Rightarrow> string list \<Rightarrow> errno + fpath" where
  "real_path_no_follow t raw = walk t SYMLINK_LIMIT False [] raw"

text \<open>
  The directory entry an operation creates or removes: the parent is resolved with symbolic links
  followed, the last name is taken as it is.
\<close>

definition entry_path :: "tree \<Rightarrow> string list \<Rightarrow> errno + fpath" where
  "entry_path t raw =
     (if raw = [] then Inl EBUSY
      else if last raw = ''.'' then Inl EINVAL
      else if last raw = ''..'' then Inl ENOTEMPTY
      else bindE (real_path t (butlast raw)) (\<lambda>p.
             if is_dir_node t p then Inr (p @ [last raw]) else Inl ENOTDIR))"

section \<open>System calls\<close>

datatype file_kind = KFile | KDir | KSymlink | KSpecial

record os_metadata =
  md_kind :: file_kind
  md_len :: nat
  md_modified :: "nat option"

fun node_kind :: "node \<Rightarrow> file_kind" where
  "node_kind (NFile b) = KFile"
| "node_kind NDir = KDir"
| "node_kind (NSymlink s) = KSymlink"
| "node_kind (NSpecial b) = KSpecial"

fun node_len :: "(fpath \<Rightarrow> nat) \<Rightarrow> fpath \<Rightarrow> node \<Rightarrow> nat" where
  "node_len dl p (NFile b) = length b"
| "node_len dl p NDir = dl p"
| "node_len dl p (NSymlink s) = length s"
| "node_len dl p (NSpecial b) = 0"

definition metadata_of :: "world \<Rightarrow> fpath \<Rightarrow> errno + os_metadata" where
  "metadata_of w p =
     (case hm_get (w_fs w) p of
        None \<Rightarrow> Inl ENOENT
      | Some n \<Rightarrow> Inr \<lparr> md_kind = node_kind n, md_len = node_len (w_dirlen w) p n,
                       md_modified = w_mtime w (w_sys w) \<rparr>)"

definition sys_canonicalize :: "string list \<Rightarrow> (errno, fpath) comp" where
  "sys_canonicalize raw = syscall (\<lambda>w. (real_path (w_fs w) raw, w))"

definition sys_stat :: "string list \<Rightarrow> (errno, os_metadata) comp" where
  "sys_stat raw = syscall (\<lambda>w. (bindE (real_path (w_fs w) raw) (metadata_of w), w))"

definition sys_lstat :: "string list \<Rightarrow> (errno, os_metadata) comp" where
  "sys_lstat raw = syscall (\<lambda>w. (bindE (real_path_no_follow (w_fs w) raw) (metadata_of w), w))"

definition node_content :: "tree \<Rightarrow> fpath \<Rightarrow> errno + bytes" where
  "node_content t p =
     (case hm_get t p of
        Some (NFile b) \<Rightarrow> Inr b
      | Some (NSpecial b) \<Rightarrow> Inr b
      | Some NDir \<Rightarrow> Inl EISDIR
      | _ \<Rightarrow> Inl ENOENT)"

definition sys_read :: "string list \<Rightarrow> (errno, bytes) comp" where
  "sys_read raw = syscall (\<lambda>w. (bindE (real_path (w_fs w) raw) (node_content (w_fs w)), w))"

definition children :: "tree \<Rightarrow> fpath \<Rightarrow> string list" where
  "children t p = map last (filter (\<lambda>q. q \<noteq> [] \<and> butlast q = p) (map fst t))"

definition sys_read_dir :: "string list \<Rightarrow> (errno, string list) comp" where
  "sys_read_dir raw = syscall (\<lambda>w.
     (bindE (real_path (w_fs w) raw) (\<lambda>p.
        if is_dir_node (w_fs w) p then Inr (children (w_fs w) p) else Inl ENOTDIR), w))"

text \<open>A call that only reports success or failure: \<open>fsync\<close>, opening a directory, the next entry.\<close>

definition sys_touch :: "(errno, unit) comp" where
  "sys_touch = syscall (\<lambda>w. (Inr (), w))"

definition tree_call :: "(tree \<Rightarrow> errno + tree) \<Rightarrow> (errno, unit) comp" where
  "tree_call f = syscall (\<lambda>w.
     (case f (w_fs w) of Inl e \<Rightarrow> (Inl e, w) | Inr t \<Rightarrow> (Inr (), set_tree t w)))"

definition t_create :: "node \<Rightarrow> string list \<Rightarrow> tree \<Rightarrow> errno + tree" where
  "t_create n raw t =
     (case entry_path t raw of
        Inl EBUSY \<Rightarrow> Inl EEXIST
      | Inl EINVAL \<Rightarrow> Inl EEXIST
      | Inl ENOTEMPTY \<Rightarrow> Inl EEXIST
      | Inl e \<Rightarrow> Inl e
      | Inr p \<Rightarrow> if hm_get t p \<noteq> None then Inl EEXIST else Inr (hm_insert p n t))"

definition sys_mkdir :: "string list \<Rightarrow> (errno, unit) comp" where
  "sys_mkdir raw = tree_call (t_create NDir raw)"

definition sys_create_new :: "string list \<Rightarrow> (errno, unit) comp" where
  "sys_create_new raw = tree_call (t_create (NFile []) raw)"

text \<open>
  \<open>write_all\<close> on the open file at a canonical path.  A failing write may leave any prefix of the
  data behind; a successful one passes through such a state.
\<close>

definition sys_write_all :: "fpath \<Rightarrow> bytes \<Rightarrow> (errno, unit) comp" where
  "sys_write_all p data w =
     (let k = w_partial w (w_sys w);
          w1 = set_tree (hm_insert p (NFile (take k data)) (w_fs w)) (w\<lparr> w_sys := Suc (w_sys w) \<rparr>)
      in case w_fault w (w_sys w) of
           Some f \<Rightarrow> (Inl (fault_errno f), w1)
         | None \<Rightarrow> (Inr (), set_tree (hm_insert p (NFile data) (w_fs w1)) w1))"

definition is_empty_dir :: "tree \<Rightarrow> fpath \<Rightarrow> bool" where
  "is_empty_dir t p \<longleftrightarrow> children t p = []"

definition t_unlink :: "string list \<Rightarrow> tree \<Rightarrow> errno + tree" where
  "t_unlink raw t = bindE (entry_path t raw) (\<lambda>p.
     case hm_get t p of
       None \<Rightarrow> Inl ENOENT
     | Some NDir \<Rightarrow> Inl EISDIR
     | Some _ \<Rightarrow> Inr (hm_remove p t))"

definition t_rmdir :: "string list \<Rightarrow> tree \<Rightarrow> errno + tree" where
  "t_rmdir raw t = bindE (entry_path t raw) (\<lambda>p.
     case hm_get t p of
       None \<Rightarrow> Inl ENOENT
     | Some NDir \<Rightarrow> if is_empty_dir t p then Inr (hm_remove p t) else Inl ENOTEMPTY
     | Some _ \<Rightarrow> Inl ENOTDIR)"

definition sys_unlink :: "string list \<Rightarrow> (errno, unit) comp" where
  "sys_unlink raw = tree_call (t_unlink raw)"

definition sys_rmdir :: "string list \<Rightarrow> (errno, unit) comp" where
  "sys_rmdir raw = tree_call (t_rmdir raw)"

text \<open>Moving an entry moves everything below it.\<close>

definition move_tree :: "fpath \<Rightarrow> fpath \<Rightarrow> tree \<Rightarrow> tree" where
  "move_tree src dst t =
     map (\<lambda>(p, n). (if prefix src p then dst @ drop (length src) p else p, n))
       (filter (\<lambda>(p, n). \<not> prefix dst p) t)"

definition t_rename :: "bool \<Rightarrow> string list \<Rightarrow> string list \<Rightarrow> tree \<Rightarrow> errno + tree" where
  "t_rename noreplace src dst t =
     bindE (entry_path t src) (\<lambda>s.
     bindE (entry_path t dst) (\<lambda>d.
     case hm_get t s of
       None \<Rightarrow> Inl ENOENT
     | Some n \<Rightarrow>
         if noreplace \<and> hm_get t d \<noteq> None then Inl EEXIST
         else if s = d then Inr t
         else if prefix s d then Inl EINVAL
         else (case hm_get t d of
                 None \<Rightarrow> Inr (move_tree s d t)
               | Some NDir \<Rightarrow>
                   if n \<noteq> NDir then Inl EISDIR
                   else if is_empty_dir t d then Inr (move_tree s d t)
                   else Inl ENOTEMPTY
               | Some _ \<Rightarrow> if n = NDir then Inl ENOTDIR else Inr (move_tree s d t))))"

definition sys_rename :: "string list \<Rightarrow> string list \<Rightarrow> (errno, unit) comp" where
  "sys_rename src dst = tree_call (t_rename False src dst)"

definition sys_renameat2_noreplace :: "string list \<Rightarrow> string list \<Rightarrow> (errno, unit) comp" where
  "sys_renameat2_noreplace src dst = tree_call (t_rename True src dst)"

end
