(* ===== verification/OsFsFacts.thy ===== *)
theory OsFsFacts
  imports OsFs
begin

text \<open>
  Facts about the file system of \<open>OsFs\<close>: the tree invariant and its preservation by every call,
  path resolution on canonical paths, and which calls leave which paths alone.
\<close>

section \<open>The tree invariant\<close>

definition wf_entry :: "tree \<Rightarrow> fpath \<Rightarrow> bool" where
  "wf_entry t q \<longleftrightarrow> q = [] \<or> (is_dir_node t (butlast q) \<and> normal_name (last q))"

definition wf_tree :: "tree \<Rightarrow> bool" where
  "wf_tree t \<longleftrightarrow> hm_ok t \<and> is_dir_node t [] \<and> list_all (\<lambda>(q, n). wf_entry t q) t"

lemma is_dir_node_iff: "is_dir_node t p \<longleftrightarrow> hm_get t p = Some NDir"
  by (auto simp: is_dir_node_def split: option.splits node.splits)

lemma wf_treeI:
  assumes "hm_ok t" and "is_dir_node t []"
    and "\<And>p c. hm_get t (p @ [c]) \<noteq> None \<Longrightarrow> is_dir_node t p \<and> normal_name c"
  shows "wf_tree t"
proof -
  have "wf_entry t q" if "(q, n) \<in> set t" for q n
  proof (cases q rule: rev_cases)
    case (snoc p c)
    with that assms(1) have "hm_get t (p @ [c]) \<noteq> None" by (simp add: hm_in_set_get)
    from assms(3) [OF this] show ?thesis by (simp add: wf_entry_def snoc)
  qed (simp add: wf_entry_def)
  then show ?thesis using assms(1,2) by (auto simp: wf_tree_def list_all_iff)
qed

lemma wf_tree_ok: "wf_tree t \<Longrightarrow> hm_ok t"
  by (simp add: wf_tree_def)

lemma wf_tree_root: "wf_tree t \<Longrightarrow> is_dir_node t []"
  by (simp add: wf_tree_def)

lemma wf_tree_parent:
  assumes "wf_tree t" and "hm_get t (p @ [c]) = Some n"
  shows "is_dir_node t p" and "normal_name c"
proof -
  have "(p @ [c], n) \<in> set t" using assms by (simp add: hm_in_set_get wf_tree_ok)
  then have "wf_entry t (p @ [c])" using assms(1) by (fastforce simp: wf_tree_def list_all_iff)
  then show "is_dir_node t p" "normal_name c" by (simp_all add: wf_entry_def)
qed

lemma wf_tree_prefix:
  assumes "wf_tree t" and "hm_get t (p @ q) = Some n" and "q \<noteq> []"
  shows "is_dir_node t p"
  using assms(2,3)
proof (induction q arbitrary: n rule: rev_induct)
  case (snoc c q)
  then have dir: "is_dir_node t (p @ q)"
    using wf_tree_parent(1) [OF assms(1), of "p @ q" c n] by simp
  show ?case
  proof (cases "q = []")
    case False
    with snoc.IH dir show ?thesis by (simp add: is_dir_node_iff)
  qed (use dir in simp)
qed simp

lemma wf_tree_names:
  "wf_tree t \<Longrightarrow> hm_get t p = Some n \<Longrightarrow> c \<in> set p \<Longrightarrow> normal_name c"
proof (induction p arbitrary: n rule: rev_induct)
  case (snoc d p)
  then show ?case using wf_tree_parent [OF snoc.prems(1,2)] by (auto simp: is_dir_node_iff)
qed simp

lemma wf_tree_below_file:
  assumes "wf_tree t" and "\<not> is_dir_node t p" and "q \<noteq> []"
  shows "hm_get t (p @ q) = None"
  using assms wf_tree_prefix by (cases "hm_get t (p @ q)") auto

section \<open>Resolution of canonical paths\<close>

definition is_symlink_node :: "tree \<Rightarrow> fpath \<Rightarrow> bool" where
  "is_symlink_node t p \<longleftrightarrow> (case hm_get t p of Some (NSymlink _) \<Rightarrow> True | _ \<Rightarrow> False)"

lemma walk_along:
  assumes "wf_tree t" and "hm_get t (cur @ todo) = Some n" and "\<not> (\<exists>s. n = NSymlink s) \<or> \<not> follow"
  shows "walk t b follow cur todo = Inr (cur @ todo)"
  using assms(2)
proof (induction todo arbitrary: cur)
  case (Cons c rest)
  have dir: "is_dir_node t cur"
    using wf_tree_prefix [OF assms(1) Cons.prems] by simp
  have c: "normal_name c"
    using wf_tree_names [OF assms(1) Cons.prems] by simp
  show ?case
  proof (cases "rest = []")
    case True
    then show ?thesis using Cons.prems dir c assms(3)
      by (cases n) (auto simp: normal_name_def)
  next
    case False
    have "is_dir_node t (cur @ [c])"
      using wf_tree_prefix [OF assms(1), of "cur @ [c]" rest n] Cons.prems False by simp
    then show ?thesis using Cons.IH [of "cur @ [c]"] Cons.prems dir c
      by (simp add: is_dir_node_iff normal_name_def)
  qed
qed simp

lemma walk_through_dir:
  assumes "wf_tree t" and "is_dir_node t (cur @ d)"
  shows "walk t b follow cur (d @ todo) = walk t b follow (cur @ d) todo"
  using assms(2)
proof (induction d arbitrary: cur)
  case (Cons c d)
  have "is_dir_node t cur" "is_dir_node t (cur @ [c])"
    using wf_tree_prefix [OF assms(1), of cur "c # d"] Cons.prems
      wf_tree_prefix [OF assms(1), of "cur @ [c]" d] by (cases "d = []"; simp add: is_dir_node_iff)+
  moreover have "normal_name c"
    using wf_tree_names [OF assms(1), of "cur @ c # d"] Cons.prems by (simp add: is_dir_node_iff)
  ultimately show ?case using Cons.IH [of "cur @ [c]"] Cons.prems
    by (simp add: is_dir_node_iff normal_name_def)
qed simp

lemma real_path_canonical:
  "wf_tree t \<Longrightarrow> hm_get t p = Some n \<Longrightarrow> \<not> (\<exists>s. n = NSymlink s) \<Longrightarrow> real_path t p = Inr p"
  using walk_along [of t "[]" p n True] by (simp add: real_path_def)

lemma real_path_no_follow_canonical:
  "wf_tree t \<Longrightarrow> hm_get t p = Some n \<Longrightarrow> real_path_no_follow t p = Inr p"
  using walk_along [of t "[]" p n False] by (simp add: real_path_no_follow_def)

definition walk_end :: "tree \<Rightarrow> bool \<Rightarrow> fpath \<Rightarrow> bool" where
  "walk_end t follow p \<longleftrightarrow> hm_get t p \<noteq> None \<and> (follow \<longrightarrow> \<not> is_symlink_node t p)"

lemma walk_end_dir: "is_dir_node t p \<Longrightarrow> walk_end t f p"
  by (simp add: walk_end_def is_dir_node_iff is_symlink_node_def)

lemma wf_tree_butlast: "wf_tree t \<Longrightarrow> is_dir_node t p \<Longrightarrow> is_dir_node t (butlast p)"
  by (cases p rule: rev_cases) (auto simp: wf_tree_root is_dir_node_iff dest: wf_tree_parent(1))

lemma walk_result:
  assumes "wf_tree t" and "walk t b follow cur todo = Inr p" and "walk_end t follow cur"
  shows "walk_end t follow p"
  using assms
proof (induction t b follow cur todo rule: walk.induct)
  case (2 t b follow cur c rest)
  have dir: "is_dir_node t cur" using "2.prems"(2) by (simp split: if_splits)
  consider "c = ''.''" | "c = ''..''" | "c \<noteq> ''.''" "c \<noteq> ''..''" by blast
  then show ?case
  proof cases
    case 1
    then show ?thesis using "2.IH"(1) "2.prems" dir by simp
  next
    case 2
    then show ?thesis using "2.IH"(2) "2.prems" dir walk_end_dir wf_tree_butlast by simp
  next
    case 3
    note IH = "2.IH"(3,4,5,6)
    show ?thesis
    proof (cases "hm_get t (cur @ [c])")
      case None
      then show ?thesis using "2.prems"(2) 3 dir by simp
    next
      case (Some n)
      show ?thesis
      proof (cases "\<exists>target. n = NSymlink target")
        case False
        then have "walk t b follow (cur @ [c]) rest = Inr p"
          using "2.prems"(2) 3 dir Some by (cases n) auto
        moreover have "walk_end t follow (cur @ [c])"
          using Some False by (auto simp: walk_end_def is_symlink_node_def split: node.splits)
        ultimately show ?thesis using IH "2.prems"(1) 3 dir Some False by (cases n) auto
      next
        case True
        then obtain target where n: "n = NSymlink target" by blast
        show ?thesis
        proof (cases "rest = [] \<and> \<not> follow")
          case True
          then show ?thesis using "2.prems"(2) 3 dir Some n by (auto simp: walk_end_def)
        next
          case False
          then obtain b' where b: "b = Suc b'" and tgt: "target \<noteq> []"
            and run: "walk t b' follow (if prefix [slash] target then [] else cur)
              (split_path target @ rest) = Inr p"
            using "2.prems"(2) 3 dir Some n by (auto split: if_splits nat.splits)
          have "walk_end t follow (if prefix [slash] target then [] else cur)"
            using wf_tree_root [OF "2.prems"(1)] dir walk_end_dir by simp
          then show ?thesis using IH "2.prems"(1) 3 dir Some n b tgt False run by auto
        qed
      qed
    qed
  qed
qed simp

lemma real_path_result: "wf_tree t \<Longrightarrow> real_path t raw = Inr p \<Longrightarrow> walk_end t True p"
  unfolding real_path_def using walk_result walk_end_dir [OF wf_tree_root] by blast

lemma real_path_no_follow_result:
  "wf_tree t \<Longrightarrow> real_path_no_follow t raw = Inr p \<Longrightarrow> walk_end t False p"
  unfolding real_path_no_follow_def using walk_result walk_end_dir [OF wf_tree_root] by blast

lemma real_path_fixed: "wf_tree t \<Longrightarrow> walk_end t True p \<Longrightarrow> real_path t p = Inr p"
  by (auto simp: walk_end_def is_symlink_node_def intro!: real_path_canonical split: option.splits)

lemma real_path_idem: "wf_tree t \<Longrightarrow> real_path t raw = Inr p \<Longrightarrow> real_path t p = Inr p"
  using real_path_result real_path_fixed by blast

text \<open>An entry in a real directory is reached only as itself, or through a final symbolic link.\<close>

lemma real_path_entry:
  assumes "wf_tree t" and "is_dir_node t d" and "normal_name c"
  shows "real_path t (d @ [c]) =
    (case hm_get t (d @ [c]) of
       None \<Rightarrow> Inl ENOENT
     | Some (NSymlink s) \<Rightarrow> walk t SYMLINK_LIMIT True d [c]
     | Some _ \<Rightarrow> Inr (d @ [c]))"
  using walk_through_dir [OF assms(1), of "[]" d SYMLINK_LIMIT True "[c]"] assms(2,3)
  by (auto simp: real_path_def normal_name_def is_dir_node_iff split: option.splits node.splits)

lemma entry_path_real:
  assumes "wf_tree t" and "is_dir_node t d" and "normal_name c"
  shows "entry_path t (d @ [c]) = Inr (d @ [c])"
proof -
  have "real_path t d = Inr d"
    using assms(1,2) real_path_fixed walk_end_dir by blast
  then show ?thesis using assms(2,3) by (simp add: entry_path_def normal_name_def)
qed

lemma entry_path_Inr:
  assumes "wf_tree t" and "entry_path t raw = Inr p"
  shows "\<exists>d. p = d @ [last raw] \<and> is_dir_node t d \<and> real_path t (butlast raw) = Inr d"
  using assms by (auto simp: entry_path_def bindE_Inr_iff split: if_splits)

section \<open>Updates keep the invariant\<close>

lemma wf_tree_insert:
  assumes "wf_tree t" and "is_dir_node t d" and "normal_name c"
    and "\<not> is_dir_node t (d @ [c])"
  shows "wf_tree (hm_insert (d @ [c]) n t)"
proof (rule wf_treeI)
  show "hm_ok (hm_insert (d @ [c]) n t)" using assms(1) by (simp add: wf_tree_ok)
  show "is_dir_node (hm_insert (d @ [c]) n t) []"
    using assms(1) wf_tree_root by (simp add: is_dir_node_iff)
  fix p c'
  assume ex: "hm_get (hm_insert (d @ [c]) n t) (p @ [c']) \<noteq> None"
  have keep: "is_dir_node (hm_insert (d @ [c]) n t) q" if "is_dir_node t q" for q
    using that assms(4) by (auto simp: is_dir_node_iff)
  show "is_dir_node (hm_insert (d @ [c]) n t) p \<and> normal_name c'"
  proof (cases "p = d \<and> c' = c")
    case True
    then show ?thesis using keep [OF assms(2)] assms(3) by simp
  next
    case False
    then obtain m where "hm_get t (p @ [c']) = Some m" using ex by auto
    from wf_tree_parent [OF assms(1) this] show ?thesis using keep by blast
  qed
qed

lemma children_iff: "c \<in> set (children t p) \<longleftrightarrow> hm_get t (p @ [c]) \<noteq> None"
proof -
  have snoc: "(q \<noteq> [] \<and> butlast q = p \<and> last q = c) \<longleftrightarrow> q = p @ [c]" for q :: fpath
    by (cases q rule: rev_cases) auto
  have "c \<in> set (children t p) \<longleftrightarrow> (\<exists>q \<in> hm_keys t. q \<noteq> [] \<and> butlast q = p \<and> last q = c)"
    by (force simp: children_def hm_keys_def)
  also have "\<dots> \<longleftrightarrow> p @ [c] \<in> hm_keys t" unfolding snoc by blast
  finally show ?thesis by (simp add: hm_keys_conv)
qed

lemma is_empty_dir_iff: "is_empty_dir t p \<longleftrightarrow> (\<forall>c. hm_get t (p @ [c]) = None)"
proof -
  have "children t p = [] \<longleftrightarrow> (\<forall>c. c \<notin> set (children t p))"
    by (cases "children t p") auto
  then show ?thesis by (simp add: is_empty_dir_def children_iff)
qed

lemma wf_tree_remove:
  assumes "wf_tree t" and "p \<noteq> []" and "\<not> is_dir_node t p \<or> is_empty_dir t p"
  shows "wf_tree (hm_remove p t)"
proof (rule wf_treeI)
  show "hm_ok (hm_remove p t)" using assms(1) by (simp add: wf_tree_ok)
  show "is_dir_node (hm_remove p t) []"
    using assms(1,2) wf_tree_root by (simp add: is_dir_node_iff)
  fix q c
  assume "hm_get (hm_remove p t) (q @ [c]) \<noteq> None"
  then obtain m where m: "hm_get t (q @ [c]) = Some m" and ne: "q @ [c] \<noteq> p"
    by (auto split: if_splits)
  note par = wf_tree_parent [OF assms(1) m]
  have "q \<noteq> p" using m par assms(3) by (auto simp: is_empty_dir_iff)
  then show "is_dir_node (hm_remove p t) q \<and> normal_name c"
    using par by (simp add: is_dir_node_iff)
qed

section \<open>Moving a subtree\<close>

definition moved_key :: "fpath \<Rightarrow> fpath \<Rightarrow> fpath \<Rightarrow> fpath" where
  "moved_key src dst p = (if prefix src p then dst @ drop (length src) p else p)"

lemma moved_key_inj: "inj_on (moved_key src dst) {p. \<not> prefix dst p}"
  by (rule inj_onI) (auto simp: moved_key_def prefix_def split: if_splits)

lemma move_tree_alt:
  "move_tree src dst t =
     map (\<lambda>(p, n). (moved_key src dst p, n)) (filter (\<lambda>(p, n). \<not> prefix dst p) t)"
  by (simp add: move_tree_def moved_key_def)

lemma move_tree_ok:
  assumes "hm_ok t"
  shows "hm_ok (move_tree src dst t)"
proof -
  let ?f = "filter (\<lambda>(p, n). \<not> prefix dst p) t"
  have keys: "map fst (move_tree src dst t) = map (moved_key src dst) (map fst ?f)"
    by (auto simp: move_tree_alt)
  have "distinct (map fst ?f)" using assms by (simp add: hm_ok_def distinct_map_filter)
  moreover have "inj_on (moved_key src dst) (set (map fst ?f))"
    by (rule inj_on_subset [OF moved_key_inj]) auto
  ultimately show ?thesis unfolding hm_ok_def keys distinct_map [of "moved_key src dst"] by blast
qed

lemma move_tree_get_disjoint:
  assumes ok: "hm_ok t" and disj: "\<not> prefix dst src" "\<not> prefix src dst"
  shows "hm_get (move_tree src dst t) q =
    (if prefix dst q then hm_get t (src @ drop (length dst) q)
     else if prefix src q then None else hm_get t q)" (is "_ = ?rhs")
proof -
  have apart: "\<not> prefix dst (src @ r)" for r
    using disj by (metis prefixI prefix_same_cases)
  have mem: "(q, n) \<in> set (move_tree src dst t) \<longleftrightarrow>
      (\<exists>p. moved_key src dst p = q \<and> \<not> prefix dst p \<and> hm_get t p = Some n)" for n
    unfolding hm_in_set_get [OF ok, symmetric] by (force simp: move_tree_alt)
  have "(\<exists>p. moved_key src dst p = q \<and> \<not> prefix dst p \<and> hm_get t p = Some n) \<longleftrightarrow> ?rhs = Some n" for n
  proof (cases "prefix dst q")
    case True
    then obtain r where q: "q = dst @ r" by (auto simp: prefix_def)
    have "moved_key src dst (src @ r) = q" by (simp add: moved_key_def q)
    moreover have "p = src @ r" if "moved_key src dst p = q" "\<not> prefix dst p" for p
    proof (cases "prefix src p")
      case True
      then obtain r' where "p = src @ r'" by (auto simp: prefix_def)
      then show ?thesis using that(1) by (simp add: moved_key_def q)
    qed (use that in \<open>simp add: moved_key_def q\<close>)
    ultimately have "(\<exists>p. moved_key src dst p = q \<and> \<not> prefix dst p \<and> hm_get t p = Some n)
        \<longleftrightarrow> hm_get t (src @ r) = Some n"
      using apart by blast
    then show ?thesis by (simp add: q)
  next
    case False
    then have "moved_key src dst p = q \<longleftrightarrow> \<not> prefix src p \<and> p = q" for p
      by (auto simp: moved_key_def)
    then show ?thesis using False by auto
  qed
  then have "hm_get (move_tree src dst t) q = Some n \<longleftrightarrow> ?rhs = Some n" for n
    unfolding hm_in_set_get [OF move_tree_ok [OF ok], symmetric] mem by blast
  then show ?thesis by (metis not_None_eq)
qed

lemma wf_tree_move:
  assumes wf: "wf_tree t" and src: "src \<noteq> []"
    and par: "is_dir_node t d" and name: "normal_name c"
    and disj: "\<not> prefix (d @ [c]) src" "\<not> prefix src (d @ [c])"
  shows "wf_tree (move_tree src (d @ [c]) t)"
proof (rule wf_treeI)
  let ?dst = "d @ [c]" and ?t = "move_tree src (d @ [c]) t"
  note get = move_tree_get_disjoint [OF wf_tree_ok [OF wf] disj]
  show "hm_ok ?t" using move_tree_ok [OF wf_tree_ok [OF wf]] .
  show "is_dir_node ?t []" using src wf_tree_root [OF wf] by (simp add: is_dir_node_iff get)
  fix p b
  assume ex: "hm_get ?t (p @ [b]) \<noteq> None"
  show "is_dir_node ?t p \<and> normal_name b"
  proof (cases "prefix ?dst (p @ [b])")
    case True
    show ?thesis
    proof (cases "p @ [b] = ?dst")
      case True
      have "\<not> prefix ?dst d" by (auto simp: prefix_def)
      moreover have "\<not> prefix src d" using disj(2) by (auto simp: prefix_def)
      ultimately show ?thesis using True par name by (simp add: is_dir_node_iff get)
    next
      case False
      then have pre: "prefix ?dst p" using True by (auto simp: prefix_snoc)
      then have "hm_get t ((src @ drop (length ?dst) p) @ [b]) \<noteq> None"
        using ex True by (auto simp: get prefix_def)
      then obtain m where "hm_get t ((src @ drop (length ?dst) p) @ [b]) = Some m" by blast
      from wf_tree_parent [OF wf this] show ?thesis using pre by (simp add: is_dir_node_iff get)
    qed
  next
    case False
    then obtain m where m: "hm_get t (p @ [b]) = Some m" and ns: "\<not> prefix src (p @ [b])"
      using ex by (auto simp: get split: if_splits)
    have "\<not> prefix ?dst p" "\<not> prefix src p" using False ns by (auto simp: prefix_def)
    then show ?thesis using wf_tree_parent [OF wf m] by (simp add: is_dir_node_iff get)
  qed
qed

lemma t_unlink_Inr:
  "t_unlink raw t = Inr t' \<longleftrightarrow>
     (\<exists>p n. entry_path t raw = Inr p \<and> hm_get t p = Some n \<and> n \<noteq> NDir \<and> t' = hm_remove p t)"
proof -
  have "(case hm_get t p of None \<Rightarrow> Inl ENOENT | Some NDir \<Rightarrow> Inl EISDIR
          | Some _ \<Rightarrow> Inr (hm_remove p t)) = Inr t' \<longleftrightarrow>
        (\<exists>n. hm_get t p = Some n \<and> n \<noteq> NDir \<and> t' = hm_remove p t)" for p
  proof (cases "hm_get t p")
    case (Some n)
    then show ?thesis by (cases n) auto
  qed simp
  then show ?thesis by (auto simp: t_unlink_def bindE_Inr_iff)
qed

lemma t_rmdir_Inr:
  "t_rmdir raw t = Inr t' \<longleftrightarrow>
     (\<exists>p. entry_path t raw = Inr p \<and> is_dir_node t p \<and> is_empty_dir t p \<and> t' = hm_remove p t)"
proof -
  have "(case hm_get t p of None \<Rightarrow> Inl ENOENT
          | Some NDir \<Rightarrow> if is_empty_dir t p then Inr (hm_remove p t) else Inl ENOTEMPTY
          | Some _ \<Rightarrow> Inl ENOTDIR) = Inr t' \<longleftrightarrow>
        is_dir_node t p \<and> is_empty_dir t p \<and> t' = hm_remove p t" for p
  proof (cases "hm_get t p")
    case (Some n)
    then show ?thesis by (cases n) (auto simp: is_dir_node_iff)
  qed (simp add: is_dir_node_iff)
  then show ?thesis by (auto simp: t_rmdir_def bindE_Inr_iff)
qed

lemma t_create_Inr:
  "t_create n raw t = Inr t' \<longleftrightarrow>
     (\<exists>p. entry_path t raw = Inr p \<and> hm_get t p = None \<and> t' = hm_insert p n t)"
proof (cases "entry_path t raw")
  case (Inl e)
  then show ?thesis by (cases e) (simp_all add: t_create_def)
qed (auto simp: t_create_def)

definition rename_allowed :: "bool \<Rightarrow> tree \<Rightarrow> fpath \<Rightarrow> fpath \<Rightarrow> bool" where
  "rename_allowed noreplace t s d \<longleftrightarrow>
     (\<exists>n. hm_get t s = Some n \<and> \<not> prefix s d \<and>
        (hm_get t d = None \<or>
         \<not> noreplace \<and> (if n = NDir then is_dir_node t d \<and> is_empty_dir t d
                        else \<not> is_dir_node t d)))"

lemma t_rename_Inr:
  "t_rename noreplace src dst t = Inr t' \<longleftrightarrow>
     (\<exists>s d. entry_path t src = Inr s \<and> entry_path t dst = Inr d \<and>
        (s = d \<and> hm_get t s \<noteq> None \<and> \<not> noreplace \<and> t' = t \<or>
         s \<noteq> d \<and> rename_allowed noreplace t s d \<and> t' = move_tree s d t))"
proof -
  have "(case hm_get t s of
       None \<Rightarrow> Inl ENOENT
     | Some n \<Rightarrow>
         if noreplace \<and> hm_get t d \<noteq> None then Inl EEXIST
         else if s = d then Inr t
         else if prefix s d then Inl EINVAL
         else (case hm_get t d of
                 None \<Rightarrow> Inr (move_tree s d t)
               | Some NDir \<Rightarrow>
                   if n \<noteq> NDir then Inl EISDIR
                   else if is_empty_dir t d then Inr (move_tree s d t)
                   else Inl ENOTEMPTY
               | Some _ \<Rightarrow> if n = NDir then Inl ENOTDIR else Inr (move_tree s d t))) = Inr t' \<longleftrightarrow>
      (s = d \<and> hm_get t s \<noteq> None \<and> \<not> noreplace \<and> t' = t \<or>
         s \<noteq> d \<and> rename_allowed noreplace t s d \<and> t' = move_tree s d t)" for s d
  proof (cases "hm_get t s")
    case (Some n)
    show ?thesis
    proof (cases "hm_get t d")
      case None
      with Some show ?thesis by (auto simp: rename_allowed_def)
    next
      case (Some m)
      with \<open>hm_get t s = Some n\<close> show ?thesis
        by (cases m) (auto simp: rename_allowed_def is_dir_node_iff)
    qed
  qed (auto simp: rename_allowed_def)
  then show ?thesis by (auto simp: t_rename_def bindE_Inr_iff)
qed

lemma rename_allowed_disjoint:
  assumes "wf_tree t" and "rename_allowed b t s d" and "s \<noteq> d"
  shows "\<not> prefix d s" and "\<not> prefix s d"
proof -
  obtain n where n: "hm_get t s = Some n" and ns: "\<not> prefix s d"
    and dst: "\<not> is_dir_node t d \<or> is_empty_dir t d"
    using assms(2) by (auto simp: rename_allowed_def is_dir_node_iff split: if_splits)
  show "\<not> prefix s d" by (rule ns)
  show "\<not> prefix d s"
  proof
    assume "prefix d s"
    then obtain c r where s: "s = d @ c # r" using assms(3) by (metis prefix_def append_Nil2 list.exhaust)
    have "is_dir_node t d" using wf_tree_prefix [OF assms(1), of d "c # r" n] n s by simp
    moreover have "hm_get t (d @ [c]) \<noteq> None"
      using wf_tree_prefix [OF assms(1), of "d @ [c]" r n] n s by (cases r) (auto simp: is_dir_node_iff)
    ultimately show False using dst by (auto simp: is_empty_dir_iff)
  qed
qed

text \<open>The invariant is kept by every tree call, whatever paths it is given.\<close>

lemma entry_path_snoc:
  assumes "entry_path t raw = Inr p"
  obtains d where "p = d @ [last raw]" and "is_dir_node t d"
  using assms by (auto simp: entry_path_def bindE_Inr_iff split: if_splits)

lemma t_unlink_wf: "wf_tree t \<Longrightarrow> t_unlink raw t = Inr t' \<Longrightarrow> wf_tree t'"
  by (auto simp: t_unlink_Inr is_dir_node_iff elim!: entry_path_snoc intro!: wf_tree_remove)

lemma t_rmdir_wf: "wf_tree t \<Longrightarrow> t_rmdir raw t = Inr t' \<Longrightarrow> wf_tree t'"
  by (auto simp: t_rmdir_Inr elim!: entry_path_snoc intro!: wf_tree_remove)

lemma t_create_wf:
  "wf_tree t \<Longrightarrow> t_create n raw t = Inr t' \<Longrightarrow> normal_name (last raw) \<Longrightarrow> wf_tree t'"
  by (auto simp: t_create_Inr is_dir_node_iff elim!: entry_path_snoc intro!: wf_tree_insert)

lemma t_rename_wf:
  assumes "wf_tree t" and "t_rename b src dst t = Inr t'" and "normal_name (last dst)"
  shows "wf_tree t'"
proof -
  obtain s d where s: "entry_path t src = Inr s" and d: "entry_path t dst = Inr d"
    and alt: "t' = t \<or> s \<noteq> d \<and> rename_allowed b t s d \<and> t' = move_tree s d t"
    using assms(2) by (auto simp: t_rename_Inr)
  obtain e where e: "d = e @ [last dst]" "is_dir_node t e" using d by (rule entry_path_snoc)
  have "s \<noteq> []" using s by (auto elim: entry_path_snoc)
  then show ?thesis
    using alt assms(1,3) e rename_allowed_disjoint [OF assms(1)] wf_tree_move by metis
qed

section \<open>Resolution in two stages\<close>

lemma walk_append:
  assumes "walk t b True cur xs = Inr p"
  shows "\<exists>b' \<le> b. \<forall>ys f. ys \<noteq> [] \<or> f \<longrightarrow> walk t b f cur (xs @ ys) = walk t b' f p ys"
  using assms
proof (induction t b "True" cur xs rule: walk.induct)
  case (1 t budget cur)
  then show ?case by auto
next
  case (2 t b cur c rest)
  have dir: "is_dir_node t cur" using "2.prems" by (simp split: if_splits)
  consider "c = ''.''" | "c = ''..''" | "c \<noteq> ''.''" "c \<noteq> ''..''" by blast
  then show ?case
  proof cases
    case 1
    then show ?thesis using "2.hyps"(1) "2.prems" dir by simp
  next
    case 2
    then show ?thesis using "2.hyps"(2) "2.prems" dir by simp
  next
    case 3
    note IH = "2.hyps"(3,4,5,6)
    obtain n where n: "hm_get t (cur @ [c]) = Some n"
      using "2.prems" 3 dir by (cases "hm_get t (cur @ [c])") auto
    show ?thesis
    proof (cases "\<exists>target. n = NSymlink target")
      case False
      then have "walk t b True (cur @ [c]) rest = Inr p"
        using "2.prems" 3 dir n by (cases n) auto
      then show ?thesis using IH 3 dir n False by (cases n) auto
    next
      case True
      then obtain target b' where target: "n = NSymlink target" "b = Suc b'" "target \<noteq> []"
        and run: "walk t b' True (if prefix [slash] target then [] else cur)
          (split_path target @ rest) = Inr p"
        using "2.prems" 3 dir n by (auto split: if_splits nat.splits)
      then obtain b'' where "b'' \<le> b'"
        and app: "\<forall>ys f. ys \<noteq> [] \<or> f \<longrightarrow>
          walk t b' f (if prefix [slash] target then [] else cur) ((split_path target @ rest) @ ys)
            = walk t b'' f p ys"
        using IH(3) 3 dir n by blast
      then show ?thesis using 3 dir n target by (intro exI [of _ b'']) auto
    qed
  qed
qed

lemma walk_more_budget:
  assumes "walk t b f cur xs \<noteq> Inl ELOOP" and "b \<le> b'"
  shows "walk t b' f cur xs = walk t b f cur xs"
  using assms
proof (induction t b f cur xs arbitrary: b' rule: walk.induct)
  case (2 t b f cur c rest)
  consider "\<not> is_dir_node t cur" | "is_dir_node t cur" "c = ''.''"
    | "is_dir_node t cur" "c = ''..''" | "is_dir_node t cur" "c \<noteq> ''.''" "c \<noteq> ''..''" by blast
  then show ?case
  proof cases
    case 1
    then show ?thesis by simp
  next
    case 2
    then show ?thesis using "2.IH"(1) [of b'] "2.prems" by simp
  next
    case 3
    then show ?thesis using "2.IH"(2) [of b'] "2.prems" by simp
  next
    case 4
    show ?thesis
    proof (cases "hm_get t (cur @ [c])")
      case None
      then show ?thesis using 4 by simp
    next
      case (Some n)
      then show ?thesis
      proof (cases n)
        case (NSymlink target)
        show ?thesis
        proof (cases "rest = [] \<and> \<not> f \<or> target = []")
          case True
          then show ?thesis using 4 Some NSymlink by auto
        next
          case False
          obtain k where b: "b = Suc k"
            using "2.prems"(1) 4 Some NSymlink False by (cases b) auto
          obtain k' where b': "b' = Suc k'" "k \<le> k'"
            using "2.prems"(2) b by (cases b') auto
          let ?cur = "if prefix [slash] target then [] else cur"
          have eq: "walk t (Suc j) f cur (c # rest) = walk t j f ?cur (split_path target @ rest)" for j
            using 4 Some NSymlink False by auto
          have "walk t k' f ?cur (split_path target @ rest) = walk t k f ?cur (split_path target @ rest)"
            by (rule "2.IH"(5) [OF _ 4(2,3) Some NSymlink _ _ b])
              (use 4(1) False b'(2) "2.prems"(1) eq [of k] b in auto)
          then show ?thesis using eq b b' by simp
        qed
      next
        case (NFile x)
        then show ?thesis using "2.IH"(3) [OF _ 4(2,3) Some NFile _ "2.prems"(2)] 4 Some "2.prems"(1)
          by simp
      next
        case NDir
        then show ?thesis using "2.IH"(4) [OF _ 4(2,3) Some NDir _ "2.prems"(2)] 4 Some "2.prems"(1)
          by simp
      next
        case (NSpecial x)
        then show ?thesis using "2.IH"(6) [OF _ 4(2,3) Some NSpecial _ "2.prems"(2)] 4 Some "2.prems"(1)
          by simp
      qed
    qed
  qed
qed simp

lemma walk_dots:
  "set ds \<subseteq> {''.''} \<Longrightarrow> walk t b True p ds = (if ds = [] \<or> is_dir_node t p then Inr p else Inl ENOTDIR)"
  by (induction ds) auto

text \<open>
  When a path with last name \<open>c\<close> does not exist although its parent does, the entry \<open>c\<close> of the
  parent is missing or a dangling link: no path through it leads anywhere.
\<close>

lemma missing_leaf:
  assumes wf: "wf_tree t"
    and par: "real_path t par = Inr d"
    and gone: "real_path t (par @ ds @ [c] @ es) = Inl ENOENT"
    and dots: "set ds \<subseteq> {''.''}" "set es \<subseteq> {''.''}"
    and c: "normal_name c"
  shows "is_dir_node t d" and "real_path t (d @ [c]) \<noteq> Inr q"
proof -
  obtain b where b: "b \<le> SYMLINK_LIMIT" and app:
    "\<And>ys. walk t SYMLINK_LIMIT True [] (par @ ys) = walk t b True d ys"
    using walk_append [OF par [unfolded real_path_def]] by auto
  have w: "walk t b True d (ds @ [c] @ es) = Inl ENOENT"
    using gone app by (simp add: real_path_def)
  have dir: "is_dir_node t d"
  proof (rule ccontr)
    assume "\<not> is_dir_node t d"
    then have "walk t b True d (ds @ [c] @ es) = Inl ENOTDIR" by (cases ds) simp_all
    then show False using w by simp
  qed
  then show "is_dir_node t d" .
  have skip: "walk t b True d (ds @ ys) = walk t b True d ys" for ys
    using dots(1) by (induction ds) (simp_all add: dir)
  have "walk t b True d ([c] @ es) = Inl ENOENT" using w skip by simp
  then have w40: "walk t SYMLINK_LIMIT True d ([c] @ es) = Inl ENOENT"
    using walk_more_budget [OF _ b, of t True d "[c] @ es"] by simp
  have "walk t SYMLINK_LIMIT True d [c] \<noteq> Inr q"
  proof
    assume "walk t SYMLINK_LIMIT True d [c] = Inr q"
    from walk_append [OF this]
    obtain b' where "walk t SYMLINK_LIMIT True d ([c] @ es) = walk t b' True q es" by auto
    then show False using w40 walk_dots [OF dots(2)] by (auto split: if_splits)
  qed
  then show "real_path t (d @ [c]) \<noteq> Inr q"
    using walk_through_dir [OF wf, of "[]" d _ _ "[c]"] dir by (simp add: real_path_def)
qed

end
