(* ===== verification/Fs.thy ===== *)
theory Fs
  imports OsFs
begin

text \<open>
  \<open>are-daemon/src/fs.rs\<close>: the filesystem backend.  Every operation resolves the client's path
  against the allowed roots first; the definitions follow the functions branch by branch over the
  file system of \<open>OsFs\<close> (the Linux variant of \<open>rename_noreplace\<close>).  The digest \<open>blake3\<close> is the
  parameter \<open>blake3_hex\<close>; log lines are not modelled.
\<close>

section \<open>Errors and configuration\<close>

datatype fs_error =
    FInvalidPath string
  | FFilesystemEscape string
  | FNotFound string
  | FPermissionDenied string
  | FNotADirectory string
  | FIsADirectory string
  | FFileTooLarge string nat nat
  | FConflict string
  | FIo string

fun fs_error_display :: "fs_error \<Rightarrow> string" where
  "fs_error_display (FInvalidPath s) = ''invalid path: '' @ s"
| "fs_error_display (FFilesystemEscape s) = ''path escapes allowed boundary: '' @ s"
| "fs_error_display (FNotFound s) = ''not found: '' @ s"
| "fs_error_display (FPermissionDenied s) = ''permission denied: '' @ s"
| "fs_error_display (FNotADirectory s) = ''not a directory: '' @ s"
| "fs_error_display (FIsADirectory s) = ''is a directory: '' @ s"
| "fs_error_display (FFileTooLarge p sz limit) = ''file too large: '' @ nat_str sz
     @ '' bytes exceeds limit '' @ nat_str limit @ '' bytes ('' @ p @ '')''"
| "fs_error_display (FConflict s) = ''conflict: '' @ s"
| "fs_error_display (FIo s) = ''I/O error: '' @ s"

definition fs_error_from_io :: "errno \<Rightarrow> fs_error" where
  "fs_error_from_io e =
     (case errno_kind e of
        KNotFound \<Rightarrow> FNotFound (errno_display e)
      | KPermissionDenied \<Rightarrow> FPermissionDenied (errno_display e)
      | _ \<Rightarrow> FIo (errno_display e))"

definition io :: "(errno, 'a) comp \<Rightarrow> (fs_error, 'a) comp" where
  "io m = mapM_err fs_error_from_io m"

definition is_not_found :: "errno \<Rightarrow> bool" where
  "is_not_found e \<longleftrightarrow> errno_kind e = KNotFound"

record filesystem_config =
  fc_allowed_roots :: "fpath list"
  fc_max_file_bytes :: nat

definition DEFAULT_MAX_FILE_BYTES :: nat where
  "DEFAULT_MAX_FILE_BYTES = 16 * 1024 * 1024"

text \<open>A path given to the daemon, relative ones against its working directory \<open>cwd\<close>.\<close>

definition os_path :: "fpath \<Rightarrow> string \<Rightarrow> string list" where
  "os_path cwd s = (if prefix [slash] s then split_path s else cwd @ split_path s)"

definition canonicalize_str :: "fpath \<Rightarrow> string \<Rightarrow> (errno, fpath) comp" where
  "canonicalize_str cwd s =
     (if s = [] then syscall (\<lambda>w. (Inl ENOENT, w)) else sys_canonicalize (os_path cwd s))"

fun canonicalize_roots :: "fpath \<Rightarrow> string list \<Rightarrow> fpath list \<Rightarrow> (fs_error, fpath list) comp" where
  "canonicalize_roots cwd [] acc = okM acc"
| "canonicalize_roots cwd (root # roots) acc =
     bindM (mapM_err (\<lambda>e. FInvalidPath (''failed to canonicalize root '' @ quoted root @ '': ''
              @ errno_display e)) (canonicalize_str cwd root))
       (\<lambda>c. canonicalize_roots cwd roots (acc @ [c]))"

definition fs_config_with_max_file_bytes ::
  "fpath \<Rightarrow> string list \<Rightarrow> nat \<Rightarrow> (fs_error, filesystem_config) comp" where
  "fs_config_with_max_file_bytes cwd roots max_bytes =
     (if roots = [] then failM (FInvalidPath ''at least one allowed root must be configured'')
      else bindM (canonicalize_roots cwd roots []) (\<lambda>canonical.
             okM \<lparr> fc_allowed_roots = canonical, fc_max_file_bytes = max_bytes \<rparr>))"

definition fs_config_new :: "fpath \<Rightarrow> string list \<Rightarrow> (fs_error, filesystem_config) comp" where
  "fs_config_new cwd roots = fs_config_with_max_file_bytes cwd roots DEFAULT_MAX_FILE_BYTES"

section \<open>Path shape\<close>

definition check_path_shape :: "string \<Rightarrow> fs_error + unit" where
  "check_path_shape path =
     (if path = [] then Inl (FInvalidPath ''path must not be empty'')
      else if nul \<in> set path then Inl (FInvalidPath ''path must not contain NUL'')
      else if prefix [slash] path \<or> prefix [backslash] path
      then Inl (FInvalidPath (''absolute path rejected: '' @ path))
      else if 2 \<le> length path \<and> path ! 1 = CHR '':''
      then Inl (FInvalidPath (''absolute path rejected: '' @ path))
      else Inr ())"

section \<open>Resolution\<close>

datatype missing_parent = MPNotFound | MPEscape | MPError errno

fun tail_escapes :: "int \<Rightarrow> string list \<Rightarrow> bool" where
  "tail_escapes depth [] = False"
| "tail_escapes depth (c # cs) =
     (if c = ''..''
      then (if depth - 1 < 0 then True else tail_escapes (depth - 1) cs)
      else if c \<noteq> ''.'' then tail_escapes (depth + 1) cs
      else tail_escapes depth cs)"

lemma length_trim_dots: "length (trim_dots raw) \<le> length raw"
  using length_dropWhile_le [of "\<lambda>c. c = ''.''" "rev raw"] by (simp add: trim_dots_def)

lemma abs_parent_shorter: "abs_parent raw = Some p \<Longrightarrow> length p < length raw"
proof -
  assume "abs_parent raw = Some p"
  then have ne: "trim_dots raw \<noteq> []" and p: "p = trim_dots (butlast (trim_dots raw))"
    by (auto simp: abs_parent_def Let_def split: if_splits)
  have "length p \<le> length (butlast (trim_dots raw))" unfolding p by (rule length_trim_dots)
  also have "\<dots> < length (trim_dots raw)" using ne by simp
  also have "\<dots> \<le> length raw" by (rule length_trim_dots)
  finally show ?thesis .
qed

function classify_loop ::
  "fpath \<Rightarrow> string list \<Rightarrow> string list \<Rightarrow> world \<Rightarrow> missing_parent \<times> world" where
  "classify_loop root current missing_tail w =
     (case sys_canonicalize current w of
        (Inr canonical, w1) \<Rightarrow>
          if \<not> prefix root canonical then (MPEscape, w1)
          else if tail_escapes 0 (rev missing_tail) then (MPEscape, w1)
          else (MPNotFound, w1)
      | (Inl e, w1) \<Rightarrow>
          if is_not_found e
          then (case abs_file_name current of
                  None \<Rightarrow> (MPEscape, w1)
                | Some name \<Rightarrow>
                    (case abs_parent current of
                       None \<Rightarrow> (MPEscape, w1)
                     | Some parent \<Rightarrow> classify_loop root parent (missing_tail @ [name]) w1))
          else (MPError e, w1))"
  by pat_completeness auto
termination
  by (relation "measure (\<lambda>(root, current, tail, w). length current)")
    (auto dest: abs_parent_shorter)

declare classify_loop.simps [simp del]

definition classify_missing_parent :: "fpath \<Rightarrow> string list \<Rightarrow> world \<Rightarrow> missing_parent \<times> world" where
  "classify_missing_parent root joined w = classify_loop root joined [] w"

definition escape_error :: fs_error where
  "escape_error = FFilesystemEscape ''path escapes allowed boundary''"

text \<open>What \<open>resolve\<close> does for one root: settle the result, or go on to the next root.\<close>

datatype root_outcome = Settled "fs_error + fpath" | ParentMissing

definition resolve_missing_leaf :: "string \<Rightarrow> fpath \<Rightarrow> string list \<Rightarrow> world \<Rightarrow> root_outcome \<times> world" where
  "resolve_missing_leaf path root joined w =
     (case abs_parent joined of
        None \<Rightarrow> (Settled (Inl (FInvalidPath (''no parent directory in path: '' @ path))), w)
      | Some parent \<Rightarrow>
          (case sys_canonicalize parent w of
             (Inr canonical_parent, w1) \<Rightarrow>
               if prefix root canonical_parent
               then (case abs_file_name joined of
                       None \<Rightarrow> (Settled (Inl (FInvalidPath (''no file name in path: '' @ path))), w1)
                     | Some leaf \<Rightarrow>
                         (let full_path = canonical_parent @ [leaf]
                          in if prefix root full_path then (Settled (Inr full_path), w1)
                             else (Settled (Inl escape_error), w1)))
               else (Settled (Inl escape_error), w1)
           | (Inl e, w1) \<Rightarrow>
               if is_not_found e
               then (case classify_missing_parent root joined w1 of
                       (MPNotFound, w2) \<Rightarrow> (ParentMissing, w2)
                     | (MPEscape, w2) \<Rightarrow> (Settled (Inl escape_error), w2)
                     | (MPError _, w2) \<Rightarrow>
                         (Settled (Inl (FIo ''failed to resolve parent directory'')), w2))
               else (Settled (Inl (FIo ''failed to resolve parent directory'')), w1)))"

definition resolve_root :: "string \<Rightarrow> fpath \<Rightarrow> world \<Rightarrow> root_outcome \<times> world" where
  "resolve_root path root w =
     (let joined = root @ split_path path
      in case sys_canonicalize joined w of
           (Inr canonical, w1) \<Rightarrow>
             if prefix root canonical then (Settled (Inr canonical), w1)
             else (Settled (Inl escape_error), w1)
         | (Inl e, w1) \<Rightarrow>
             if is_not_found e then resolve_missing_leaf path root joined w1
             else (Settled (Inl (FIo ''failed to resolve path'')), w1))"

fun resolve_roots :: "string \<Rightarrow> fpath list \<Rightarrow> bool \<Rightarrow> (fs_error, fpath) comp" where
  "resolve_roots path [] parent_missing w =
     (if parent_missing
      then (Inl (FNotFound (path @ '': parent directory does not exist'')), w)
      else (Inl escape_error, w))"
| "resolve_roots path (root # roots) parent_missing w =
     (case resolve_root path root w of
        (Settled r, w1) \<Rightarrow> (r, w1)
      | (ParentMissing, w1) \<Rightarrow> resolve_roots path roots True w1)"

definition fs_resolve :: "filesystem_config \<Rightarrow> string \<Rightarrow> (fs_error, fpath) comp" where
  "fs_resolve cfg path =
     bindM (liftM (check_path_shape path)) (\<lambda>_.
       resolve_roots path (fc_allowed_roots cfg) False)"

fun resolve_parent_roots ::
  "string \<Rightarrow> string list \<Rightarrow> string \<Rightarrow> fpath list \<Rightarrow> bool \<Rightarrow> (fs_error, fpath) comp" where
  "resolve_parent_roots path parent leaf [] missing w =
     (if missing then (Inl (FNotFound (''parent does not exist: '' @ path)), w)
      else (Inl escape_error, w))"
| "resolve_parent_roots path parent leaf (root # roots) missing w =
     (case sys_canonicalize (if parent = [] then root else root @ parent) w of
        (Inr canonical_parent, w1) \<Rightarrow>
          if prefix root canonical_parent
          then (let full_path = canonical_parent @ [leaf]
                in if prefix root full_path then (Inr full_path, w1) else (Inl escape_error, w1))
          else (Inl escape_error, w1)
      | (Inl e, w1) \<Rightarrow>
          if is_not_found e then resolve_parent_roots path parent leaf roots True w1
          else (Inl (FIo ''failed to resolve parent directory''), w1))"

definition fs_resolve_no_follow :: "filesystem_config \<Rightarrow> string \<Rightarrow> (fs_error, fpath) comp" where
  "fs_resolve_no_follow cfg path =
     bindM (liftM (check_path_shape path)) (\<lambda>_.
       let requested = split_path path
       in case rel_file_name requested of
            None \<Rightarrow> failM (FInvalidPath (''no file name in path: '' @ path))
          | Some leaf \<Rightarrow>
              if leaf = ''.'' \<or> leaf = ''..''
              then failM (FInvalidPath (''invalid file name in path: '' @ path))
              else (let parent = (case rel_parent requested of None \<Rightarrow> [] | Some p \<Rightarrow> p)
                    in resolve_parent_roots path parent leaf (fc_allowed_roots cfg) False))"

section \<open>Environment-relative names\<close>

text \<open>
  A canonical path relative to the first root that contains it.  Components of a canonical path
  are names, so the defensive branch of \<open>relativize\<close> is taken only by \<open>.\<close> and \<open>..\<close>.
\<close>

fun relativize_roots :: "fpath list \<Rightarrow> fpath \<Rightarrow> string option" where
  "relativize_roots [] canonical = None"
| "relativize_roots (root # roots) canonical =
     (case strip_prefix root canonical of
        None \<Rightarrow> relativize_roots roots canonical
      | Some rel \<Rightarrow>
          if rel = [] then Some []
          else if ''.'' \<in> set rel \<or> ''..'' \<in> set rel then None
          else Some (join_with [slash] rel))"

definition fs_relativize :: "filesystem_config \<Rightarrow> fpath \<Rightarrow> string option" where
  "fs_relativize cfg canonical = relativize_roots (fc_allowed_roots cfg) canonical"

text \<open>The loop over the components shared by \<open>creation_rel\<close> and \<open>ensure_dir_under_root\<close>.\<close>

fun creation_parts :: "string \<Rightarrow> component list \<Rightarrow> string list \<Rightarrow> fs_error + string list" where
  "creation_parts path [] parts = Inr parts"
| "creation_parts path (Normal c # cs) parts = creation_parts path cs (parts @ [c])"
| "creation_parts path (CurDir # cs) parts = creation_parts path cs parts"
| "creation_parts path (ParentDir # cs) parts =
     Inl (FInvalidPath (''invalid component in directory path: '' @ path))"
| "creation_parts path (RootDir # cs) parts =
     Inl (FInvalidPath (''invalid component in directory path: '' @ path))"

definition creation_comps :: "string \<Rightarrow> fs_error + string list" where
  "creation_comps path =
     bindE (creation_parts path (path_components path) []) (\<lambda>parts.
       if parts = [] then Inl (FInvalidPath (''no directory name in path: '' @ path))
       else Inr parts)"

definition fs_creation_rel :: "filesystem_config \<Rightarrow> string \<Rightarrow> fs_error + string" where
  "fs_creation_rel cfg path =
     bindE (check_path_shape path) (\<lambda>_.
     bindE (creation_comps path) (\<lambda>parts. Inr (join_with [slash] parts)))"

section \<open>Creating directories\<close>

definition path_is_dir :: "fpath \<Rightarrow> world \<Rightarrow> bool \<times> world" where
  "path_is_dir p w =
     (case sys_stat p w of
        (Inr meta, w1) \<Rightarrow> (md_kind meta = KDir, w1)
      | (Inl _, w1) \<Rightarrow> (False, w1))"

definition exists_conflict :: "string \<Rightarrow> fs_error" where
  "exists_conflict path = FConflict (''path exists and is not a directory: '' @ path)"

text \<open>One turn of the loop over the components; \<open>current\<close> already ends with the component.\<close>

definition ensure_existing ::
  "string \<Rightarrow> fpath \<Rightarrow> bool \<Rightarrow> fpath \<Rightarrow> os_metadata \<Rightarrow> (fs_error, fpath) comp" where
  "ensure_existing path root is_final current meta =
     bindM (io (sys_canonicalize current)) (\<lambda>canonical.
       if \<not> prefix root canonical then failM escape_error
       else if is_final
       then (if md_kind meta = KSymlink
             then (\<lambda>w. case path_is_dir canonical w of
                     (d, w1) \<Rightarrow> if \<not> d then (Inl (exists_conflict path), w1)
                                else (Inr canonical, w1))
             else if md_kind meta \<noteq> KDir then failM (exists_conflict path)
             else okM canonical)
       else (\<lambda>w. case path_is_dir canonical w of
               (d, w1) \<Rightarrow> if \<not> d
                  then (Inl (FNotADirectory (''path component is not a directory: '' @ path)), w1)
                  else (Inr canonical, w1)))"

definition ensure_missing :: "fpath \<Rightarrow> fpath \<Rightarrow> (fs_error, fpath) comp" where
  "ensure_missing root current =
     bindM (io (sys_mkdir current)) (\<lambda>_.
     bindM (io (sys_canonicalize current)) (\<lambda>canonical.
       if \<not> prefix root canonical then failM escape_error else okM canonical))"

definition ensure_step :: "string \<Rightarrow> fpath \<Rightarrow> bool \<Rightarrow> fpath \<Rightarrow> (fs_error, fpath) comp" where
  "ensure_step path root is_final current =
     matchM (sys_lstat current)
       (\<lambda>meta. ensure_existing path root is_final current meta)
       (\<lambda>e. if is_not_found e then ensure_missing root current else failM (fs_error_from_io e))"

fun ensure_loop :: "string \<Rightarrow> fpath \<Rightarrow> fpath \<Rightarrow> string list \<Rightarrow> (fs_error, fpath) comp" where
  "ensure_loop path root current [] = okM current"
| "ensure_loop path root current (name # names) =
     bindM (ensure_step path root (names = []) (current @ [name]))
       (\<lambda>next. ensure_loop path root next names)"

definition ensure_dir_under_root :: "filesystem_config \<Rightarrow> string \<Rightarrow> (fs_error, fpath) comp" where
  "ensure_dir_under_root cfg path =
     bindM (liftM (check_path_shape path)) (\<lambda>_.
       case fc_allowed_roots cfg of
         [] \<Rightarrow> failM (FInvalidPath ''no allowed roots configured'')
       | root # _ \<Rightarrow>
           bindM (liftM (creation_comps path)) (\<lambda>comps. ensure_loop path root root comps))"

section \<open>Metadata and digests\<close>

definition hash_bytes :: "(bytes \<Rightarrow> string) \<Rightarrow> bytes \<Rightarrow> string" where
  "hash_bytes blake3_hex d = blake3_hex d"

definition make_metadata :: "os_metadata \<Rightarrow> file_metadata" where
  "make_metadata meta =
     \<lparr> fm_size = md_len meta, fm_modified_at = md_modified meta,
       fm_is_dir = (md_kind meta = KDir), fm_is_file = (md_kind meta = KFile), fm_hash = None \<rparr>"

definition with_content_hash :: "(bytes \<Rightarrow> string) \<Rightarrow> file_metadata \<Rightarrow> bytes \<Rightarrow> file_metadata" where
  "with_content_hash blake3_hex meta content =
     (if fm_is_file meta then meta\<lparr> fm_hash := Some (hash_bytes blake3_hex content) \<rparr> else meta)"

section \<open>Reading\<close>

definition fs_read_file ::
  "(bytes \<Rightarrow> string) \<Rightarrow> filesystem_config \<Rightarrow> string \<Rightarrow> (fs_error, bytes \<times> file_metadata) comp" where
  "fs_read_file blake3_hex cfg path =
     bindM (fs_resolve cfg path) (\<lambda>canonical.
     bindM (io (sys_stat canonical)) (\<lambda>meta.
       if md_kind meta = KDir then failM (FIsADirectory path)
       else if md_len meta > fc_max_file_bytes cfg
       then failM (FFileTooLarge path (md_len meta) (fc_max_file_bytes cfg))
       else bindM (io (sys_read canonical)) (\<lambda>content.
              okM (content, with_content_hash blake3_hex (make_metadata meta) content))))"

definition trim_end_slashes :: "string \<Rightarrow> string" where
  "trim_end_slashes s = rev (dropWhile (\<lambda>c. c = slash) (rev s))"

definition entry_rel :: "string \<Rightarrow> string \<Rightarrow> string" where
  "entry_rel path name =
     (if path = [] \<or> path = ''.'' then name else trim_end_slashes path @ [slash] @ name)"

text \<open>\<open>DirEntry::metadata\<close> does not follow a symbolic link.\<close>

fun list_entries ::
  "string \<Rightarrow> fpath \<Rightarrow> string list \<Rightarrow> directory_entry list \<Rightarrow> (fs_error, directory_entry list) comp"
where
  "list_entries path dir [] entries = bindM (io sys_touch) (\<lambda>_. okM entries)"
| "list_entries path dir (name # names) entries =
     bindM (io sys_touch) (\<lambda>_.
     bindM (io (sys_lstat (dir @ [name]))) (\<lambda>meta.
       list_entries path dir names
         (entries @ [\<lparr> de_name = name, de_path = entry_rel path name,
                       de_metadata = make_metadata meta \<rparr>])))"

definition fs_list_directory ::
  "filesystem_config \<Rightarrow> string \<Rightarrow> (fs_error, directory_entry list) comp" where
  "fs_list_directory cfg path =
     bindM (fs_resolve cfg path) (\<lambda>canonical.
     bindM (io (sys_stat canonical)) (\<lambda>meta.
       if md_kind meta \<noteq> KDir then failM (FNotADirectory path)
       else bindM (io (sys_read_dir canonical)) (\<lambda>names. list_entries path canonical names [])))"

definition hashed_metadata ::
  "(bytes \<Rightarrow> string) \<Rightarrow> filesystem_config \<Rightarrow> fpath \<Rightarrow> os_metadata \<Rightarrow> (fs_error, file_metadata) comp" where
  "hashed_metadata blake3_hex cfg p meta =
     (if md_kind meta = KFile \<and> md_len meta \<le> fc_max_file_bytes cfg
      then bindM (io (sys_read p)) (\<lambda>content.
             okM (with_content_hash blake3_hex (make_metadata meta) content))
      else okM (make_metadata meta))"

definition fs_file_metadata ::
  "(bytes \<Rightarrow> string) \<Rightarrow> filesystem_config \<Rightarrow> string \<Rightarrow> (fs_error, file_metadata) comp" where
  "fs_file_metadata blake3_hex cfg path =
     bindM (fs_resolve cfg path) (\<lambda>canonical.
     bindM (io (sys_stat canonical)) (\<lambda>meta. hashed_metadata blake3_hex cfg canonical meta))"

section \<open>Writing\<close>

definition byte_hex :: "byte \<Rightarrow> string" where
  "byte_hex b = [hex_digit (unat b div 16), hex_digit (unat b mod 16)]"

definition hex_of :: "bytes \<Rightarrow> string" where
  "hex_of bs = concat (map byte_hex bs)"

definition MAX_TEMP_NAME_ATTEMPTS :: nat where
  "MAX_TEMP_NAME_ATTEMPTS = 8"

text \<open>The loop that creates a fresh temporary file; the argument counts the attempts left.\<close>

fun create_temp :: "fpath \<Rightarrow> nat \<Rightarrow> (fs_error, fpath) comp" where
  "create_temp parent 0 =
     failM (FIo (''failed to create temporary file: '' @ nat_str MAX_TEMP_NAME_ATTEMPTS
              @ '' name collisions''))"
| "create_temp parent (Suc n) =
     bindM (mapM_err (\<lambda>e. FIo (''failed to generate temp name: '' @ e)) sys_getrandom) (\<lambda>rand.
       let tmp_path = parent @ [''.are-tmp-'' @ hex_of rand]
       in matchM (sys_create_new tmp_path)
            (\<lambda>_. okM tmp_path)
            (\<lambda>e. if errno_kind e = KAlreadyExists then create_temp parent n
                 else failM (fs_error_from_io e)))"

text \<open>A path as its bytes, and \<open>CString::new\<close>, which refuses an interior NUL.\<close>

definition path_bytes :: "fpath \<Rightarrow> string" where
  "path_bytes p = (if p = [] then [slash] else concat (map (\<lambda>c. slash # c) p))"

definition cstring_new :: "string \<Rightarrow> string + string" where
  "cstring_new s =
     (if nul \<in> set s
      then Inl (''nul byte found in provided data at position: ''
                @ nat_str (length (takeWhile (\<lambda>c. c \<noteq> nul) s)))
      else Inr s)"

definition rename_noreplace :: "fpath \<Rightarrow> fpath \<Rightarrow> (fs_error, unit) comp" where
  "rename_noreplace src dst =
     bindM (liftM (mapE (\<lambda>e. FIo (''source path is invalid: '' @ e)) (cstring_new (path_bytes src))))
       (\<lambda>_.
     bindM (liftM (mapE (\<lambda>e. FIo (''destination path is invalid: '' @ e))
              (cstring_new (path_bytes dst)))) (\<lambda>_.
     matchM (sys_renameat2_noreplace src dst)
       (\<lambda>_. okM ())
       (\<lambda>err. if errno_kind err = KAlreadyExists then failM (FConflict ''destination exists'')
              else failM (fs_error_from_io err))))"

definition write_and_rename ::
  "fpath \<Rightarrow> fpath \<Rightarrow> fpath \<Rightarrow> bytes \<Rightarrow> bool \<Rightarrow> (fs_error, unit) comp" where
  "write_and_rename parent tmp_path target content no_replace =
     bindM (io (sys_write_all tmp_path content)) (\<lambda>_.
     bindM (io sys_touch) (\<lambda>_.
     matchM (sys_stat parent)
       (\<lambda>_. matchM sys_touch
          (\<lambda>_. if no_replace then rename_noreplace tmp_path target
               else io (sys_rename tmp_path target))
          (\<lambda>_. if no_replace then rename_noreplace tmp_path target
               else io (sys_rename tmp_path target)))
       (\<lambda>_. if no_replace then rename_noreplace tmp_path target
            else io (sys_rename tmp_path target))))"

definition atomic_commit :: "fpath \<Rightarrow> fpath \<Rightarrow> bytes \<Rightarrow> bool \<Rightarrow> (fs_error, unit) comp" where
  "atomic_commit parent target content no_replace =
     bindM (create_temp parent MAX_TEMP_NAME_ATTEMPTS) (\<lambda>tmp_path.
     matchM (write_and_rename parent tmp_path target content no_replace)
       (\<lambda>_. okM ())
       (\<lambda>e. matchM (sys_unlink tmp_path) (\<lambda>_. failM e) (\<lambda>_. failM e)))"

definition changed_conflict :: "string \<Rightarrow> fs_error" where
  "changed_conflict path = FConflict (''file changed since read: '' @ path)"

text \<open>Steps (b) to (d) of \<open>write_file\<close>: may the target be replaced?\<close>

definition check_target ::
  "(bytes \<Rightarrow> string) \<Rightarrow> filesystem_config \<Rightarrow> string \<Rightarrow> fpath \<Rightarrow> bool \<Rightarrow> string option
    \<Rightarrow> (fs_error, unit) comp" where
  "check_target blake3_hex cfg path canonical overwrite expected_hash =
     matchM (sys_lstat canonical)
       (\<lambda>meta.
          if md_kind meta = KDir then failM (FIsADirectory path)
          else if \<not> overwrite
          then failM (FConflict (''file already exists (pass overwrite to replace): '' @ path))
          else (case expected_hash of
                  None \<Rightarrow> okM ()
                | Some expected \<Rightarrow>
                    if md_len meta > fc_max_file_bytes cfg
                    then failM (FFileTooLarge path (md_len meta) (fc_max_file_bytes cfg))
                    else bindM (mapM_err (\<lambda>e. if is_not_found e then changed_conflict path
                                              else fs_error_from_io e) (sys_read canonical))
                           (\<lambda>current.
                              if hash_bytes blake3_hex current \<noteq> to_ascii_lowercase expected
                              then failM (changed_conflict path) else okM ())))
       (\<lambda>e. if is_not_found e
            then (if expected_hash \<noteq> None then failM (changed_conflict path) else okM ())
            else failM (fs_error_from_io e))"

definition fs_write_file ::
  "(bytes \<Rightarrow> string) \<Rightarrow> filesystem_config \<Rightarrow> string \<Rightarrow> bytes \<Rightarrow> bool \<Rightarrow> string option
    \<Rightarrow> (fs_error, file_metadata) comp" where
  "fs_write_file blake3_hex cfg path content overwrite expected_hash =
     (if length content > fc_max_file_bytes cfg
      then failM (FFileTooLarge path (length content) (fc_max_file_bytes cfg))
      else
        bindM (fs_resolve cfg path) (\<lambda>canonical.
        bindM (check_target blake3_hex cfg path canonical overwrite expected_hash) (\<lambda>_.
        case abs_parent canonical of
          None \<Rightarrow> failM (FInvalidPath (''no parent directory in path: '' @ path))
        | Some parent \<Rightarrow>
            bindM (mapM_err (\<lambda>_. FNotFound (''parent directory does not exist: '' @ path))
                     (sys_stat parent)) (\<lambda>_.
            bindM (atomic_commit parent canonical content (\<not> overwrite)) (\<lambda>_.
            bindM (io (sys_stat canonical)) (\<lambda>meta.
              okM (with_content_hash blake3_hex (make_metadata meta) content)))))))"

section \<open>Directories, renames, deletion\<close>

definition fs_create_directory :: "filesystem_config \<Rightarrow> string \<Rightarrow> (fs_error, file_metadata) comp" where
  "fs_create_directory cfg path =
     bindM (ensure_dir_under_root cfg path) (\<lambda>canonical.
     bindM (io (sys_stat canonical)) (\<lambda>meta. okM (make_metadata meta)))"

definition fs_rename_path ::
  "(bytes \<Rightarrow> string) \<Rightarrow> filesystem_config \<Rightarrow> string \<Rightarrow> string \<Rightarrow> (fs_error, file_metadata) comp" where
  "fs_rename_path blake3_hex cfg src dst =
     bindM (fs_resolve_no_follow cfg src) (\<lambda>src_canon.
     bindM (fs_resolve_no_follow cfg dst) (\<lambda>dst_canon.
       if src_canon = dst_canon then failM (FInvalidPath ''src and dst resolve to the same path'')
       else bindM (mapM_err (\<lambda>e. if is_not_found e then FNotFound (''source not found: '' @ src)
                                 else fs_error_from_io e) (sys_lstat src_canon)) (\<lambda>_.
            matchM (sys_lstat dst_canon)
              (\<lambda>_. failM (FConflict (''destination already exists: '' @ dst)))
              (\<lambda>_. bindM (rename_noreplace src_canon dst_canon) (\<lambda>_.
                   bindM (io (sys_stat dst_canon)) (\<lambda>meta.
                     hashed_metadata blake3_hex cfg dst_canon meta))))))"

definition fs_delete_path :: "filesystem_config \<Rightarrow> string \<Rightarrow> (fs_error, unit) comp" where
  "fs_delete_path cfg path =
     bindM (fs_resolve_no_follow cfg path) (\<lambda>canonical.
     bindM (mapM_err (\<lambda>e. if is_not_found e then FNotFound (''not found: '' @ path)
                          else fs_error_from_io e) (sys_lstat canonical)) (\<lambda>meta.
       if md_kind meta = KSymlink \<or> md_kind meta = KFile then io (sys_unlink canonical)
       else if md_kind meta = KDir
       then bindM (io (sys_read_dir canonical)) (\<lambda>names.
            bindM (io sys_touch) (\<lambda>_.
              if names \<noteq> []
              then failM (FConflict (''directory not empty; recursive delete not supported: '' @ path))
              else io (sys_rmdir canonical)))
       else failM (FInvalidPath (''unsupported file type: '' @ path))))"

end
