(* ===== verification/FsResolve.thy ===== *)
theory FsResolve
  imports Fs OsFsFacts
begin

text \<open>
  What path resolution guarantees: a resolved path lies under an allowed root, and using it with
  symbolic links followed reaches that very path or nothing at all.
\<close>

section \<open>Calls that only look\<close>

lemma same_tree_tick: "same_tree w (w\<lparr> w_sys := n \<rparr>)"
  by (simp add: same_tree_def)

lemma syscall_pure_Inr:
  assumes "syscall (\<lambda>w. (f w, w)) w = (Inr x, w')"
  shows "f (w\<lparr> w_sys := Suc (w_sys w) \<rparr>) = Inr x \<and> same_tree w w'"
  using assms by (auto simp: syscall_Inr same_tree_tick)

lemma obeys_pure: "same_tree.obeys (syscall (\<lambda>w. (f w, w)))"
  by (rule same_tree.obeysI)
    (auto simp: syscall_def Let_def same_tree_tick split: option.splits)

lemma obeys_canonicalize: "same_tree.obeys (sys_canonicalize raw)"
  unfolding sys_canonicalize_def by (rule obeys_pure)

lemma obeys_stat: "same_tree.obeys (sys_stat raw)"
  unfolding sys_stat_def by (rule obeys_pure)

lemma obeys_lstat: "same_tree.obeys (sys_lstat raw)"
  unfolding sys_lstat_def by (rule obeys_pure)

lemma obeys_read: "same_tree.obeys (sys_read raw)"
  unfolding sys_read_def by (rule obeys_pure)

lemma obeys_read_dir: "same_tree.obeys (sys_read_dir raw)"
  unfolding sys_read_dir_def by (rule obeys_pure)

lemma obeys_touch: "same_tree.obeys sys_touch"
  unfolding sys_touch_def by (rule obeys_pure)

lemma obeys_getrandom: "same_tree.obeys sys_getrandom"
  by (rule same_tree.obeysI) (auto simp: sys_getrandom_def same_tree_def)

lemmas obeys_looking =
  obeys_canonicalize obeys_stat obeys_lstat obeys_read obeys_read_dir obeys_touch obeys_getrandom

lemma obeys_io: "same_tree.obeys m \<Longrightarrow> same_tree.obeys (io m)"
  unfolding io_def by (rule same_tree.obeys_map_err)

lemma canonicalize_Inr:
  "sys_canonicalize raw w = (Inr p, w') \<Longrightarrow> real_path (w_fs w) raw = Inr p"
  by (auto simp: sys_canonicalize_def syscall_Inr)

lemma not_fault_errno [simp]: "ENOENT \<noteq> fault_errno f" "EEXIST \<noteq> fault_errno f"
  by (cases f; simp)+

lemma canonicalize_Inl:
  "sys_canonicalize raw w = (Inl e, w') \<Longrightarrow> is_not_found e \<Longrightarrow> real_path (w_fs w) raw = Inl ENOENT"
  by (auto simp: sys_canonicalize_def syscall_Inl is_not_found_def)

lemma same_treeD: "same_tree w w' \<Longrightarrow> w_fs w' = w_fs w"
  by (simp add: same_tree_def)

lemma canonicalize_same: "sys_canonicalize raw w = (r, w') \<Longrightarrow> same_tree w w'"
  using same_tree.obeysD [OF obeys_canonicalize] .

section \<open>Names of a client path\<close>

definition cfg_ok :: "filesystem_config \<Rightarrow> bool" where
  "cfg_ok cfg \<longleftrightarrow> (\<forall>root \<in> set (fc_allowed_roots cfg). \<forall>c \<in> set root. normal_name c)"

definition under_roots :: "filesystem_config \<Rightarrow> fpath \<Rightarrow> bool" where
  "under_roots cfg p \<longleftrightarrow> (\<exists>root \<in> set (fc_allowed_roots cfg). prefix root p)"

definition raw_name :: "string \<Rightarrow> bool" where
  "raw_name c \<longleftrightarrow> normal_name c \<or> c = ''.'' \<or> c = ''..''"

lemma split_path_names:
  assumes "check_path_shape path = Inr ()" and "c \<in> set (split_path path)"
  shows "raw_name c"
proof -
  have nn: "nul \<notin> set path" using assms(1) by (auto simp: check_path_shape_def split: if_splits)
  have "c = ''.'' \<or> c \<noteq> [] \<and> c \<in> set (split_on slash path)"
    using assms(2) by (auto simp: split_path_def Let_def split: if_splits)
  then show ?thesis
    using split_on_no_sep [of c slash path] set_split_on [of c slash path] nn
    by (auto simp: raw_name_def normal_name_def)
qed

lemma trim_dots_decomp: "\<exists>ds. raw = trim_dots raw @ ds \<and> set ds \<subseteq> {''.''}"
proof (intro exI conjI)
  let ?P = "\<lambda>c. c = ''.''"
  have "rev raw = takeWhile ?P (rev raw) @ dropWhile ?P (rev raw)" by simp
  then have "rev (rev raw) = rev (dropWhile ?P (rev raw)) @ rev (takeWhile ?P (rev raw))"
    using rev_append by metis
  then show "raw = trim_dots raw @ rev (takeWhile ?P (rev raw))"
    by (simp add: trim_dots_def)
  show "set (rev (takeWhile ?P (rev raw))) \<subseteq> {''.''}" by (auto dest: set_takeWhileD)
qed

lemma trim_dots_last: "trim_dots raw \<noteq> [] \<Longrightarrow> last (trim_dots raw) \<noteq> ''.''"
  using hd_dropWhile [of "\<lambda>c. c = ''.''" "rev raw"] by (simp add: trim_dots_def last_rev)

lemma set_trim_dots: "set (trim_dots raw) \<subseteq> set raw"
  by (auto simp: trim_dots_def dest: set_dropWhileD)

lemma parent_leaf_decomp:
  assumes "abs_parent raw = Some par" and "abs_file_name raw = Some c"
  obtains ds es where "raw = par @ ds @ [c] @ es" and "set ds \<subseteq> {''.''}" and "set es \<subseteq> {''.''}"
    and "c \<noteq> ''.''" and "c \<noteq> ''..''" and "c \<in> set raw"
proof -
  let ?t = "trim_dots raw"
  have ne: "?t \<noteq> []" and par: "par = trim_dots (butlast ?t)" and c: "c = last ?t" "c \<noteq> ''..''"
    using assms by (auto simp: abs_parent_def abs_file_name_def Let_def split: if_splits)
  obtain ds where ds: "butlast ?t = par @ ds" "set ds \<subseteq> {''.''}"
    using trim_dots_decomp [of "butlast ?t"] by (auto simp: par)
  obtain es where es: "raw = ?t @ es" "set es \<subseteq> {''.''}" using trim_dots_decomp by blast
  have "?t = butlast ?t @ [c]" using ne by (simp add: c(1))
  then have "raw = par @ ds @ [c] @ es" using ds(1) es(1) by (metis append.assoc)
  moreover have "c \<in> set raw" using ne c(1) set_trim_dots [of raw] by auto
  ultimately show ?thesis using that ds(2) es(2) c(2) trim_dots_last [OF ne] by (simp add: c(1))
qed

section \<open>Containment\<close>

text \<open>
  A resolved path: under a root, and either an existing path without symbolic links, or a new name
  (or a dangling link) in a real directory under a root.
\<close>

definition new_name :: "tree \<Rightarrow> filesystem_config \<Rightarrow> fpath \<Rightarrow> bool" where
  "new_name t cfg p \<longleftrightarrow>
     (\<exists>d c. p = d @ [c] \<and> is_dir_node t d \<and> normal_name c \<and> under_roots cfg d \<and>
        (\<forall>q. real_path t p \<noteq> Inr q))"

definition existing :: "tree \<Rightarrow> filesystem_config \<Rightarrow> fpath \<Rightarrow> bool" where
  "existing t cfg p \<longleftrightarrow> walk_end t True p \<and> (is_dir_node t p \<or> p \<noteq> [] \<and> under_roots cfg (butlast p))"

definition resolved :: "tree \<Rightarrow> filesystem_config \<Rightarrow> fpath \<Rightarrow> bool" where
  "resolved t cfg p \<longleftrightarrow> under_roots cfg p \<and> (existing t cfg p \<or> new_name t cfg p)"

text \<open>A root that is not a directory has nothing below it, so no client path resolves to it.\<close>

lemma real_path_below:
  assumes "wf_tree t" and "real_path t (root @ xs) = Inr root" and "xs \<noteq> []"
  shows "is_dir_node t root"
proof (rule ccontr)
  assume nd: "\<not> is_dir_node t root"
  have "real_path t root = Inr root" using real_path_idem [OF assms(1,2)] .
  from walk_append [OF this [unfolded real_path_def]]
  obtain b where "real_path t (root @ xs) = walk t b True root xs"
    by (auto simp: real_path_def)
  then show False using assms(2,3) nd by (cases xs) auto
qed

lemma split_path_nonempty: "check_path_shape path = Inr () \<Longrightarrow> split_path path \<noteq> []"
proof -
  assume ok: "check_path_shape path = Inr ()"
  then obtain c cs where p: "path = c # cs" "c \<noteq> slash"
    by (cases path) (auto simp: check_path_shape_def split: if_splits)
  then have "\<exists>y ys. split_on slash path = (c # y) # ys"
    by (cases "split_on slash cs") auto
  then show ?thesis by (auto simp: split_path_def Let_def)
qed

lemma resolved_target: "wf_tree t \<Longrightarrow> resolved t cfg p \<Longrightarrow> real_path t p = Inr q \<Longrightarrow> q = p"
  using real_path_fixed by (fastforce simp: resolved_def existing_def new_name_def)

lemma classify_same: "classify_loop root current tail w = (r, w') \<Longrightarrow> same_tree w w'"
proof (induction root current tail w arbitrary: r w' rule: classify_loop.induct)
  case (1 root current tail w)
  obtain r1 w1 where can: "sys_canonicalize current w = (r1, w1)" by fastforce
  note run = "1.prems" [unfolded classify_loop.simps [of root current tail w] can]
  have s1: "same_tree w w1" using can by (rule canonicalize_same)
  show ?case
  proof (cases r1)
    case (Inr c)
    then show ?thesis using run s1 by (auto split: if_splits)
  next
    case (Inl e)
    show ?thesis
    proof (cases "w' = w1")
      case False
      then obtain name parent where nf: "is_not_found e" and nm: "abs_file_name current = Some name"
        and par: "abs_parent current = Some parent"
        and rec: "classify_loop root parent (tail @ [name]) w1 = (r, w')"
        using run Inl by (auto split: if_splits option.splits)
      have "same_tree w1 w'"
        using "1.IH" [OF can [symmetric] Inl nf nm par rec] .
      then show ?thesis using s1 same_tree.R_trans by blast
    qed (use s1 in simp)
  qed
qed

lemma resolve_missing_leaf_same:
  assumes "resolve_missing_leaf path root joined w = (r, w')"
  shows "same_tree w w'"
proof (cases "abs_parent joined")
  case None
  then show ?thesis using assms by (simp add: resolve_missing_leaf_def same_tree.R_refl)
next
  case (Some parent)
  obtain r1 w1 where can: "sys_canonicalize parent w = (r1, w1)" by fastforce
  have s1: "same_tree w w1" using can by (rule canonicalize_same)
  show ?thesis
  proof (cases r1)
    case (Inr c)
    then show ?thesis using assms s1 Some can
      by (auto simp: resolve_missing_leaf_def Let_def split: if_splits option.splits)
  next
    case (Inl e)
    obtain m w2 where cls: "classify_missing_parent root joined w1 = (m, w2)" by fastforce
    then have "same_tree w1 w2" by (simp add: classify_missing_parent_def classify_same)
    then have s2: "same_tree w w2" using s1 same_tree.R_trans by blast
    have "w' = w1 \<or> w' = w2"
      using assms Some can Inl cls
      by (auto simp: resolve_missing_leaf_def split: if_splits missing_parent.splits)
    then show ?thesis using s1 s2 by auto
  qed
qed

lemma resolve_missing_leaf_Ok:
  assumes wf: "wf_tree (w_fs w)" and root: "root \<in> set (fc_allowed_roots cfg)"
    and gone: "real_path (w_fs w) joined = Inl ENOENT"
    and names: "\<And>c. c \<in> set joined \<Longrightarrow> raw_name c"
    and run: "resolve_missing_leaf path root joined w = (Settled (Inr p), w')"
  shows "resolved (w_fs w) cfg p"
proof -
  obtain parent where par: "abs_parent joined = Some parent"
    using run by (auto simp: resolve_missing_leaf_def split: option.splits)
  obtain r1 w1 where can: "sys_canonicalize parent w = (r1, w1)" by fastforce
  obtain d where r1: "r1 = Inr d"
    using run par can
    by (cases r1) (auto simp: resolve_missing_leaf_def split: if_splits prod.splits missing_parent.splits)
  then obtain c where c: "abs_file_name joined = Some c" and pre: "prefix root d" and p: "p = d @ [c]"
    using run par can
    by (auto simp: resolve_missing_leaf_def Let_def split: if_splits option.splits)
  have real: "real_path (w_fs w) parent = Inr d" using can r1 canonicalize_Inr by blast
  obtain ds es where dec: "joined = parent @ ds @ [c] @ es" "set ds \<subseteq> {''.''}" "set es \<subseteq> {''.''}"
    and cn: "c \<noteq> ''.''" "c \<noteq> ''..''" "c \<in> set joined"
    using parent_leaf_decomp [OF par c] by blast
  have nc: "normal_name c" using names [OF cn(3)] cn(1,2) by (simp add: raw_name_def)
  note leaf = missing_leaf [OF wf real gone [unfolded dec(1)] dec(2,3) nc]
  have "under_roots cfg d" "under_roots cfg p" using root pre by (auto simp: under_roots_def p)
  then show ?thesis using leaf nc by (auto simp: resolved_def new_name_def p)
qed

lemma resolve_root_spec:
  assumes "resolve_root path root w = (r, w')"
  shows "same_tree w w'"
    and "wf_tree (w_fs w) \<Longrightarrow> root \<in> set (fc_allowed_roots cfg) \<Longrightarrow> cfg_ok cfg \<Longrightarrow>
      check_path_shape path = Inr () \<Longrightarrow> r = Settled (Inr p) \<Longrightarrow> resolved (w_fs w) cfg p"
proof -
  let ?j = "root @ split_path path"
  obtain r1 w1 where can: "sys_canonicalize ?j w = (r1, w1)" by fastforce
  have s1: "same_tree w w1" using can by (rule canonicalize_same)
  have cases: "(\<exists>c. r1 = Inr c \<and> w' = w1 \<and> (if prefix root c then r = Settled (Inr c)
        else r = Settled (Inl escape_error))) \<or>
     (\<exists>e. r1 = Inl e \<and> is_not_found e \<and> resolve_missing_leaf path root ?j w1 = (r, w')) \<or>
     (\<exists>e x. r = Settled (Inl x) \<and> w' = w1 \<and> r1 = Inl e)"
    using assms can by (cases r1) (auto simp: resolve_root_def Let_def split: if_splits)
  then show "same_tree w w'"
    using s1 same_tree.R_trans resolve_missing_leaf_same by blast
  assume wf: "wf_tree (w_fs w)" and root: "root \<in> set (fc_allowed_roots cfg)"
    and ok: "cfg_ok cfg" and shape: "check_path_shape path = Inr ()" and r: "r = Settled (Inr p)"
  have names: "raw_name c" if "c \<in> set ?j" for c
    using that ok root split_path_names [OF shape] by (auto simp: cfg_ok_def raw_name_def)
  have fs1: "w_fs w1 = w_fs w" using s1 by (rule same_treeD)
  from cases consider (found) "r1 = Inr p" "prefix root p"
    | (missing) e where "r1 = Inl e" "is_not_found e" "resolve_missing_leaf path root ?j w1 = (r, w')"
    using r by (auto split: if_splits)
  then show "resolved (w_fs w) cfg p"
  proof cases
    case found
    then have rp: "real_path (w_fs w) ?j = Inr p" using can canonicalize_Inr by blast
    have "is_dir_node (w_fs w) p \<or> p \<noteq> [] \<and> prefix root (butlast p)"
    proof (cases "p = root")
      case True
      then show ?thesis using real_path_below [OF wf, of root] rp split_path_nonempty [OF shape] by auto
    next
      case False
      then show ?thesis using found(2) by (cases p rule: rev_cases) (auto simp: prefix_snoc)
    qed
    then show ?thesis using found root real_path_result [OF wf rp]
      by (auto simp: resolved_def existing_def under_roots_def)
  next
    case missing
    have "real_path (w_fs w) ?j = Inl ENOENT"
      using canonicalize_Inl can missing by blast
    then show ?thesis
      using resolve_missing_leaf_Ok [of w1 root cfg ?j path p w'] wf root names missing(3) r fs1
      by simp
  qed
qed

lemma resolve_roots_spec:
  assumes "resolve_roots path roots b w = (r, w')"
  shows "same_tree w w' \<and>
    (wf_tree (w_fs w) \<longrightarrow> set roots \<subseteq> set (fc_allowed_roots cfg) \<longrightarrow> cfg_ok cfg \<longrightarrow>
      check_path_shape path = Inr () \<longrightarrow> r = Inr p \<longrightarrow> resolved (w_fs w) cfg p)"
  using assms
proof (induction path roots b w rule: resolve_roots.induct)
  case (1 path b w)
  then show ?case by (auto simp: same_tree.R_refl split: if_splits)
next
  case (2 path root roots b w)
  obtain o1 w1 where rr: "resolve_root path root w = (o1, w1)" by fastforce
  note spec = resolve_root_spec [OF rr]
  show ?case
  proof (cases o1)
    case (Settled r1)
    then have "r = r1" "w' = w1" using "2.prems" rr by auto
    then show ?thesis using spec Settled by auto
  next
    case ParentMissing
    then have rec: "resolve_roots path roots True w1 = (r, w')" using "2.prems" rr by simp
    note IH = "2.IH" [OF rr [symmetric] ParentMissing rec]
    have "w_fs w1 = w_fs w" using spec(1) by (rule same_treeD)
    then show ?thesis using IH spec(1) same_tree.R_trans by auto
  qed
qed

lemma resolve_same: "fs_resolve cfg path w = (r, w') \<Longrightarrow> same_tree w w'"
  using resolve_roots_spec by (cases "check_path_shape path")
    (fastforce simp: fs_resolve_def bindM_def same_tree.R_refl)+

lemma obeys_resolve: "same_tree.obeys (fs_resolve cfg path)"
  by (rule same_tree.obeysI) (rule resolve_same)

lemma resolve_Ok_resolved:
  assumes "wf_tree (w_fs w)" and "cfg_ok cfg" and "fs_resolve cfg path w = (Inr p, w')"
  shows "resolved (w_fs w) cfg p"
proof -
  have shape: "check_path_shape path = Inr ()"
    and run: "resolve_roots path (fc_allowed_roots cfg) False w = (Inr p, w')"
    using assms(3) by (auto simp: fs_resolve_def bindM_Inr)
  show ?thesis using resolve_roots_spec [OF run, of cfg p] assms(1,2) shape by blast
qed

section \<open>Resolution without following the last name\<close>

text \<open>The result names an entry of an existing place under a root; the entry itself is not read.\<close>

definition entry_under :: "tree \<Rightarrow> filesystem_config \<Rightarrow> fpath \<Rightarrow> bool" where
  "entry_under t cfg p \<longleftrightarrow>
     (\<exists>d c. p = d @ [c] \<and> walk_end t True d \<and> normal_name c \<and> under_roots cfg d)"

lemma set_rel_trim: "set (rel_trim raw) \<subseteq> set raw"
proof (cases raw)
  case (Cons c cs)
  then show ?thesis using set_trim_dots [of cs] set_trim_dots [of raw]
    by (auto simp: rel_trim_def)
qed (simp add: rel_trim_def)

lemma rel_file_name_normal:
  assumes "check_path_shape path = Inr ()" and "rel_file_name (split_path path) = Some c"
  shows "normal_name c"
proof -
  let ?t = "rel_trim (split_path path)"
  have "?t \<noteq> []" "c = last ?t" "c \<noteq> ''..''" "c \<noteq> ''.''"
    using assms(2) by (auto simp: rel_file_name_def Let_def split: if_splits)
  moreover from this have "c \<in> set (split_path path)"
    using set_rel_trim [of "split_path path"] by auto
  ultimately show ?thesis using split_path_names [OF assms(1)] by (auto simp: raw_name_def)
qed

lemma resolve_parent_roots_spec:
  assumes "resolve_parent_roots path parent leaf roots b w = (r, w')"
  shows "same_tree w w' \<and>
    (wf_tree (w_fs w) \<longrightarrow> set roots \<subseteq> set (fc_allowed_roots cfg) \<longrightarrow> normal_name leaf \<longrightarrow>
      r = Inr p \<longrightarrow> entry_under (w_fs w) cfg p)"
  using assms
proof (induction path parent leaf roots b w rule: resolve_parent_roots.induct)
  case (1 path parent leaf b w)
  then show ?case by (auto simp: same_tree.R_refl split: if_splits)
next
  case (2 path parent leaf root roots b w)
  let ?j = "if parent = [] then root else root @ parent"
  obtain r1 w1 where can: "sys_canonicalize ?j w = (r1, w1)" by fastforce
  have s1: "same_tree w w1" using can by (rule canonicalize_same)
  show ?case
  proof (cases r1)
    case (Inr d)
    have "real_path (w_fs w) ?j = Inr d" using can Inr canonicalize_Inr by blast
    then have "wf_tree (w_fs w) \<Longrightarrow> walk_end (w_fs w) True d" using real_path_result by blast
    then show ?thesis
      using "2.prems" can Inr s1 by (auto simp: entry_under_def under_roots_def Let_def split: if_splits)
  next
    case (Inl e)
    show ?thesis
    proof (cases "is_not_found e")
      case True
      have "resolve_parent_roots path parent leaf roots True w1 = (r, w')"
        using "2.prems" can Inl True by simp
      note IH = "2.IH" [OF can [symmetric] Inl True this]
      show ?thesis using IH s1 same_treeD [OF s1] same_tree.R_trans by auto
    next
      case False
      then show ?thesis using "2.prems" can Inl s1 by auto
    qed
  qed
qed

lemma resolve_no_follow_spec:
  assumes "fs_resolve_no_follow cfg path w = (r, w')"
  shows "same_tree w w'"
    and "wf_tree (w_fs w) \<Longrightarrow> r = Inr p \<Longrightarrow> entry_under (w_fs w) cfg p"
proof -
  have alt: "(\<exists>e. r = Inl e \<and> w' = w) \<or>
    (\<exists>parent leaf. check_path_shape path = Inr () \<and> rel_file_name (split_path path) = Some leaf \<and>
       resolve_parent_roots path parent leaf (fc_allowed_roots cfg) False w = (r, w'))"
  proof (cases "check_path_shape path")
    case (Inr u)
    then show ?thesis using assms
      by (auto simp: fs_resolve_no_follow_def bindM_def Let_def split: option.splits if_splits)
  qed (use assms in \<open>auto simp: fs_resolve_no_follow_def bindM_def\<close>)
  then show "same_tree w w'"
    using resolve_parent_roots_spec same_tree.R_refl by blast
  assume "wf_tree (w_fs w)" "r = Inr p"
  then show "entry_under (w_fs w) cfg p"
    using alt resolve_parent_roots_spec [of path _ _ "fc_allowed_roots cfg" False w r w' cfg p]
      rel_file_name_normal by auto
qed

lemma obeys_resolve_no_follow: "same_tree.obeys (fs_resolve_no_follow cfg path)"
  by (rule same_tree.obeysI) (rule resolve_no_follow_spec(1))

section \<open>The environment-relative name of a resolved path\<close>

lemma resolved_names:
  assumes "wf_tree t" and "resolved t cfg p" and "c \<in> set p"
  shows "normal_name c"
proof -
  have "\<exists>n. hm_get t p = Some n" if "walk_end t True p" using that by (auto simp: walk_end_def)
  then show ?thesis
    using assms wf_tree_names [OF assms(1)] by (fastforce simp: resolved_def existing_def new_name_def is_dir_node_iff)
qed

lemma entry_under_names:
  assumes "wf_tree t" and "entry_under t cfg p" and "c \<in> set p"
  shows "normal_name c"
  using assms wf_tree_names [OF assms(1)] by (fastforce simp: entry_under_def walk_end_def)

lemma normal_name_comp: "normal_name c \<Longrightarrow> normal_comp c"
  by (simp add: normal_name_def normal_comp_def)

lemma relativize_roots_spec:
  assumes "\<exists>root \<in> set roots. prefix root p" and "\<And>c. c \<in> set p \<Longrightarrow> normal_name c"
  shows "\<exists>root \<in> set roots. \<exists>rest. p = root @ rest \<and>
    relativize_roots roots p = Some (join_with [slash] rest)"
  using assms
proof (induction roots)
  case (Cons root roots)
  show ?case
  proof (cases "strip_prefix root p")
    case None
    then have "\<not> prefix root p" by (auto simp: strip_prefix_def)
    then show ?thesis using Cons None by auto
  next
    case (Some rest)
    then have "p = root @ rest" by (simp add: strip_prefix_Some_iff)
    then show ?thesis using Cons.prems(2) Some by (fastforce simp: normal_name_def)
  qed
qed simp

lemma relativize_spec:
  assumes "under_roots cfg p" and "\<And>c. c \<in> set p \<Longrightarrow> normal_name c"
  shows "\<exists>root \<in> set (fc_allowed_roots cfg). \<exists>rest rel. p = root @ rest \<and>
    fs_relativize cfg p = Some rel \<and> rel_comps rel = rest \<and> normal_rel rel"
proof -
  obtain root rest where r: "root \<in> set (fc_allowed_roots cfg)" "p = root @ rest"
    and rel: "fs_relativize cfg p = Some (join_with [slash] rest)"
    using relativize_roots_spec [OF assms(1) [unfolded under_roots_def] assms(2)]
    by (auto simp: fs_relativize_def)
  have "rel_comps (join_with [slash] rest) = rest"
    using assms(2) r(2) by (intro rel_comps_join normal_name_comp) simp
  then show ?thesis
    using r rel assms(2) by (fastforce simp: normal_rel_def normal_name_comp)
qed

text \<open>
  Claim C9.  \<open>resolve\<close> confines the client: whatever the path, the tree and the failures of the
  operating system, an accepted path lies under an allowed root, and following it (symbolic links
  included) reaches either that same path or nothing; resolving changes nothing.
\<close>

theorem resolve_contained:
  assumes "wf_tree (w_fs w)" and "cfg_ok cfg" and "fs_resolve cfg path w = (Inr p, w')"
  shows "(\<exists>root \<in> set (fc_allowed_roots cfg). prefix root p) \<and>
    (\<forall>q. real_path (w_fs w) p = Inr q \<longrightarrow> q = p) \<and> w_fs w' = w_fs w \<and> w_hist w' = w_hist w"
proof -
  have res: "resolved (w_fs w) cfg p" using resolve_Ok_resolved [OF assms] .
  then show ?thesis
    using resolved_target [OF assms(1) res] resolve_same [OF assms(3)]
    by (auto simp: resolved_def under_roots_def same_tree_def)
qed

lemma workdir_resolved:
  assumes "wf_tree (w_fs w)" and "cfg_ok fs" and "fs_resolve fs rel w = (Inr p, w1)"
    and "sys_stat p w1 = (Inr meta, w2)" and "md_kind meta = KDir"
  shows "under_roots fs p" and "is_dir_node (w_fs w) p"
proof -
  have res: "resolved (w_fs w) fs p" by (rule resolve_Ok_resolved [OF assms(1,2,3)])
  then show "under_roots fs p" by (simp add: resolved_def)
  have tree: "w_fs w1 = w_fs w" using resolve_same [OF assms(3)] by (rule same_treeD)
  obtain q n where q: "real_path (w_fs w) p = Inr q" and n: "hm_get (w_fs w) q = Some n" "node_kind n = KDir"
    using assms(4,5) tree
    by (auto simp: sys_stat_def syscall_Inr bindE_Inr_iff metadata_of_def split: option.splits)
  have "q = p" by (rule resolved_target [OF assms(1) res q])
  with n show "is_dir_node (w_fs w) p" by (cases n) (auto simp: is_dir_node_def)
qed

definition sample_tree :: tree where
  "sample_tree = [([], NDir), ([''srv''], NDir), ([''srv'', ''a''], NFile [1, 2]),
     ([''etc''], NDir), ([''etc'', ''key''], NFile [7]), ([''srv'', ''out''], NSymlink ''/etc'')]"

definition sample_world :: world where
  "sample_world = \<lparr> w_fs = sample_tree, w_hist = [], w_fault = (\<lambda>_. None), w_sys = 0,
     w_partial = (\<lambda>_. 0), w_mtime = (\<lambda>_. None), w_dirlen = (\<lambda>_. 0),
     w_entropy = (\<lambda>n. Inr (replicate 16 (word_of_nat n))), w_rng = 0, w_clock = (\<lambda>n. SystemTime n 0),
     w_tick = 0, w_spawned = [] \<rparr>"

definition sample_cfg :: filesystem_config where
  "sample_cfg = \<lparr> fc_allowed_roots = [[''srv'']], fc_max_file_bytes = 100 \<rparr>"

lemma sample_tree_wf: "wf_tree sample_tree"
  by code_simp

lemma sample_cfg_ok: "cfg_ok sample_cfg"
  by (simp add: cfg_ok_def sample_cfg_def normal_name_def slash_def nul_def)

lemma sample_resolve: "fst (fs_resolve sample_cfg ''./a'' sample_world) = Inr [''srv'', ''a'']"
  by code_simp

theorem resolve_contained_witness:
  "prefix [''srv''] [''srv'', ''a''] \<and>
   fst (fs_resolve sample_cfg ''out/key'' sample_world) = Inl escape_error"
proof -
  obtain w' where "fs_resolve sample_cfg ''./a'' sample_world = (Inr [''srv'', ''a''], w')"
    using sample_resolve by (metis prod.collapse)
  from resolve_contained [OF _ sample_cfg_ok this] sample_tree_wf
  have "prefix [''srv''] [''srv'', ''a'']" by (simp add: sample_world_def sample_cfg_def)
  moreover have "fst (fs_resolve sample_cfg ''out/key'' sample_world) = Inl escape_error"
    by code_simp
  ultimately show ?thesis by blast
qed

end
