(* ===== verification/FsWrite.thy ===== *)
theory FsWrite
  imports FsResolve
begin

text \<open>
  What the mutating operations of the filesystem backend do to the tree: where they can write at
  all (in every intermediate state, whatever fails), and what they achieve when they succeed.
\<close>

section \<open>Steps confined to a region\<close>

text \<open>
  \<open>good D F t\<close>: the tree is well formed, the paths of \<open>D\<close> are directories and those of \<open>F\<close> are not.
  A step from such a tree to such trees changes nothing outside the region \<open>A\<close>.
\<close>

definition good :: "fpath set \<Rightarrow> fpath set \<Rightarrow> tree \<Rightarrow> bool" where
  "good D F t \<longleftrightarrow> wf_tree t \<and> (\<forall>d \<in> D. is_dir_node t d) \<and> (\<forall>f \<in> F. \<not> is_dir_node t f)"

definition agree_outside :: "(fpath \<Rightarrow> bool) \<Rightarrow> tree \<Rightarrow> tree \<Rightarrow> bool" where
  "agree_outside A t t' \<longleftrightarrow> (\<forall>p. \<not> A p \<longrightarrow> hm_get t' p = hm_get t p)"

definition region_step ::
  "fpath set \<Rightarrow> fpath set \<Rightarrow> (fpath \<Rightarrow> bool) \<Rightarrow> world \<Rightarrow> world \<Rightarrow> bool" where
  "region_step D F A w w' \<longleftrightarrow> (\<exists>h. w_hist w' = w_hist w @ h \<and>
     (good D F (w_fs w) \<longrightarrow>
        (\<forall>t \<in> set (w_fs w' # h). good D F t \<and> agree_outside A (w_fs w) t)))"

lemma agree_refl: "agree_outside A t t"
  by (simp add: agree_outside_def)

lemma agree_trans: "agree_outside A s t \<Longrightarrow> agree_outside A t u \<Longrightarrow> agree_outside A s u"
  by (simp add: agree_outside_def)

lemma agree_mono: "agree_outside A s t \<Longrightarrow> (\<And>p. A p \<Longrightarrow> B p) \<Longrightarrow> agree_outside B s t"
  by (auto simp: agree_outside_def)

interpretation region: tree_relation "region_step D F A" for D F A
proof unfold_locales
  fix w w' assume "same_tree w w'"
  then show "region_step D F A w w'"
    unfolding region_step_def by (intro exI [of _ "[]"]) (simp add: same_tree_def agree_refl)
next
  fix w
  show "region_step D F A w w"
    unfolding region_step_def by (intro exI [of _ "[]"]) (simp add: agree_refl)
next
  fix u v w assume "region_step D F A u v" and "region_step D F A v w"
  then obtain g h where g: "w_hist v = w_hist u @ g"
      "good D F (w_fs u) \<longrightarrow> (\<forall>t \<in> set (w_fs v # g). good D F t \<and> agree_outside A (w_fs u) t)"
    and h: "w_hist w = w_hist v @ h"
      "good D F (w_fs v) \<longrightarrow> (\<forall>t \<in> set (w_fs w # h). good D F t \<and> agree_outside A (w_fs v) t)"
    by (auto simp: region_step_def)
  show "region_step D F A u w"
    unfolding region_step_def
  proof (intro exI [of _ "g @ h"] conjI impI ballI)
    show "w_hist w = w_hist u @ g @ h" using g h by simp
    fix t assume good: "good D F (w_fs u)" and t: "t \<in> set (w_fs w # g @ h)"
    have v: "good D F (w_fs v)" "agree_outside A (w_fs u) (w_fs v)" using g(2) good by auto
    have t': "t \<in> set g \<or> t \<in> set (w_fs w # h)" using t by auto
    then show "good D F t" using g(2) h(2) good v(1) by auto
    from t' show "agree_outside A (w_fs u) t"
      using g(2) h(2) good v agree_trans [OF v(2)] by auto
  qed
qed

lemma region_stepD:
  assumes "region_step D F A w w'" and "good D F (w_fs w)"
  obtains h where "w_hist w' = w_hist w @ h"
    and "\<And>t. t = w_fs w' \<or> t \<in> set h \<Longrightarrow> good D F t \<and> agree_outside A (w_fs w) t"
  using assms by (auto simp: region_step_def)

lemma region_tree_call:
  assumes "\<And>t t'. good D F t \<Longrightarrow> f t = Inr t' \<Longrightarrow> good D F t' \<and> agree_outside A t t'"
  shows "region.obeys D F A (tree_call f)"
  unfolding tree_call_def
proof (rule region.obeys_syscall)
  fix w
  show "region_step D F A w (snd (case f (w_fs w) of Inl e \<Rightarrow> (Inl e, w)
      | Inr t \<Rightarrow> (Inr (), set_tree t w)))"
  proof (cases "f (w_fs w)")
    case (Inl e)
    then show ?thesis by (simp add: region.R_refl)
  next
    case (Inr t)
    then show ?thesis using assms [of "w_fs w" t] by (auto simp: region_step_def)
  qed
qed

lemmas region_looking [simp, intro] = obeys_looking [THEN region.obeys_same]

lemma region_io: "region.obeys D F A m \<Longrightarrow> region.obeys D F A (io m)"
  unfolding io_def by (rule region.obeys_map_err)

section \<open>Effects of the tree calls in a real directory\<close>

lemma good_mono: "good D F t \<Longrightarrow> D' \<subseteq> D \<Longrightarrow> F' \<subseteq> F \<Longrightarrow> good D' F' t"
  by (auto simp: good_def)

lemma insert_agree: "A p \<Longrightarrow> agree_outside A t (hm_insert p n t)"
  by (auto simp: agree_outside_def)

lemma remove_agree: "A p \<Longrightarrow> agree_outside A t (hm_remove p t)"
  by (auto simp: agree_outside_def)

lemma good_insert:
  assumes "good D F t" and "is_dir_node t d" and "normal_name c" and "\<not> is_dir_node t (d @ [c])"
    and "n = NDir \<longrightarrow> d @ [c] \<notin> F"
  shows "good D F (hm_insert (d @ [c]) n t)"
  using assms wf_tree_insert [of t d c n] by (auto simp: good_def is_dir_node_iff)

lemma good_remove:
  assumes "good D F t" and "p \<noteq> []" and "p \<notin> D" and "\<not> is_dir_node t p \<or> is_empty_dir t p"
  shows "good D F (hm_remove p t)"
  using assms wf_tree_remove [of t p] by (auto simp: good_def is_dir_node_iff)

lemma obeys_create_new:
  assumes "d \<in> D" and "normal_name c" and "A (d @ [c])"
  shows "region.obeys D F A (sys_create_new (d @ [c]))"
  unfolding sys_create_new_def
proof (rule region_tree_call)
  fix t t' assume good: "good D F t" and run: "t_create (NFile []) (d @ [c]) t = Inr t'"
  have d: "is_dir_node t d" using good assms(1) by (simp add: good_def)
  then have "entry_path t (d @ [c]) = Inr (d @ [c])"
    using entry_path_real good assms(2) by (simp add: good_def)
  then have "hm_get t (d @ [c]) = None" "t' = hm_insert (d @ [c]) (NFile []) t"
    using run by (auto simp: t_create_Inr)
  then show "good D F t' \<and> agree_outside A t t'"
    using good_insert [OF good d assms(2)] assms(3) insert_agree by (simp add: is_dir_node_iff)
qed

lemma obeys_write_all:
  assumes "d \<in> D" and "normal_name c" and "A (d @ [c])" and "d @ [c] \<in> F"
  shows "region.obeys D F A (sys_write_all (d @ [c]) b)"
proof (rule region.obeysI)
  fix w r w' assume run: "sys_write_all (d @ [c]) b w = (r, w')"
  let ?p = "d @ [c]"
  have ins: "good D F (hm_insert ?p (NFile x) t) \<and> agree_outside A t (hm_insert ?p (NFile x) t)"
    if "good D F t" for x t
    using that good_insert [of D F t d c "NFile x"] assms insert_agree by (auto simp: good_def)
  let ?t1 = "hm_insert ?p (NFile (take (w_partial w (w_sys w)) b)) (w_fs w)"
  let ?t2 = "hm_insert ?p (NFile b) ?t1"
  have alt: "w_fs w' = ?t1 \<and> w_hist w' = w_hist w @ [?t1] \<or>
        w_fs w' = ?t2 \<and> w_hist w' = w_hist w @ [?t1, ?t2]"
    using run by (auto simp: sys_write_all_def Let_def split: option.splits)
  have ok: "good D F ?t1 \<and> agree_outside A (w_fs w) ?t1 \<and> good D F ?t2 \<and> agree_outside A (w_fs w) ?t2"
    if "good D F (w_fs w)"
    using ins [OF that] ins [of ?t1] agree_trans by blast
  show "region_step D F A w w'"
    using alt
  proof
    assume "w_fs w' = ?t1 \<and> w_hist w' = w_hist w @ [?t1]"
    then show ?thesis using ok unfolding region_step_def by (intro exI [of _ "[?t1]"]) simp
  next
    assume "w_fs w' = ?t2 \<and> w_hist w' = w_hist w @ [?t1, ?t2]"
    then show ?thesis using ok unfolding region_step_def by (intro exI [of _ "[?t1, ?t2]"]) simp
  qed
qed

lemma obeys_unlink:
  assumes "d \<in> D" and "normal_name c" and "A (d @ [c])" and "d @ [c] \<notin> D"
  shows "region.obeys D F A (sys_unlink (d @ [c]))"
  unfolding sys_unlink_def
proof (rule region_tree_call)
  fix t t' assume good: "good D F t" and run: "t_unlink (d @ [c]) t = Inr t'"
  have "entry_path t (d @ [c]) = Inr (d @ [c])"
    using entry_path_real good assms(1,2) by (simp add: good_def)
  then have "\<not> is_dir_node t (d @ [c])" "t' = hm_remove (d @ [c]) t"
    using run by (auto simp: t_unlink_Inr is_dir_node_iff)
  then show "good D F t' \<and> agree_outside A t t'"
    using good_remove [OF good] assms(3,4) remove_agree by simp
qed

section \<open>Outcomes of single calls\<close>

lemma tree_call_Inr:
  assumes "tree_call f w = (Inr u, w')"
  shows "f (w_fs w) = Inr (w_fs w')" and "w_hist w' = w_hist w @ [w_fs w']"
proof -
  let ?w1 = "w\<lparr> w_sys := Suc (w_sys w) \<rparr>"
  have "(case f (w_fs ?w1) of Inl e \<Rightarrow> (Inl e, ?w1) | Inr t \<Rightarrow> (Inr (), set_tree t ?w1)) = (Inr u, w')"
    using assms by (simp add: tree_call_def syscall_Inr)
  then show "f (w_fs w) = Inr (w_fs w')" "w_hist w' = w_hist w @ [w_fs w']"
    by (auto split: sum.splits)
qed

lemma tree_call_Inl:
  assumes "tree_call f w = (Inl e, w')"
  shows "same_tree w w'" and "e \<noteq> EEXIST \<or> f (w_fs w) = Inl EEXIST"
proof -
  let ?w1 = "w\<lparr> w_sys := Suc (w_sys w) \<rparr>"
  have "(\<exists>g. e = fault_errno g \<and> w' = ?w1) \<or>
    (case f (w_fs ?w1) of Inl e \<Rightarrow> (Inl e, ?w1) | Inr t \<Rightarrow> (Inr (), set_tree t ?w1)) = (Inl e, w')"
    using assms by (auto simp: tree_call_def syscall_Inl)
  then have "w' = ?w1 \<and> (e \<noteq> EEXIST \<or> f (w_fs w) = Inl EEXIST)" by (auto split: sum.splits)
  then show "same_tree w w'" "e \<noteq> EEXIST \<or> f (w_fs w) = Inl EEXIST"
    by (simp_all add: same_tree_tick)
qed

section \<open>Temporary files\<close>

definition temp_prefix :: string where
  "temp_prefix = ''.are-tmp-''"

definition is_temp :: "fpath \<Rightarrow> fpath \<Rightarrow> bool" where
  "is_temp d p \<longleftrightarrow> p \<noteq> [] \<and> butlast p = d \<and> prefix temp_prefix (last p)"

lemma hex_digit_plain: "n < 16 \<Longrightarrow> hex_digit n \<noteq> slash \<and> hex_digit n \<noteq> nul"
proof -
  assume "n < 16"
  then have "n \<in> set [0..<16]" by simp
  moreover have "list_all (\<lambda>n. hex_digit n \<noteq> slash \<and> hex_digit n \<noteq> nul) [0..<16]" by code_simp
  ultimately show ?thesis by (simp add: list_all_iff)
qed

lemma hex_of_plain: "slash \<notin> set (hex_of bs) \<and> nul \<notin> set (hex_of bs)"
proof -
  have "slash \<notin> set (byte_hex b) \<and> nul \<notin> set (byte_hex b)" for b :: byte
  proof -
    have "unat b div 16 < 16" "unat b mod 16 < 16"
      using unsigned_less [of b, where ?'a = nat] by simp_all
    from this [THEN hex_digit_plain] show ?thesis by (auto simp: byte_hex_def)
  qed
  then show ?thesis by (auto simp: hex_of_def)
qed

lemma temp_name_normal: "normal_name (''.are-tmp-'' @ hex_of bs)"
  using hex_of_plain [of bs] by (simp add: normal_name_def slash_def nul_def)

lemma create_temp_spec:
  assumes "create_temp d n w = (r, w')" and "wf_tree (w_fs w)" and "is_dir_node (w_fs w) d"
  shows "(\<exists>e. r = Inl e \<and> same_tree w w') \<or>
    (\<exists>c. r = Inr (d @ [c]) \<and> normal_name c \<and> is_temp d (d @ [c]) \<and>
       hm_get (w_fs w) (d @ [c]) = None \<and> w_fs w' = hm_insert (d @ [c]) (NFile []) (w_fs w) \<and>
       w_hist w' = w_hist w @ [w_fs w'])"
  using assms
proof (induction n arbitrary: w)
  case 0
  then show ?case by (auto simp: same_tree.R_refl)
next
  case (Suc n)
  obtain g w1 where rnd: "sys_getrandom w = (g, w1)" by fastforce
  have s1: "same_tree w w1" using same_tree.obeysD [OF obeys_getrandom rnd] .
  show ?case
  proof (cases g)
    case (Inl e)
    then show ?thesis using Suc.prems(1) rnd s1 by (auto simp: bindM_def mapM_err_def)
  next
    case (Inr rand)
    let ?c = "''.are-tmp-'' @ hex_of rand"
    obtain g2 w2 where cr: "sys_create_new (d @ [?c]) w1 = (g2, w2)" by fastforce
    have wf1: "wf_tree (w_fs w1)" "is_dir_node (w_fs w1) d"
      using Suc.prems(2,3) same_treeD [OF s1] by simp_all
    have ent: "entry_path (w_fs w1) (d @ [?c]) = Inr (d @ [?c])"
      using entry_path_real wf1 temp_name_normal by blast
    have run: "matchM (sys_create_new (d @ [?c])) (\<lambda>_. okM (d @ [?c]))
        (\<lambda>e. if errno_kind e = KAlreadyExists then create_temp d n
             else failM (fs_error_from_io e)) w1 = (r, w')"
      using Suc.prems(1) rnd Inr by (simp add: bindM_def mapM_err_def Let_def)
    show ?thesis
    proof (cases g2)
      case (Inr u)
      then have tc: "tree_call (t_create (NFile []) (d @ [?c])) w1 = (Inr u, w2)"
        using cr by (simp add: sys_create_new_def)
      note eff = tree_call_Inr [OF tc]
      have "hm_get (w_fs w1) (d @ [?c]) = None"
        "w_fs w2 = hm_insert (d @ [?c]) (NFile []) (w_fs w1)"
        using eff(1) ent by (auto simp: t_create_Inr)
      moreover have "r = Inr (d @ [?c])" "w' = w2"
        using run cr Inr by (auto simp: matchM_def)
      moreover have "is_temp d (d @ [?c])" by (simp add: is_temp_def temp_prefix_def)
      ultimately show ?thesis
        using temp_name_normal [of rand] eff(2) s1 by (auto simp: same_tree_def)
    next
      case (Inl e)
      then have tc: "tree_call (t_create (NFile []) (d @ [?c])) w1 = (Inl e, w2)"
        using cr by (simp add: sys_create_new_def)
      have s2: "same_tree w w2"
        using tree_call_Inl(1) [OF tc] s1 same_tree.R_trans by blast
      show ?thesis
      proof (cases "errno_kind e = KAlreadyExists")
        case True
        then have rec: "create_temp d n w2 = (r, w')"
          using run cr Inl by (auto simp: matchM_def)
        have "w_fs w2 = w_fs w" "w_hist w2 = w_hist w" using s2 by (simp_all add: same_tree_def)
        then show ?thesis using Suc.IH [OF rec] Suc.prems(2,3) s2 same_tree.R_trans by auto
      next
        case False
        then show ?thesis using run cr Inl s2 by (auto simp: matchM_def)
      qed
    qed
  qed
qed

section \<open>The final rename\<close>

definition final_rename :: "bool \<Rightarrow> fpath \<Rightarrow> fpath \<Rightarrow> (fs_error, unit) comp" where
  "final_rename no_replace src dst =
     (if no_replace then rename_noreplace src dst else io (sys_rename src dst))"

lemma rename_noreplace_spec:
  assumes "rename_noreplace src dst w = (r, w')"
  shows "(\<exists>e. r = Inl e \<and> same_tree w w') \<or>
    (r = Inr () \<and> t_rename True src dst (w_fs w) = Inr (w_fs w') \<and> w_hist w' = w_hist w @ [w_fs w'])"
proof (cases "cstring_new (path_bytes src)")
  case (Inl e)
  then show ?thesis using assms by (auto simp: rename_noreplace_def bindM_def same_tree.R_refl)
next
  case (Inr a)
  show ?thesis
  proof (cases "cstring_new (path_bytes dst)")
    case (Inl e)
    then show ?thesis using assms Inr by (auto simp: rename_noreplace_def bindM_def same_tree.R_refl)
  next
    case (Inr b)
    obtain g w1 where call: "sys_renameat2_noreplace src dst w = (g, w1)" by fastforce
    then have tc: "tree_call (t_rename True src dst) w = (g, w1)"
      by (simp add: sys_renameat2_noreplace_def)
    show ?thesis
    proof (cases g)
      case (Inl e)
      then have "same_tree w w1" using tree_call_Inl(1) tc by blast
      then show ?thesis
        using assms call Inl Inr \<open>cstring_new (path_bytes src) = Inr a\<close>
        by (auto simp: rename_noreplace_def bindM_def matchM_def split: if_splits)
    next
      case (Inr u)
      then show ?thesis
        using assms call \<open>cstring_new (path_bytes src) = Inr a\<close> \<open>cstring_new (path_bytes dst) = Inr b\<close>
          tree_call_Inr [of "t_rename True src dst" w u w1] tc
        by (auto simp: rename_noreplace_def bindM_def matchM_def)
    qed
  qed
qed

lemma final_rename_spec:
  assumes "final_rename b src dst w = (r, w')"
  shows "(\<exists>e. r = Inl e \<and> same_tree w w') \<or>
    (r = Inr () \<and> t_rename b src dst (w_fs w) = Inr (w_fs w') \<and> w_hist w' = w_hist w @ [w_fs w'])"
proof (cases b)
  case True
  then show ?thesis using assms rename_noreplace_spec by (simp add: final_rename_def)
next
  case False
  obtain g w1 where tc: "tree_call (t_rename False src dst) w = (g, w1)" by fastforce
  then have "r = mapE fs_error_from_io g" "w' = w1"
    using assms False by (auto simp: final_rename_def io_def mapM_err_def sys_rename_def)
  then show ?thesis
    using tc tree_call_Inl(1) tree_call_Inr [of "t_rename False src dst" w _ w1] False
    by (cases g) auto
qed

section \<open>The atomic commit\<close>

lemma write_all_content:
  "sys_write_all p b w = (Inr u, w') \<Longrightarrow> hm_get (w_fs w') p = Some (NFile b)"
  by (auto simp: sys_write_all_def Let_def split: option.splits)

lemma touch_then_final:
  assumes "matchM (sys_stat d) (\<lambda>_. matchM sys_touch (\<lambda>_. m) (\<lambda>_. m)) (\<lambda>_. m) w = (r, w')"
  shows "\<exists>w1. same_tree w w1 \<and> m w1 = (r, w')"
proof -
  obtain g w1 where st: "sys_stat d w = (g, w1)" by fastforce
  have s1: "same_tree w w1" using same_tree.obeysD [OF obeys_stat st] .
  obtain g2 w2 where tch: "sys_touch w1 = (g2, w2)" by fastforce
  have s2: "same_tree w w2"
    using same_tree.obeysD [OF obeys_touch tch] s1 same_tree.R_trans by blast
  have "m w1 = (r, w') \<or> m w2 = (r, w')"
    using assms st tch by (auto simp: matchM_def split: sum.splits)
  then show ?thesis using s1 s2 by blast
qed

lemma write_and_rename_spec:
  assumes run: "write_and_rename d (d @ [c]) target content b w = (r, w')"
    and c: "normal_name c"
  shows "\<exists>w1. region_step {d} {d @ [c]} (\<lambda>q. q = d @ [c]) w w1 \<and>
    ((\<exists>e. r = Inl e \<and> same_tree w1 w') \<or>
     (r = Inr () \<and> hm_get (w_fs w1) (d @ [c]) = Some (NFile content) \<and>
      t_rename b (d @ [c]) target (w_fs w1) = Inr (w_fs w') \<and> w_hist w' = w_hist w1 @ [w_fs w']))"
proof -
  let ?tmp = "d @ [c]" and ?R = "region_step {d} {d @ [c]} (\<lambda>q. q = d @ [c])"
  obtain g1 w1 where wr: "sys_write_all ?tmp content w = (g1, w1)" by fastforce
  have R1: "?R w w1"
    using region.obeysD [OF obeys_write_all wr] c by simp
  show ?thesis
  proof (cases g1)
    case (Inl e)
    then have "r = Inl (fs_error_from_io e) \<and> w' = w1"
      using run wr by (auto simp: write_and_rename_def bindM_def io_def mapM_err_def)
    then show ?thesis using R1 same_tree.R_refl by blast
  next
    case (Inr u)
    obtain g2 w2 where tch: "sys_touch w1 = (g2, w2)" by fastforce
    have s2: "same_tree w1 w2" using same_tree.obeysD [OF obeys_touch tch] .
    show ?thesis
    proof (cases g2)
      case (Inl e)
      then have "r = Inl (fs_error_from_io e) \<and> w' = w2"
        using run wr tch Inr by (auto simp: write_and_rename_def bindM_def io_def mapM_err_def)
      then show ?thesis using R1 s2 by blast
    next
      case (Inr u2)
      have "matchM (sys_stat d) (\<lambda>_. matchM sys_touch (\<lambda>_. final_rename b ?tmp target)
          (\<lambda>_. final_rename b ?tmp target)) (\<lambda>_. final_rename b ?tmp target) w2 = (r, w')"
        using run wr tch \<open>g1 = Inr u\<close> Inr
        by (simp add: write_and_rename_def bindM_def io_def mapM_err_def final_rename_def)
      then obtain w3 where s3: "same_tree w2 w3" and fin: "final_rename b ?tmp target w3 = (r, w')"
        using touch_then_final by blast
      have s: "same_tree w1 w3" using s2 s3 same_tree.R_trans by blast
      then have R3: "?R w w3" using R1 region.R_same region.R_trans by blast
      have "hm_get (w_fs w3) ?tmp = Some (NFile content)"
        using write_all_content wr \<open>g1 = Inr u\<close> s by (simp add: same_tree_def)
      then show ?thesis using final_rename_spec [OF fin] R3 by blast
    qed
  qed
qed

lemma commit_rename:
  assumes good: "good {d} {d @ [a]} t" and nm: "normal_name a" "normal_name c" "a \<noteq> c"
    and src: "hm_get t (d @ [a]) = Some (NFile content)"
    and run: "t_rename b (d @ [a]) (d @ [c]) t = Inr t'"
  shows "wf_tree t' \<and> is_dir_node t' d \<and> hm_get t' (d @ [c]) = Some (NFile content) \<and>
    hm_get t' (d @ [a]) = None \<and>
    (\<forall>q. q \<noteq> d @ [a] \<longrightarrow> q \<noteq> d @ [c] \<longrightarrow> hm_get t' q = hm_get t q) \<and>
    (b \<longrightarrow> hm_get t (d @ [c]) = None) \<and> \<not> is_dir_node t (d @ [c])"
proof -
  have wf: "wf_tree t" and d: "is_dir_node t d" using good by (auto simp: good_def)
  have "t' = move_tree (d @ [a]) (d @ [c]) t" and al: "rename_allowed b t (d @ [a]) (d @ [c])"
    using run entry_path_real [OF wf d] nm by (auto simp: t_rename_Inr)
  then have t': "t' = move_tree (d @ [a]) (d @ [c]) t" by simp
  have disj: "\<not> prefix (d @ [c]) (d @ [a])" "\<not> prefix (d @ [a]) (d @ [c])" using nm(3) by auto
  note get = move_tree_get_disjoint [OF wf_tree_ok [OF wf] disj]
  have nd: "\<not> is_dir_node t (d @ [c])"
    using al src by (auto simp: rename_allowed_def is_dir_node_iff)
  have below: "hm_get t ((d @ [a]) @ x) = None" "hm_get t ((d @ [c]) @ x) = None" if "x \<noteq> []" for x
    using wf_tree_below_file [OF wf _ that, of "d @ [a]"]
      wf_tree_below_file [OF wf _ that, of "d @ [c]"] nd src by (simp_all add: is_dir_node_iff)
  have "hm_get t' q = hm_get t q" if q: "q \<noteq> d @ [a]" "q \<noteq> d @ [c]" for q
  proof -
    consider x where "q = (d @ [c]) @ x" "x \<noteq> []" | x where "q = (d @ [a]) @ x" "x \<noteq> []"
      | "\<not> prefix (d @ [c]) q" "\<not> prefix (d @ [a]) q"
      using q by (metis append_Nil2 prefix_def)
    then show ?thesis
    proof cases
      case 1
      then show ?thesis using below [of x] by (simp add: t' get)
    next
      case 2
      then show ?thesis using below [of x] disj nm(3) by (auto simp: t' get)
    next
      case 3
      then show ?thesis by (simp add: t' get)
    qed
  qed
  moreover have "wf_tree t'" unfolding t' using wf_tree_move [OF wf _ d nm(2) disj] by simp
  moreover have "is_dir_node t' d" using d by (simp add: is_dir_node_iff t' get)
  ultimately show ?thesis using src disj nd al
    by (auto simp: t' get rename_allowed_def)
qed

text \<open>
  What a commit does: every tree it passes through is well formed and differs from the first one
  at most in temporary files of the directory, until the rename puts the complete new content in
  place; success leaves no temporary file, failure leaves the target alone.
\<close>

definition pending :: "fpath \<Rightarrow> tree \<Rightarrow> tree \<Rightarrow> bool" where
  "pending d t t' \<longleftrightarrow> good {d} {} t' \<and> agree_outside (is_temp d) t t'"

definition committed :: "fpath \<Rightarrow> fpath \<Rightarrow> bytes \<Rightarrow> tree \<Rightarrow> tree \<Rightarrow> bool" where
  "committed d p content t t' \<longleftrightarrow>
     wf_tree t' \<and> is_dir_node t' d \<and> hm_get t' p = Some (NFile content) \<and>
     agree_outside (\<lambda>q. q = p) t t' \<and> \<not> is_dir_node t p"

text \<open>Everything reached from \<open>w\<close> on the way to \<open>w'\<close>: well formed, unchanged outside \<open>A\<close>.\<close>

definition confined :: "(fpath \<Rightarrow> bool) \<Rightarrow> world \<Rightarrow> world \<Rightarrow> bool" where
  "confined A w w' \<longleftrightarrow> (\<exists>h. w_hist w' = w_hist w @ h \<and>
     (\<forall>t \<in> set (w_fs w' # h). wf_tree t \<and> agree_outside A (w_fs w) t))"

lemma confined_same: "wf_tree (w_fs w) \<Longrightarrow> same_tree w w' \<Longrightarrow> confined A w w'"
  by (simp add: confined_def same_tree_def agree_refl)

lemma confined_trans: "confined A u v \<Longrightarrow> confined A v w \<Longrightarrow> confined A u w"
  unfolding confined_def by (fastforce dest: agree_trans)

lemma confined_mono: "confined A w w' \<Longrightarrow> (\<And>p. A p \<Longrightarrow> B p) \<Longrightarrow> confined B w w'"
  unfolding confined_def using agree_mono by blast

lemma confined_wf: "confined A w w' \<Longrightarrow> wf_tree (w_fs w')"
  by (auto simp: confined_def)

lemma atomic_commit_run:
  assumes run: "atomic_commit d target content b w = (r, w')"
    and good: "good {d} {} (w_fs w)"
  shows "(\<exists>e. r = Inl e \<and> same_tree w w') \<or>
    (\<exists>a w2 h. normal_name a \<and> is_temp d (d @ [a]) \<and> hm_get (w_fs w) (d @ [a]) = None \<and>
       w_hist w2 = w_hist w @ h \<and>
       (\<forall>t \<in> set (w_fs w2 # h). good {d} {d @ [a]} t \<and> agree_outside (\<lambda>q. q = d @ [a]) (w_fs w) t) \<and>
       ((\<exists>e. r = Inl e \<and> same_tree w2 w') \<or>
        (r = Inr () \<and> hm_get (w_fs w2) (d @ [a]) = Some (NFile content) \<and>
         t_rename b (d @ [a]) target (w_fs w2) = Inr (w_fs w') \<and> w_hist w' = w_hist w2 @ [w_fs w'])))"
proof -
  have wf: "wf_tree (w_fs w)" and d: "is_dir_node (w_fs w) d" using good by (auto simp: good_def)
  obtain g w1 where ct: "create_temp d MAX_TEMP_NAME_ATTEMPTS w = (g, w1)" by fastforce
  from create_temp_spec [OF ct wf d] consider (fail) e where "g = Inl e" "same_tree w w1"
    | (made) a where "g = Inr (d @ [a])" "normal_name a" "is_temp d (d @ [a])"
      "hm_get (w_fs w) (d @ [a]) = None" "w_fs w1 = hm_insert (d @ [a]) (NFile []) (w_fs w)"
      "w_hist w1 = w_hist w @ [w_fs w1]" by blast
  then show ?thesis
  proof cases
    case fail
    then show ?thesis using run ct by (auto simp: atomic_commit_def bindM_def)
  next
    case made
    let ?tmp = "d @ [a]" and ?A = "\<lambda>q. q = d @ [a]"
    have g1: "good {d} {?tmp} (w_fs w1)" and ag1: "agree_outside ?A (w_fs w) (w_fs w1)"
      using good_insert [OF good d made(2), of "NFile []"] made(4,5) d insert_agree
      by (auto simp: good_def is_dir_node_iff)
    obtain g2 w2 where wr: "write_and_rename d ?tmp target content b w1 = (g2, w2)" by fastforce
    obtain w3 where R: "region_step {d} {?tmp} ?A w1 w3"
      and out: "(\<exists>e. g2 = Inl e \<and> same_tree w3 w2) \<or>
       (g2 = Inr () \<and> hm_get (w_fs w3) ?tmp = Some (NFile content) \<and>
        t_rename b ?tmp target (w_fs w3) = Inr (w_fs w2) \<and> w_hist w2 = w_hist w3 @ [w_fs w2])"
      using write_and_rename_spec [OF wr made(2)] by blast
    have reach: "\<exists>h. w_hist v = w_hist w @ h \<and>
        (\<forall>t \<in> set (w_fs v # h). good {d} {?tmp} t \<and> agree_outside ?A (w_fs w) t)"
      if Rv: "region_step {d} {?tmp} ?A w1 v" for v
    proof -
      obtain h where "w_hist v = w_hist w1 @ h" and "\<And>t. t = w_fs v \<or> t \<in> set h \<Longrightarrow>
          good {d} {?tmp} t \<and> agree_outside ?A (w_fs w1) t"
        using region_stepD [OF Rv g1] by blast
      then show ?thesis using made(6) g1 ag1 agree_trans [OF ag1]
        by (intro exI [of _ "w_fs w1 # h"]) auto
    qed
    from out show ?thesis
    proof
      assume "\<exists>e. g2 = Inl e \<and> same_tree w3 w2"
      then obtain e where e: "g2 = Inl e" and s: "same_tree w3 w2" by blast
      have "matchM (sys_unlink ?tmp) (\<lambda>_. failM e) (\<lambda>_. failM e) w2 = (r, w')"
        using run ct made(1) wr e by (simp add: atomic_commit_def bindM_def matchM_def)
      then obtain g3 where un: "sys_unlink ?tmp w2 = (g3, w')" and r: "r = Inl e"
        by (auto simp: matchM_def split: prod.splits sum.splits)
      have "region_step {d} {?tmp} ?A w2 w'"
        using region.obeysD [OF obeys_unlink un, of "{d}" ?A "{?tmp}"] made(2) by simp
      then have "region_step {d} {?tmp} ?A w1 w'"
        using R region.R_same [OF s] region.R_trans by blast
      from reach [OF this] obtain h where "w_hist w' = w_hist w @ h"
        and "\<forall>t \<in> set (w_fs w' # h). good {d} {?tmp} t \<and> agree_outside ?A (w_fs w) t" by blast
      then show ?thesis using r made(2-4)
        by (intro disjI2 exI [of _ a] exI [of _ w'] exI [of _ h]) (simp add: same_tree.R_refl)
    next
      assume ok: "g2 = Inr () \<and> hm_get (w_fs w3) ?tmp = Some (NFile content) \<and>
        t_rename b ?tmp target (w_fs w3) = Inr (w_fs w2) \<and> w_hist w2 = w_hist w3 @ [w_fs w2]"
      then have "r = Inr ()" "w' = w2"
        using run ct made(1) wr by (auto simp: atomic_commit_def bindM_def matchM_def)
      moreover obtain h where "w_hist w3 = w_hist w @ h"
        and "\<forall>t \<in> set (w_fs w3 # h). good {d} {?tmp} t \<and> agree_outside ?A (w_fs w) t"
        using reach [OF R] by blast
      ultimately show ?thesis using ok made(2-4)
        by (intro disjI2 exI [of _ a] exI [of _ w3] exI [of _ h]) simp
    qed
  qed
qed

lemma atomic_commit_spec:
  assumes run: "atomic_commit d (d @ [c]) content b w = (r, w')"
    and good: "good {d} {} (w_fs w)" and c: "normal_name c" "\<not> is_temp d (d @ [c])"
  shows "\<exists>h. (\<forall>t \<in> set h. pending d (w_fs w) t) \<and>
    ((\<exists>e. r = Inl e \<and> w_hist w' = w_hist w @ h \<and> pending d (w_fs w) (w_fs w')) \<or>
     (r = Inr () \<and> w_hist w' = w_hist w @ h @ [w_fs w'] \<and>
      committed d (d @ [c]) content (w_fs w) (w_fs w')))"
  using atomic_commit_run [OF run good]
proof
  assume "\<exists>e. r = Inl e \<and> same_tree w w'"
  then show ?thesis
    by (intro exI [of _ "[]"]) (auto simp: same_tree_def pending_def good agree_refl)
next
  assume "\<exists>a w2 h. normal_name a \<and> is_temp d (d @ [a]) \<and> hm_get (w_fs w) (d @ [a]) = None \<and>
       w_hist w2 = w_hist w @ h \<and>
       (\<forall>t \<in> set (w_fs w2 # h). good {d} {d @ [a]} t \<and> agree_outside (\<lambda>q. q = d @ [a]) (w_fs w) t) \<and>
       ((\<exists>e. r = Inl e \<and> same_tree w2 w') \<or>
        (r = Inr () \<and> hm_get (w_fs w2) (d @ [a]) = Some (NFile content) \<and>
         t_rename b (d @ [a]) (d @ [c]) (w_fs w2) = Inr (w_fs w') \<and> w_hist w' = w_hist w2 @ [w_fs w']))"
  then obtain a w2 h where a: "normal_name a" "is_temp d (d @ [a])" "hm_get (w_fs w) (d @ [a]) = None"
    and h: "w_hist w2 = w_hist w @ h"
    and ht: "\<forall>t \<in> set (w_fs w2 # h). good {d} {d @ [a]} t \<and> agree_outside (\<lambda>q. q = d @ [a]) (w_fs w) t"
    and out: "(\<exists>e. r = Inl e \<and> same_tree w2 w') \<or>
        (r = Inr () \<and> hm_get (w_fs w2) (d @ [a]) = Some (NFile content) \<and>
         t_rename b (d @ [a]) (d @ [c]) (w_fs w2) = Inr (w_fs w') \<and> w_hist w' = w_hist w2 @ [w_fs w'])"
    by blast
  have pend: "\<forall>t \<in> set (w_fs w2 # h). pending d (w_fs w) t"
    using ht a(2) agree_mono good_mono [of "{d}" "{d @ [a]}" _ "{d}" "{}"]
    by (fastforce simp: pending_def)
  have ac: "a \<noteq> c" using a(2) c(2) by auto
  from out show ?thesis
  proof
    assume ok: "r = Inr () \<and> hm_get (w_fs w2) (d @ [a]) = Some (NFile content) \<and>
         t_rename b (d @ [a]) (d @ [c]) (w_fs w2) = Inr (w_fs w') \<and> w_hist w' = w_hist w2 @ [w_fs w']"
    have g2: "good {d} {d @ [a]} (w_fs w2)" and ag2: "agree_outside (\<lambda>q. q = d @ [a]) (w_fs w) (w_fs w2)"
      using ht by auto
    note ren = commit_rename [OF g2 a(1) c(1) ac, of content b "w_fs w'"]
    have old: "hm_get (w_fs w2) q = hm_get (w_fs w) q" if "q \<noteq> d @ [a]" for q
      using that ag2 by (auto simp: agree_outside_def)
    have "hm_get (w_fs w') q = hm_get (w_fs w) q" if "q \<noteq> d @ [c]" for q
      using that ren ok old a(3) by (cases "q = d @ [a]") simp_all
    then have "committed d (d @ [c]) content (w_fs w) (w_fs w')"
      using ren ok old ac by (auto simp: committed_def agree_outside_def is_dir_node_iff)
    then show ?thesis using ok h pend by (intro exI [of _ h]) auto
  qed (use h pend in \<open>auto simp: same_tree_def\<close>)
qed

text \<open>Confinement needs no assumption on the names.\<close>

lemma atomic_commit_confined:
  assumes run: "atomic_commit d (d @ [c]) content b w = (r, w')"
    and good: "good {d} {} (w_fs w)" and c: "normal_name c"
  shows "confined (\<lambda>q. \<exists>x. q = d @ [x]) w w'"
  using atomic_commit_run [OF run good]
proof
  assume "\<exists>e. r = Inl e \<and> same_tree w w'"
  then show ?thesis using good confined_same by (auto simp: good_def)
next
  let ?A = "\<lambda>q. \<exists>x. q = d @ [x]"
  assume "\<exists>a w2 h. normal_name a \<and> is_temp d (d @ [a]) \<and> hm_get (w_fs w) (d @ [a]) = None \<and>
       w_hist w2 = w_hist w @ h \<and>
       (\<forall>t \<in> set (w_fs w2 # h). good {d} {d @ [a]} t \<and> agree_outside (\<lambda>q. q = d @ [a]) (w_fs w) t) \<and>
       ((\<exists>e. r = Inl e \<and> same_tree w2 w') \<or>
        (r = Inr () \<and> hm_get (w_fs w2) (d @ [a]) = Some (NFile content) \<and>
         t_rename b (d @ [a]) (d @ [c]) (w_fs w2) = Inr (w_fs w') \<and> w_hist w' = w_hist w2 @ [w_fs w']))"
  then obtain a w2 h where a: "normal_name a" and h: "w_hist w2 = w_hist w @ h"
    and ht: "\<forall>t \<in> set (w_fs w2 # h). good {d} {d @ [a]} t \<and> agree_outside (\<lambda>q. q = d @ [a]) (w_fs w) t"
    and out: "same_tree w2 w' \<or> (hm_get (w_fs w2) (d @ [a]) = Some (NFile content) \<and>
         t_rename b (d @ [a]) (d @ [c]) (w_fs w2) = Inr (w_fs w') \<and> w_hist w' = w_hist w2 @ [w_fs w'])"
    by blast
  have c2: "confined ?A w w2"
    using h ht agree_mono [of "\<lambda>q. q = d @ [a]" "w_fs w" _ ?A]
    by (fastforce simp: confined_def good_def)
  have g2: "good {d} {d @ [a]} (w_fs w2)" using ht by simp
  have "confined ?A w2 w'"
    using out
  proof
    assume ok: "hm_get (w_fs w2) (d @ [a]) = Some (NFile content) \<and>
         t_rename b (d @ [a]) (d @ [c]) (w_fs w2) = Inr (w_fs w') \<and> w_hist w' = w_hist w2 @ [w_fs w']"
    have "wf_tree (w_fs w') \<and> agree_outside ?A (w_fs w2) (w_fs w')"
    proof (cases "a = c")
      case True
      then have "w_fs w' = w_fs w2" using ok by (auto simp: t_rename_Inr)
      then show ?thesis using g2 by (simp add: good_def agree_refl)
    next
      case False
      then show ?thesis using commit_rename [OF g2 a c False, of content b "w_fs w'"] ok
        by (auto simp: agree_outside_def)
    qed
    then show ?thesis using ok by (simp add: confined_def)
  qed (use confined_same g2 in \<open>auto simp: good_def\<close>)
  then show ?thesis using c2 confined_trans by blast
qed

section \<open>Writing a file\<close>

definition inside :: "filesystem_config \<Rightarrow> fpath \<Rightarrow> bool" where
  "inside cfg q \<longleftrightarrow> (\<exists>root \<in> set (fc_allowed_roots cfg). strict_prefix root q)"

lemma abs_parent_normal:
  assumes "normal_name c" and "\<And>x. x \<in> set d \<Longrightarrow> normal_name x"
  shows "abs_parent (d @ [c]) = Some d"
proof -
  have td: "trim_dots xs = xs" if "\<And>x. x \<in> set xs \<Longrightarrow> normal_name x" for xs
    using that by (cases xs rule: rev_cases) (auto simp: trim_dots_def normal_name_def)
  have "trim_dots (d @ [c]) = d @ [c]" "trim_dots d = d" using assms by (auto intro!: td)
  then show ?thesis by (simp add: abs_parent_def)
qed

lemma metadata_lookup:
  assumes "wf_tree (w_fs w)" and "sys_lstat p w = (Inr meta, w')" and "walk_end (w_fs w) False p"
  shows "\<exists>n. hm_get (w_fs w) p = Some n \<and> md_kind meta = node_kind n \<and> md_len meta = node_len (w_dirlen w) p n"
proof -
  obtain n where n: "hm_get (w_fs w) p = Some n" using assms(3) by (auto simp: walk_end_def)
  have "real_path_no_follow (w_fs w) p = Inr p"
    using real_path_no_follow_canonical [OF assms(1) n] .
  then show ?thesis
    using assms(2) n by (auto simp: sys_lstat_def syscall_Inr metadata_of_def)
qed

lemma obeys_check_target:
  "same_tree.obeys (check_target bl cfg path p overwrite expected)"
  unfolding check_target_def
  by (auto intro!: same_tree.obeys_intros obeys_looking split: option.split)

definition target_ok ::
  "(bytes \<Rightarrow> string) \<Rightarrow> filesystem_config \<Rightarrow> tree \<Rightarrow> fpath \<Rightarrow> bool \<Rightarrow> string option \<Rightarrow> bool" where
  "target_ok bl cfg t p overwrite expected \<longleftrightarrow>
     \<not> is_dir_node t p \<and> (hm_get t p \<noteq> None \<longrightarrow> overwrite) \<and>
     (\<forall>h. expected = Some h \<longrightarrow> hm_get t p \<noteq> None \<and>
        (\<forall>b. hm_get t p = Some (NFile b) \<longrightarrow>
           bl b = to_ascii_lowercase h \<and> length b \<le> fc_max_file_bytes cfg))"

lemma check_target_Ok:
  assumes wf: "wf_tree (w_fs w)" and place: "p = d @ [c]" "is_dir_node (w_fs w) d" "normal_name c"
    and run: "check_target bl cfg path p overwrite expected w = (Inr u, w')"
  shows "target_ok bl cfg (w_fs w) p overwrite expected"
proof -
  obtain g w1 where st: "sys_lstat p w = (g, w1)" by fastforce
  have fs1: "w_fs w1 = w_fs w" using same_tree.obeysD [OF obeys_lstat st] by (rule same_treeD)
  have res: "real_path_no_follow (w_fs w) p =
      (if hm_get (w_fs w) p = None then Inl ENOENT else Inr p)"
    using walk_through_dir [OF wf, of "[]" d SYMLINK_LIMIT False "[c]"] place
    by (auto simp: real_path_no_follow_def normal_name_def is_dir_node_iff split: option.splits node.splits)
  show ?thesis
  proof (cases g)
    case (Inl e)
    then have "e = ENOENT" and none: "expected = None"
      using run st by (auto simp: check_target_def matchM_def is_not_found_def split: if_splits)
    then have "hm_get (w_fs w) p = None"
      using st Inl res by (auto simp: sys_lstat_def syscall_Inl metadata_of_def split: if_splits option.splits)
    then show ?thesis using none by (simp add: target_ok_def is_dir_node_iff)
  next
    case (Inr meta)
    then have "hm_get (w_fs w) p \<noteq> None"
      using st res by (auto simp: sys_lstat_def syscall_Inr split: if_splits)
    then have "walk_end (w_fs w) False p" by (simp add: walk_end_def)
    then obtain n where n: "hm_get (w_fs w) p = Some n" "md_kind meta = node_kind n"
      "md_len meta = node_len (w_dirlen w) p n"
      using metadata_lookup [OF wf] st Inr by blast
    have kind: "md_kind meta \<noteq> KDir" and ow: "overwrite"
      using run st Inr by (auto simp: check_target_def matchM_def split: if_splits)
    have "bl b = to_ascii_lowercase h \<and> length b \<le> fc_max_file_bytes cfg"
      if ex: "expected = Some h" and b: "hm_get (w_fs w) p = Some (NFile b)"
      for h b
    proof -
      obtain g2 w2 where rd: "sys_read p w1 = (g2, w2)" by fastforce
      have "length b \<le> fc_max_file_bytes cfg" and g2: "g2 = Inr x \<Longrightarrow> bl x = to_ascii_lowercase h"
        and "\<exists>x. g2 = Inr x" for x
        using run st Inr kind ow ex rd n b
        by (auto simp: check_target_def matchM_def bindM_def mapM_err_def mapE_def hash_bytes_def
            split: if_splits sum.splits)
      moreover have rp: "real_path (w_fs w) p = Inr p"
        using real_path_canonical [OF wf b] by simp
      then have "g2 = Inr x \<Longrightarrow> x = b" for x
        using rd rp b fs1 by (auto simp: sys_read_def syscall_Inr node_content_def)
      ultimately show ?thesis by blast
    qed
    then show ?thesis using n kind ow by (cases n) (auto simp: target_ok_def is_dir_node_iff)
  qed
qed

lemma resolved_parent_dir:
  assumes "wf_tree t" and "resolved t cfg (d @ [c])"
  shows "is_dir_node t d"
proof (cases "existing t cfg (d @ [c])")
  case True
  then obtain n where "hm_get t (d @ [c]) = Some n" by (auto simp: existing_def walk_end_def)
  then show ?thesis by (rule wf_tree_parent(1) [OF assms(1)])
next
  case False
  then show ?thesis using assms(2) by (auto simp: resolved_def new_name_def)
qed

lemma resolved_parent_under:
  "resolved t cfg (d @ [c]) \<Longrightarrow> \<not> is_dir_node t (d @ [c]) \<Longrightarrow> under_roots cfg d"
  by (auto simp: resolved_def existing_def new_name_def)

text \<open>The commit and the final \<open>stat\<close>.\<close>

definition commit_stage ::
  "(bytes \<Rightarrow> string) \<Rightarrow> fpath \<Rightarrow> fpath \<Rightarrow> bytes \<Rightarrow> bool \<Rightarrow> (fs_error, file_metadata) comp" where
  "commit_stage bl d p content no_replace =
     bindM (atomic_commit d p content no_replace) (\<lambda>_.
     bindM (io (sys_stat p)) (\<lambda>meta. okM (with_content_hash bl (make_metadata meta) content)))"

lemma commit_stage_run:
  assumes "commit_stage bl d p content b w = (r, w')"
  shows "\<exists>g w1. atomic_commit d p content b w = (g, w1) \<and> same_tree w1 w' \<and>
    (\<forall>e. g = Inl e \<longrightarrow> r = Inl e) \<and>
    (\<forall>md. r = Inr md \<longrightarrow> g = Inr () \<and> (\<exists>meta. sys_stat p w1 = (Inr meta, w') \<and>
       md = with_content_hash bl (make_metadata meta) content))"
proof -
  obtain g w1 where com: "atomic_commit d p content b w = (g, w1)" by fastforce
  obtain g2 w2 where st: "sys_stat p w1 = (g2, w2)" by fastforce
  have s: "same_tree w1 w2" using same_tree.obeysD [OF obeys_stat st] .
  have "(g = Inr () \<and> w' = w2 \<or> w' = w1) \<and> (\<forall>e. g = Inl e \<longrightarrow> r = Inl e) \<and>
    (\<forall>md. r = Inr md \<longrightarrow> g = Inr () \<and> w' = w2 \<and> (\<exists>meta. g2 = Inr meta \<and>
       md = with_content_hash bl (make_metadata meta) content))"
    using assms com st
    by (cases g; cases g2) (auto simp: commit_stage_def bindM_def io_def mapM_err_def)
  then show ?thesis using com st s same_tree.R_refl by (intro exI [of _ g] exI [of _ w1]) auto
qed

text \<open>The shape of a run of \<open>write_file\<close>: either the tree is untouched, or the commit ran.\<close>

lemma write_file_stages:
  assumes wf: "wf_tree (w_fs w)" and ok: "cfg_ok cfg"
    and run: "fs_write_file bl cfg path content overwrite expected w = (r, w')"
    and small: "length content \<le> fc_max_file_bytes cfg"
  shows "(\<exists>e. r = Inl e \<and> same_tree w w') \<or>
    (\<exists>d c w1 w2 w3 u. fs_resolve cfg path w = (Inr (d @ [c]), w1) \<and>
       check_target bl cfg path (d @ [c]) overwrite expected w1 = (Inr u, w2) \<and>
       same_tree w w3 \<and> commit_stage bl d (d @ [c]) content (\<not> overwrite) w3 = (r, w'))"
proof -
  obtain g1 w1 where res: "fs_resolve cfg path w = (g1, w1)" by fastforce
  have s1: "same_tree w w1" using resolve_same [OF res] .
  show ?thesis
  proof (cases g1)
    case (Inl e)
    then show ?thesis using run res small s1 by (auto simp: fs_write_file_def bindM_def)
  next
    case p: (Inr p)
    obtain g2 w2 where chk: "check_target bl cfg path p overwrite expected w1 = (g2, w2)" by fastforce
    have s2: "same_tree w w2"
      using same_tree.obeysD [OF obeys_check_target chk] s1 same_tree.R_trans by blast
    show ?thesis
    proof (cases "(\<exists>e. g2 = Inl e) \<or> p = []")
      case True
      then show ?thesis using run res chk p small s2
        by (cases g2) (auto simp: fs_write_file_def bindM_def abs_parent_def trim_dots_def)
    next
      case False
      then obtain u d c where u: "g2 = Inr u" and dc: "p = d @ [c]"
        by (cases g2; cases p rule: rev_cases) auto
      have rp: "resolved (w_fs w) cfg p" using resolve_Ok_resolved [OF wf ok] res p by blast
      have par: "abs_parent p = Some d"
        using abs_parent_normal [of c d] resolved_names [OF wf rp] dc by simp
      obtain g3 w3 where st: "sys_stat d w2 = (g3, w3)" by fastforce
      have s3: "same_tree w w3"
        using same_tree.obeysD [OF obeys_stat st] s2 same_tree.R_trans by blast
      show ?thesis
      proof (cases g3)
        case (Inl e)
        then show ?thesis using run res chk p u small par st s3
          by (auto simp: fs_write_file_def bindM_def mapM_err_def)
      next
        case (Inr m)
        then have "commit_stage bl d p content (\<not> overwrite) w3 = (r, w')"
          using run res chk p u small par st
          by (simp add: fs_write_file_def bindM_def mapM_err_def commit_stage_def)
        then show ?thesis using res chk p u dc s3 by blast
      qed
    qed
  qed
qed

text \<open>
  When the commit ran: the target is a new or replaceable entry of a real directory under a root.
\<close>

definition writable ::
  "(bytes \<Rightarrow> string) \<Rightarrow> filesystem_config \<Rightarrow> tree \<Rightarrow> fpath \<Rightarrow> string \<Rightarrow> bool \<Rightarrow> string option \<Rightarrow> bool" where
  "writable bl cfg t d c overwrite expected \<longleftrightarrow>
     is_dir_node t d \<and> under_roots cfg d \<and> normal_name c \<and>
     target_ok bl cfg t (d @ [c]) overwrite expected"

lemma write_file_run:
  assumes wf: "wf_tree (w_fs w)" and ok: "cfg_ok cfg"
    and run: "fs_write_file bl cfg path content overwrite expected w = (r, w')"
  shows "(\<exists>e. r = Inl e \<and> same_tree w w') \<or>
    (\<exists>d c w1 w3. fs_resolve cfg path w = (Inr (d @ [c]), w1) \<and>
       length content \<le> fc_max_file_bytes cfg \<and> writable bl cfg (w_fs w) d c overwrite expected \<and>
       same_tree w w3 \<and> commit_stage bl d (d @ [c]) content (\<not> overwrite) w3 = (r, w'))"
proof (cases "length content \<le> fc_max_file_bytes cfg")
  case False
  then show ?thesis using run by (auto simp: fs_write_file_def same_tree.R_refl)
next
  case small: True
  from write_file_stages [OF wf ok run small] show ?thesis
  proof
    assume "\<exists>d c w1 w2 w3 u. fs_resolve cfg path w = (Inr (d @ [c]), w1) \<and>
       check_target bl cfg path (d @ [c]) overwrite expected w1 = (Inr u, w2) \<and>
       same_tree w w3 \<and> commit_stage bl d (d @ [c]) content (\<not> overwrite) w3 = (r, w')"
    then obtain d c w1 w2 w3 u where res: "fs_resolve cfg path w = (Inr (d @ [c]), w1)"
      and chk: "check_target bl cfg path (d @ [c]) overwrite expected w1 = (Inr u, w2)"
      and st: "same_tree w w3" "commit_stage bl d (d @ [c]) content (\<not> overwrite) w3 = (r, w')"
      by blast
    have rp: "resolved (w_fs w) cfg (d @ [c])" using resolve_Ok_resolved [OF wf ok res] .
    have d: "is_dir_node (w_fs w) d" and c: "normal_name c"
      using resolved_parent_dir [OF wf rp] resolved_names [OF wf rp, of c] by simp_all
    have "w_fs w1 = w_fs w" using resolve_same [OF res] by (rule same_treeD)
    then have tok: "target_ok bl cfg (w_fs w) (d @ [c]) overwrite expected"
      using check_target_Ok [OF _ refl _ c chk] wf d by simp
    then have "writable bl cfg (w_fs w) d c overwrite expected"
      using d c resolved_parent_under [OF rp] by (simp add: writable_def target_ok_def)
    then show ?thesis using res small st by blast
  qed blast
qed

lemma inside_entry: "under_roots cfg d \<Longrightarrow> inside cfg (d @ [c])"
  by (auto simp: inside_def under_roots_def) (metis prefix_order.le_less_trans prefixI
      prefix_snocD strict_prefixI')

lemma commit_stage_spec:
  assumes run: "commit_stage bl d (d @ [c]) content b w = (r, w')"
    and good: "good {d} {} (w_fs w)" and c: "normal_name c" "\<not> is_temp d (d @ [c])"
  shows "\<exists>h. w_hist w' = w_hist w @ h \<and>
    (\<forall>t \<in> set (w_fs w' # h). pending d (w_fs w) t \<or> committed d (d @ [c]) content (w_fs w) t) \<and>
    (\<forall>md. r = Inr md \<longrightarrow> committed d (d @ [c]) content (w_fs w) (w_fs w') \<and>
       fm_hash md = Some (bl content) \<and> fm_size md = length content \<and> fm_is_file md)"
proof -
  obtain g w1 where com: "atomic_commit d (d @ [c]) content b w = (g, w1)" and s: "same_tree w1 w'"
    and rg: "\<And>md. r = Inr md \<Longrightarrow> g = Inr () \<and> (\<exists>meta. sys_stat (d @ [c]) w1 = (Inr meta, w') \<and>
       md = with_content_hash bl (make_metadata meta) content)"
    using commit_stage_run [OF run] by blast
  have fs: "w_fs w' = w_fs w1" "w_hist w' = w_hist w1" using s by (simp_all add: same_tree_def)
  obtain h where ph: "\<forall>t \<in> set h. pending d (w_fs w) t"
    and out: "(\<exists>e. g = Inl e \<and> w_hist w1 = w_hist w @ h \<and> pending d (w_fs w) (w_fs w1)) \<or>
     (g = Inr () \<and> w_hist w1 = w_hist w @ h @ [w_fs w1] \<and>
      committed d (d @ [c]) content (w_fs w) (w_fs w1))"
    using atomic_commit_spec [OF com good c] by blast
  from out show ?thesis
  proof
    assume "\<exists>e. g = Inl e \<and> w_hist w1 = w_hist w @ h \<and> pending d (w_fs w) (w_fs w1)"
    then show ?thesis using ph fs rg by (intro exI [of _ h]) auto
  next
    assume a: "g = Inr () \<and> w_hist w1 = w_hist w @ h @ [w_fs w1] \<and>
      committed d (d @ [c]) content (w_fs w) (w_fs w1)"
    have "fm_hash md = Some (bl content) \<and> fm_size md = length content \<and> fm_is_file md"
      if rm: "r = Inr md" for md
    proof -
      obtain meta where st: "sys_stat (d @ [c]) w1 = (Inr meta, w')"
        and md: "md = with_content_hash bl (make_metadata meta) content"
        using rg [OF rm] by blast
      have n: "hm_get (w_fs w1) (d @ [c]) = Some (NFile content)" and wf: "wf_tree (w_fs w1)"
        using a by (auto simp: committed_def)
      have "md_kind meta = KFile \<and> md_len meta = length content"
        using st real_path_canonical [OF wf n] n
        by (auto simp: sys_stat_def syscall_Inr metadata_of_def)
      then show ?thesis by (simp add: md with_content_hash_def make_metadata_def hash_bytes_def)
    qed
    then show ?thesis using a ph fs by (intro exI [of _ "h @ [w_fs w1]"]) auto
  qed
qed



text \<open>
  Claim C11.  Writing is atomic: at every moment the target holds its old content or the complete
  new content, never a part of it.  When the write succeeds the target holds exactly the new
  content, nothing else has changed (no temporary file is left), the returned metadata carries its
  digest, an existing target was replaced only with \<open>overwrite\<close>, and a given \<open>expected_hash\<close> was
  the digest of what was replaced.
\<close>

theorem write_file_atomic:
  assumes "wf_tree (w_fs w)" and "cfg_ok cfg"
    and "fs_write_file bl cfg path content overwrite expected w = (r, w')"
    and "fs_resolve cfg path w = (Inr p, w1)" and "\<not> prefix temp_prefix (last p)"
  shows "(\<exists>h. w_hist w' = w_hist w @ h \<and>
      (\<forall>t \<in> set (w_fs w' # h). hm_get t p \<in> {hm_get (w_fs w) p, Some (NFile content)})) \<and>
    (\<forall>md. r = Inr md \<longrightarrow>
      hm_get (w_fs w') p = Some (NFile content) \<and> agree_outside (\<lambda>q. q = p) (w_fs w) (w_fs w') \<and>
      fm_hash md = Some (bl content) \<and> fm_size md = length content \<and>
      target_ok bl cfg (w_fs w) p overwrite expected)"
  using write_file_run [OF assms(1-3)]
proof
  assume "\<exists>d c w1 w3. fs_resolve cfg path w = (Inr (d @ [c]), w1) \<and>
       length content \<le> fc_max_file_bytes cfg \<and> writable bl cfg (w_fs w) d c overwrite expected \<and>
       same_tree w w3 \<and> commit_stage bl d (d @ [c]) content (\<not> overwrite) w3 = (r, w')"
  then obtain d c w3 where p: "p = d @ [c]" and s: "same_tree w w3"
    and wr: "writable bl cfg (w_fs w) d c overwrite expected"
    and com: "commit_stage bl d (d @ [c]) content (\<not> overwrite) w3 = (r, w')"
    using assms(4) by auto
  have fs: "w_fs w3 = w_fs w" "w_hist w3 = w_hist w" using s by (simp_all add: same_tree_def)
  have nc: "normal_name c" and good: "good {d} {} (w_fs w3)"
    using wr assms(1) fs by (auto simp: writable_def good_def)
  have nt: "\<not> is_temp d (d @ [c])" using assms(5) p by (simp add: is_temp_def)
  have "hm_get t p \<in> {hm_get (w_fs w) p, Some (NFile content)}"
    if "pending d (w_fs w) t \<or> committed d (d @ [c]) content (w_fs w) t" for t
    using that nt by (auto simp: pending_def committed_def agree_outside_def p)
  moreover have "target_ok bl cfg (w_fs w) p overwrite expected"
    using wr by (simp add: writable_def p)
  ultimately show ?thesis
    using commit_stage_spec [OF com good nc nt] fs p
    by (simp add: committed_def) blast
qed (auto simp: same_tree_def)

theorem write_file_atomic_witness:
  "hm_get (w_fs (snd (fs_write_file (\<lambda>_. []) sample_cfg ''a'' [5] True None sample_world)))
     [''srv'', ''a''] = Some (NFile [5])"
proof -
  let ?run = "fs_write_file (\<lambda>_. []) sample_cfg ''a'' [5] True None sample_world"
  let ?md = "\<lparr> fm_size = 1, fm_modified_at = None, fm_is_dir = False, fm_is_file = True,
    fm_hash = Some [] \<rparr> :: file_metadata"
  have ok: "fst ?run = Inr ?md" by code_simp
  have res: "fst (fs_resolve sample_cfg ''a'' sample_world) = Inr [''srv'', ''a'']" by code_simp
  show ?thesis
    using write_file_atomic [of sample_world sample_cfg "\<lambda>_. []" "''a''" "[5]" True None "Inr ?md" "snd ?run"
      "[''srv'', ''a'']" "snd (fs_resolve sample_cfg ''a'' sample_world)"]
      sample_tree_wf sample_cfg_ok ok res
    by (simp add: sample_world_def temp_prefix_def prod_eq_iff)
qed

end
