(* ===== verification/FsOps.thy ===== *)
theory FsOps
  imports FsWrite
begin

text \<open>
  Deletion, renaming, directory creation and reading: what a successful call did, and that a
  failed or hostile one cannot reach outside the allowed roots.
\<close>

section \<open>Deletion\<close>

lemma io_run: "io m w = (r, w') \<longleftrightarrow> (\<exists>g. m w = (g, w') \<and> r = mapE fs_error_from_io g)"
  by (auto simp: io_def mapM_err_def split: prod.splits)

lemma map_err_run: "mapM_err h m w = (r, w') \<longleftrightarrow> (\<exists>g. m w = (g, w') \<and> r = mapE h g)"
  by (auto simp: mapM_err_def split: prod.splits)

lemma lstat_entry:
  assumes wf: "wf_tree (w_fs w)" and under: "entry_under (w_fs w) cfg p"
    and st: "sys_lstat p w = (Inr meta, w')"
  shows "\<exists>d c n. p = d @ [c] \<and> is_dir_node (w_fs w) d \<and> normal_name c \<and> under_roots cfg d \<and>
    hm_get (w_fs w) p = Some n \<and> md_kind meta = node_kind n \<and> md_len meta = node_len (w_dirlen w) p n"
proof -
  obtain d c where p: "p = d @ [c]" and d: "walk_end (w_fs w) True d" and c: "normal_name c"
    and u: "under_roots cfg d"
    using under by (auto simp: entry_under_def)
  have rp: "real_path_no_follow (w_fs w) p = walk (w_fs w) SYMLINK_LIMIT False d [c]"
  proof -
    have "walk (w_fs w) SYMLINK_LIMIT False [] (d @ [c]) = walk (w_fs w) SYMLINK_LIMIT False d [c]"
    proof (cases "is_dir_node (w_fs w) d")
      case True
      then show ?thesis using walk_through_dir [OF wf, of "[]" d] by simp
    next
      case False
      have "real_path (w_fs w) d = Inr d" using real_path_fixed [OF wf d] .
      then obtain b where "\<And>ys f. ys \<noteq> [] \<or> f \<Longrightarrow>
          walk (w_fs w) SYMLINK_LIMIT f [] (d @ ys) = walk (w_fs w) b f d ys"
        using walk_append [of "w_fs w" SYMLINK_LIMIT "[]" d d] by (auto simp: real_path_def)
      then show ?thesis using False by simp
    qed
    then show ?thesis by (simp add: real_path_no_follow_def p)
  qed
  have ok: "\<exists>q. real_path_no_follow (w_fs w) p = Inr q"
    using st by (auto simp: sys_lstat_def syscall_Inr bindE_Inr_iff)
  then have dir: "is_dir_node (w_fs w) d" using rp by (auto split: if_splits)
  have "hm_get (w_fs w) p \<noteq> None"
    using ok rp dir c by (auto simp: p normal_name_def split: option.splits)
  then have "walk_end (w_fs w) False p" by (simp add: walk_end_def)
  from metadata_lookup [OF wf st this] show ?thesis using p dir c u by blast
qed

lemma sys_unlink_real:
  assumes "wf_tree (w_fs w)" and "is_dir_node (w_fs w) d" and "normal_name c"
    and "sys_unlink (d @ [c]) w = (g, w')"
  shows "(\<exists>e. g = Inl e \<and> same_tree w w') \<or>
    (\<exists>u. g = Inr u \<and> w_fs w' = hm_remove (d @ [c]) (w_fs w) \<and> w_hist w' = w_hist w @ [w_fs w'])"
proof (cases g)
  case (Inl e)
  then show ?thesis using assms(4) tree_call_Inl(1) by (auto simp: sys_unlink_def)
next
  case (Inr u)
  then have tc: "tree_call (t_unlink (d @ [c])) w = (Inr u, w')" using assms(4) by (simp add: sys_unlink_def)
  show ?thesis using tree_call_Inr [OF tc] entry_path_real [OF assms(1-3)] Inr by (auto simp: t_unlink_Inr)
qed

lemma sys_rmdir_real:
  assumes "wf_tree (w_fs w)" and "is_dir_node (w_fs w) d" and "normal_name c"
    and "sys_rmdir (d @ [c]) w = (g, w')"
  shows "(\<exists>e. g = Inl e \<and> same_tree w w') \<or>
    (\<exists>u. g = Inr u \<and> is_empty_dir (w_fs w) (d @ [c]) \<and> w_fs w' = hm_remove (d @ [c]) (w_fs w) \<and>
       w_hist w' = w_hist w @ [w_fs w'])"
proof (cases g)
  case (Inl e)
  then show ?thesis using assms(4) tree_call_Inl(1) by (auto simp: sys_rmdir_def)
next
  case (Inr u)
  then have tc: "tree_call (t_rmdir (d @ [c])) w = (Inr u, w')" using assms(4) by (simp add: sys_rmdir_def)
  show ?thesis using tree_call_Inr [OF tc] entry_path_real [OF assms(1-3)] Inr by (auto simp: t_rmdir_Inr)
qed

text \<open>What \<open>delete_path\<close> may remove: a file, a link, or a directory without entries.\<close>

definition deletable :: "tree \<Rightarrow> fpath \<Rightarrow> bool" where
  "deletable t p \<longleftrightarrow>
     (case hm_get t p of
        Some (NFile _) \<Rightarrow> True
      | Some (NSymlink _) \<Rightarrow> True
      | Some NDir \<Rightarrow> is_empty_dir t p
      | _ \<Rightarrow> False)"

text \<open>The last stage of \<open>delete_path\<close>, for an entry of a real directory.\<close>

definition delete_stage :: "string \<Rightarrow> fpath \<Rightarrow> os_metadata \<Rightarrow> (fs_error, unit) comp" where
  "delete_stage path p meta =
     (if md_kind meta = KSymlink \<or> md_kind meta = KFile then io (sys_unlink p)
      else if md_kind meta = KDir
      then bindM (io (sys_read_dir p)) (\<lambda>names. bindM (io sys_touch) (\<lambda>_.
           if names \<noteq> []
           then failM (FConflict (''directory not empty; recursive delete not supported: '' @ path))
           else io (sys_rmdir p)))
      else failM (FInvalidPath (''unsupported file type: '' @ path)))"

definition removed :: "fpath \<Rightarrow> world \<Rightarrow> world \<Rightarrow> bool" where
  "removed p w w' \<longleftrightarrow> deletable (w_fs w) p \<and> w_fs w' = hm_remove p (w_fs w) \<and>
     w_hist w' = w_hist w @ [w_fs w']"

lemma same_tree_removed: "same_tree u v \<Longrightarrow> removed p v w \<Longrightarrow> removed p u w"
  by (simp add: same_tree_def removed_def)

lemma delete_stage_run:
  assumes wf: "wf_tree (w_fs w)" and d: "is_dir_node (w_fs w) d" and c: "normal_name c"
    and n: "hm_get (w_fs w) (d @ [c]) = Some n" and k: "md_kind meta = node_kind n"
    and run: "delete_stage path (d @ [c]) meta w = (r, w')"
  shows "(\<exists>e. r = Inl e \<and> same_tree w w') \<or> (r = Inr () \<and> removed (d @ [c]) w w')"
proof (cases n)
  case (NSpecial x)
  then show ?thesis using run k by (auto simp: delete_stage_def same_tree.R_refl)
next
  case NDir
  let ?p = "d @ [c]"
  obtain g4 w4 where rd: "sys_read_dir ?p w = (g4, w4)" by fastforce
  obtain g5 w5 where tch: "sys_touch w4 = (g5, w5)" by fastforce
  obtain g6 w6 where rm: "sys_rmdir ?p w5 = (g6, w6)" by fastforce
  have s4: "same_tree w w4" using same_tree.obeysD [OF obeys_read_dir rd] .
  have s5: "same_tree w w5" using same_tree.obeysD [OF obeys_touch tch] s4 same_tree.R_trans by blast
  have "(\<exists>e. r = Inl e \<and> w' = w4) \<or> (\<exists>e. r = Inl e \<and> w' = w5) \<or> w' = w6 \<and> r = mapE fs_error_from_io g6"
    using run k NDir rd tch rm
    by (cases g4; cases g5) (auto simp: delete_stage_def bindM_def io_def mapM_err_def split: if_splits)
  then consider (early) e where "r = Inl e" "same_tree w w'"
    | (rmdir) "w' = w6" "r = mapE fs_error_from_io g6" using s4 s5 by auto
  then show ?thesis
  proof cases
    case rmdir
    have "wf_tree (w_fs w5)" "is_dir_node (w_fs w5) d" using wf d same_treeD [OF s5] by simp_all
    from sys_rmdir_real [OF this c rm] show ?thesis
    proof
      assume "\<exists>e. g6 = Inl e \<and> same_tree w5 w6"
      then show ?thesis using rmdir s5 same_tree.R_trans by auto
    next
      assume "\<exists>u. g6 = Inr u \<and> is_empty_dir (w_fs w5) ?p \<and> w_fs w6 = hm_remove ?p (w_fs w5) \<and>
        w_hist w6 = w_hist w5 @ [w_fs w6]"
      then show ?thesis using rmdir s5 n NDir
        by (auto simp: removed_def deletable_def same_tree_def)
    qed
  qed blast
next
  case (NFile x)
  then obtain g3 where un: "sys_unlink (d @ [c]) w = (g3, w')" and r: "r = mapE fs_error_from_io g3"
    using run k by (auto simp: delete_stage_def io_run)
  then show ?thesis using sys_unlink_real [OF wf d c un] n NFile by (auto simp: removed_def deletable_def)
next
  case (NSymlink x)
  then obtain g3 where un: "sys_unlink (d @ [c]) w = (g3, w')" and r: "r = mapE fs_error_from_io g3"
    using run k by (auto simp: delete_stage_def io_run)
  then show ?thesis using sys_unlink_real [OF wf d c un] n NSymlink by (auto simp: removed_def deletable_def)
qed

text \<open>\<open>lstat\<close> of a path resolved without following its last name.\<close>

definition entry_found :: "filesystem_config \<Rightarrow> tree \<Rightarrow> fpath \<Rightarrow> bool" where
  "entry_found cfg t p \<longleftrightarrow>
     (\<exists>d c. p = d @ [c] \<and> is_dir_node t d \<and> normal_name c \<and> under_roots cfg d \<and> hm_get t p \<noteq> None)"

lemma delete_run:
  assumes wf: "wf_tree (w_fs w)" and run: "fs_delete_path cfg path w = (r, w')"
  shows "(\<exists>e. r = Inl e \<and> same_tree w w') \<or>
    (\<exists>p w1. r = Inr () \<and> fs_resolve_no_follow cfg path w = (Inr p, w1) \<and>
       entry_found cfg (w_fs w) p \<and> removed p w w')"
proof -
  obtain g1 w1 where res: "fs_resolve_no_follow cfg path w = (g1, w1)" by fastforce
  have s1: "same_tree w w1" using resolve_no_follow_spec(1) [OF res] .
  show ?thesis
  proof (cases g1)
    case (Inl e)
    then show ?thesis using run res s1 by (auto simp: fs_delete_path_def bindM_def)
  next
    case p: (Inr p)
    obtain g2 w2 where st: "sys_lstat p w1 = (g2, w2)" by fastforce
    have s2: "same_tree w w2" using same_tree.obeysD [OF obeys_lstat st] s1 same_tree.R_trans by blast
    have fs1: "w_fs w1 = w_fs w" and fs2: "w_fs w2 = w_fs w"
      using s1 s2 by (simp_all add: same_tree_def)
    show ?thesis
    proof (cases g2)
      case (Inl e)
      then show ?thesis using run res p st s2 by (auto simp: fs_delete_path_def bindM_def mapM_err_def)
    next
      case (Inr meta)
      have eu: "entry_under (w_fs w1) cfg p" using resolve_no_follow_spec(2) [OF res wf p] fs1 by simp
      obtain d c n where e: "p = d @ [c]" "is_dir_node (w_fs w) d" "normal_name c"
        "under_roots cfg d" "hm_get (w_fs w) (d @ [c]) = Some n" and k: "md_kind meta = node_kind n"
        using lstat_entry [OF _ eu st [unfolded Inr]] wf fs1 by auto
      have "delete_stage path p meta w2 = (r, w')"
        using run res p st Inr by (simp add: fs_delete_path_def delete_stage_def bindM_def mapM_err_def)
      then have "(\<exists>e. r = Inl e \<and> same_tree w2 w') \<or> (r = Inr () \<and> removed p w2 w')"
        using delete_stage_run [of w2 d c n meta path r w'] wf fs2 e k by simp
      then show ?thesis
        using s2 same_tree.R_trans [OF s2] same_tree_removed [OF s2] res p e
        by (auto simp: entry_found_def)
    qed
  qed
qed

text \<open>
  Claim C38.  Deletion removes exactly one entry, and only a file, a symbolic link (its target is
  untouched) or an empty directory whose parent is a real directory under a root; there is no
  recursive delete.  A deletion that reports an error has changed nothing.
\<close>

theorem delete_exactly_one:
  assumes "wf_tree (w_fs w)" and "fs_delete_path cfg path w = (r, w')"
  shows "(\<exists>e. r = Inl e \<and> w_fs w' = w_fs w \<and> w_hist w' = w_hist w) \<or>
    (\<exists>p w1. r = Inr () \<and> fs_resolve_no_follow cfg path w = (Inr p, w1) \<and>
       entry_found cfg (w_fs w) p \<and> deletable (w_fs w) p \<and>
       hm_get (w_fs w') p = None \<and> agree_outside (\<lambda>q. q = p) (w_fs w) (w_fs w') \<and> wf_tree (w_fs w'))"
  using delete_run [OF assms]
proof
  assume "\<exists>p w1. r = Inr () \<and> fs_resolve_no_follow cfg path w = (Inr p, w1) \<and>
       entry_found cfg (w_fs w) p \<and> removed p w w'"
  then obtain p w1 where *: "r = Inr ()" "fs_resolve_no_follow cfg path w = (Inr p, w1)"
    "entry_found cfg (w_fs w) p" "deletable (w_fs w) p" "w_fs w' = hm_remove p (w_fs w)"
    by (auto simp: removed_def)
  have "\<not> is_dir_node (w_fs w) p \<or> is_empty_dir (w_fs w) p"
    using *(4) by (auto simp: deletable_def is_dir_node_iff)
  then have "wf_tree (w_fs w')"
    using wf_tree_remove [OF assms(1), of p] *(3,5) by (auto simp: entry_found_def)
  then show ?thesis using * by (auto simp: agree_outside_def)
qed (auto simp: same_tree_def)

theorem delete_exactly_one_witness:
  "hm_get (w_fs (snd (fs_delete_path sample_cfg ''out'' sample_world))) [''etc'', ''key''] = Some (NFile [7])"
proof -
  let ?run = "fs_delete_path sample_cfg ''out'' sample_world"
  have tgt: "fst (fs_resolve_no_follow sample_cfg ''out'' sample_world) = Inr [''srv'', ''out'']" by code_simp
  have old: "hm_get (w_fs sample_world) [''etc'', ''key''] = Some (NFile [7])" by code_simp
  show ?thesis
    using delete_exactly_one [of sample_world sample_cfg "''out''" "fst ?run" "snd ?run"]
      sample_tree_wf tgt old by (auto simp: sample_world_def agree_outside_def)
qed

section \<open>Renaming\<close>

lemma obeys_hashed_metadata: "same_tree.obeys (hashed_metadata bl cfg p meta)"
  unfolding hashed_metadata_def
  by (intro same_tree.obeys_if same_tree.obeys_bind obeys_io obeys_read same_tree.obeys_ok)

definition renamed :: "fpath \<Rightarrow> fpath \<Rightarrow> world \<Rightarrow> world \<Rightarrow> bool" where
  "renamed s d w w' \<longleftrightarrow>
     hm_get (w_fs w) d = None \<and> \<not> prefix s d \<and> \<not> prefix d s \<and>
     w_fs w' = move_tree s d (w_fs w) \<and> wf_tree (w_fs w') \<and> w_hist w' = w_hist w @ [w_fs w']"

lemma entry_under_real:
  assumes "wf_tree t" and "entry_under t cfg p" and "entry_path t p = Inr q"
  shows "\<exists>d c. p = d @ [c] \<and> q = p \<and> is_dir_node t d \<and> normal_name c \<and> under_roots cfg d"
proof -
  obtain d c where p: "p = d @ [c]" "walk_end t True d" "normal_name c" "under_roots cfg d"
    using assms(2) by (auto simp: entry_under_def)
  have "real_path t d = Inr d" using real_path_fixed assms(1) p(2) .
  then show ?thesis using assms(3) p by (auto simp: entry_path_def split: if_splits)
qed

lemma rename_noreplace_renamed:
  assumes wf: "wf_tree (w_fs w)" and s: "entry_under (w_fs w) cfg s" and d: "entry_under (w_fs w) cfg d"
    and ne: "s \<noteq> d" and run: "rename_noreplace s d w = (r, w')"
  shows "(\<exists>e. r = Inl e \<and> same_tree w w') \<or>
    (r = Inr () \<and> entry_found cfg (w_fs w) s \<and> renamed s d w w' \<and>
     (\<exists>e c. d = e @ [c] \<and> is_dir_node (w_fs w) e \<and> under_roots cfg e))"
  using rename_noreplace_spec [OF run]
proof
  assume ok: "r = Inr () \<and> t_rename True s d (w_fs w) = Inr (w_fs w') \<and> w_hist w' = w_hist w @ [w_fs w']"
  then obtain s' d' where ent: "entry_path (w_fs w) s = Inr s'" "entry_path (w_fs w) d = Inr d'"
    and al: "rename_allowed True (w_fs w) s' d'" "w_fs w' = move_tree s' d' (w_fs w)"
    using t_rename_Inr [of True s d "w_fs w" "w_fs w'"] by auto
  obtain a b where sd: "s = a @ [b]" "s' = s" "is_dir_node (w_fs w) a" "normal_name b" "under_roots cfg a"
    using entry_under_real [OF wf s ent(1)] by blast
  obtain e c where dd: "d = e @ [c]" "d' = d" "is_dir_node (w_fs w) e" "normal_name c" "under_roots cfg e"
    using entry_under_real [OF wf d ent(2)] by blast
  have al': "rename_allowed True (w_fs w) s d" and w': "w_fs w' = move_tree s d (w_fs w)"
    using al sd(2) dd(2) by simp_all
  note disj = rename_allowed_disjoint [OF wf al' ne]
  have "wf_tree (w_fs w')"
    using wf_tree_move [OF wf _ dd(3,4)] disj sd(1) dd(1) w' by simp
  then have "renamed s d w w'"
    using al' disj w' ok by (auto simp: renamed_def rename_allowed_def)
  moreover have "entry_found cfg (w_fs w) s"
    using al' sd by (auto simp: entry_found_def rename_allowed_def)
  ultimately show ?thesis using ok dd by blast
qed blast

lemma rename_run:
  assumes wf: "wf_tree (w_fs w)" and run: "fs_rename_path bl cfg src dst w = (r, w')"
  shows "(\<exists>e. r = Inl e \<and> same_tree w w') \<or>
    (\<exists>s d w1 w2 w3. fs_resolve_no_follow cfg src w = (Inr s, w1) \<and>
       fs_resolve_no_follow cfg dst w1 = (Inr d, w2) \<and> entry_found cfg (w_fs w) s \<and>
       renamed s d w w3 \<and> same_tree w3 w' \<and>
       (\<exists>e c. d = e @ [c] \<and> is_dir_node (w_fs w) e \<and> under_roots cfg e))"
proof -
  obtain g1 w1 where res1: "fs_resolve_no_follow cfg src w = (g1, w1)" by fastforce
  have s1: "same_tree w w1" using resolve_no_follow_spec(1) [OF res1] .
  obtain g2 w2 where res2: "fs_resolve_no_follow cfg dst w1 = (g2, w2)" by fastforce
  have s2: "same_tree w w2" using resolve_no_follow_spec(1) [OF res2] s1 same_tree.R_trans by blast
  show ?thesis
  proof (cases "(\<exists>e. g1 = Inl e) \<or> (\<exists>e. g2 = Inl e) \<or> g1 = mapE id g2")
    case True
    then show ?thesis using run res1 res2 s1 s2
      by (cases g1; cases g2) (auto simp: fs_rename_path_def bindM_def)
  next
    case False
    then obtain s d where g: "g1 = Inr s" "g2 = Inr d" "s \<noteq> d" by (cases g1; cases g2) auto
    have us: "entry_under (w_fs w) cfg s" using resolve_no_follow_spec(2) [OF res1 wf g(1)] .
    have ud: "entry_under (w_fs w) cfg d"
      using resolve_no_follow_spec(2) [OF res2 _ g(2)] wf same_treeD [OF s1] by simp
    obtain g3 w3 where st3: "sys_lstat s w2 = (g3, w3)" by fastforce
    have s3: "same_tree w w3" using same_tree.obeysD [OF obeys_lstat st3] s2 same_tree.R_trans by blast
    obtain g4 w4 where st4: "sys_lstat d w3 = (g4, w4)" by fastforce
    have s4: "same_tree w w4" using same_tree.obeysD [OF obeys_lstat st4] s3 same_tree.R_trans by blast
    show ?thesis
    proof (cases "(\<exists>e. g3 = Inl e) \<or> (\<exists>m. g4 = Inr m)")
      case True
      then show ?thesis using run res1 res2 g st3 st4 s3 s4
        by (cases g3; cases g4) (auto simp: fs_rename_path_def bindM_def matchM_def mapM_err_def)
    next
      case False
      then obtain m e where m: "g3 = Inr m" "g4 = Inl e" by (cases g3; cases g4) auto
      obtain g5 w5 where mv: "rename_noreplace s d w4 = (g5, w5)" by fastforce
      have fs4: "w_fs w4 = w_fs w" "w_hist w4 = w_hist w" using s4 by (simp_all add: same_tree_def)
      have rest: "bindM (rename_noreplace s d) (\<lambda>_. bindM (io (sys_stat d)) (\<lambda>meta.
          hashed_metadata bl cfg d meta)) w4 = (r, w')"
        using run res1 res2 g st3 st4 m by (simp add: fs_rename_path_def bindM_def matchM_def mapM_err_def)
      have "same_tree.obeys (bindM (io (sys_stat d)) (\<lambda>meta. hashed_metadata bl cfg d meta))"
        by (intro same_tree.obeys_bind obeys_io obeys_stat obeys_hashed_metadata)
      then have after: "g5 = Inr u \<Longrightarrow> same_tree w5 w'" for u
        using rest mv same_tree.obeysD by (fastforce simp: bindM_def)
      have fail: "g5 = Inl e \<Longrightarrow> r = Inl e \<and> w' = w5" for e
        using rest mv by (simp add: bindM_def)
      have "wf_tree (w_fs w4)" "entry_under (w_fs w4) cfg s" "entry_under (w_fs w4) cfg d"
        using wf us ud fs4 by simp_all
      from rename_noreplace_renamed [OF this g(3) mv] show ?thesis
      proof
        assume "\<exists>e. g5 = Inl e \<and> same_tree w4 w5"
        then show ?thesis using fail s4 same_tree.R_trans by blast
      next
        assume ok: "g5 = Inr () \<and> entry_found cfg (w_fs w4) s \<and> renamed s d w4 w5 \<and>
          (\<exists>e c. d = e @ [c] \<and> is_dir_node (w_fs w4) e \<and> under_roots cfg e)"
        then have "renamed s d w w5" by (auto simp: renamed_def fs4)
        then show ?thesis using ok after res1 res2 g fs4 by auto
      qed
    qed
  qed
qed

text \<open>
  Claim C37.  A rename moves exactly the named entry (a symbolic link itself, never its target)
  and what is below it to a name that did not exist, between real directories under the roots;
  every other path is as before.  When it does not, the tree is unchanged.
\<close>

theorem rename_moves_entry:
  assumes "wf_tree (w_fs w)" and "fs_rename_path bl cfg src dst w = (r, w')"
  shows "((\<exists>e. r = Inl e) \<and> w_fs w' = w_fs w) \<or>
    (\<exists>s d w1 w2. fs_resolve_no_follow cfg src w = (Inr s, w1) \<and>
       fs_resolve_no_follow cfg dst w1 = (Inr d, w2) \<and> under_roots cfg s \<and> under_roots cfg d \<and>
       hm_get (w_fs w) s \<noteq> None \<and> hm_get (w_fs w) d = None \<and> wf_tree (w_fs w') \<and>
       (\<forall>q. hm_get (w_fs w') q =
          (if prefix d q then hm_get (w_fs w) (s @ drop (length d) q)
           else if prefix s q then None else hm_get (w_fs w) q)))"
  using rename_run [OF assms]
proof
  assume "\<exists>s d w1 w2 w3. fs_resolve_no_follow cfg src w = (Inr s, w1) \<and>
       fs_resolve_no_follow cfg dst w1 = (Inr d, w2) \<and> entry_found cfg (w_fs w) s \<and>
       renamed s d w w3 \<and> same_tree w3 w' \<and>
       (\<exists>e c. d = e @ [c] \<and> is_dir_node (w_fs w) e \<and> under_roots cfg e)"
  then obtain s d w1 w2 w3 where *: "fs_resolve_no_follow cfg src w = (Inr s, w1)"
    "fs_resolve_no_follow cfg dst w1 = (Inr d, w2)" "entry_found cfg (w_fs w) s"
    "renamed s d w w3" "same_tree w3 w'" and u: "\<exists>e c. d = e @ [c] \<and> under_roots cfg e" by blast
  have fs: "w_fs w' = move_tree s d (w_fs w)" and disj: "\<not> prefix d s" "\<not> prefix s d"
    using *(4,5) by (auto simp: renamed_def same_tree_def)
  have "under_roots cfg s" "under_roots cfg d"
    using *(3) u by (auto simp: entry_found_def under_roots_def intro: prefix_prefix)
  moreover have "hm_get (w_fs w) s \<noteq> None" using *(3) by (auto simp: entry_found_def)
  moreover have "hm_get (w_fs w) d = None" "wf_tree (w_fs w')"
    using *(4,5) by (auto simp: renamed_def same_tree_def)
  ultimately show ?thesis
    using *(1,2) move_tree_get_disjoint [OF wf_tree_ok [OF assms(1)] disj] unfolding fs by blast
qed (auto simp: same_tree_def)

theorem rename_moves_entry_witness:
  "wf_tree (w_fs (snd (fs_rename_path (\<lambda>_. []) sample_cfg ''a'' ''b'' sample_world)))"
  using rename_moves_entry [of sample_world "\<lambda>_. []" sample_cfg "''a''" "''b''"
      "fst (fs_rename_path (\<lambda>_. []) sample_cfg ''a'' ''b'' sample_world)"
      "snd (fs_rename_path (\<lambda>_. []) sample_cfg ''a'' ''b'' sample_world)"]
    sample_tree_wf by (auto simp: sample_world_def)

text \<open>
  The metadata a rename returns is read through the renamed link.  A link that points outside the
  roots, which \<open>read_file\<close> refuses, is thereby opened: the size and the digest of the file it points
  to are disclosed.  A dangling link is renamed and the call still reports \<open>NotFound\<close>.
\<close>

definition link_world :: world where
  "link_world = sample_world\<lparr> w_fs := ([''srv'', ''k''], NSymlink ''/etc/key'')
     # ([''srv'', ''gone''], NSymlink ''nowhere'') # sample_tree \<rparr>"

text \<open>
  Renaming an in-root link to a file outside the roots succeeds and returns the size
  and the content digest of that outside file, although reading through the link is refused.
\<close>

theorem rename_discloses_outside_file:
  "fst (fs_read_file bl sample_cfg ''k'' link_world) = Inl escape_error \<and>
   fst (fs_rename_path bl sample_cfg ''k'' ''m'' link_world) =
     Inr \<lparr> fm_size = 1, fm_modified_at = None, fm_is_dir = False, fm_is_file = True,
           fm_hash = Some (bl [7]) \<rparr> \<and>
   \<not> under_roots sample_cfg [''etc'', ''key'']"
proof -
  have "fst (fs_read_file bl sample_cfg ''k'' link_world) = Inl escape_error" by code_simp
  moreover have "fst (fs_rename_path bl sample_cfg ''k'' ''m'' link_world) =
     Inr \<lparr> fm_size = 1, fm_modified_at = None, fm_is_dir = False, fm_is_file = True,
           fm_hash = Some (bl [7]) \<rparr>" by code_simp
  moreover have "\<not> under_roots sample_cfg [''etc'', ''key'']" by code_simp
  ultimately show ?thesis by blast
qed

text \<open>
  Renaming a dangling link moves it and then reports that it was not found.
\<close>

theorem rename_dangling_reports_not_found:
  "fst (fs_rename_path bl sample_cfg ''gone'' ''moved'' link_world) = Inl (fs_error_from_io ENOENT) \<and>
   hm_get (w_fs (snd (fs_rename_path bl sample_cfg ''gone'' ''moved'' link_world)))
     [''srv'', ''moved''] = Some (NSymlink ''nowhere'')"
proof -
  have "fst (fs_rename_path bl sample_cfg ''gone'' ''moved'' link_world) = Inl (fs_error_from_io ENOENT)"
    by code_simp
  moreover have "hm_get (w_fs (snd (fs_rename_path bl sample_cfg ''gone'' ''moved'' link_world)))
     [''srv'', ''moved''] = Some (NSymlink ''nowhere'')" by code_simp
  ultimately show ?thesis by blast
qed

section \<open>Creating directories\<close>

text \<open>Nothing is changed or removed; what is new are directories strictly below the root.\<close>

definition adds_dirs :: "fpath \<Rightarrow> tree \<Rightarrow> tree \<Rightarrow> bool" where
  "adds_dirs root t t' \<longleftrightarrow> (\<forall>q. hm_get t' q = hm_get t q \<or>
     hm_get t q = None \<and> hm_get t' q = Some NDir \<and> strict_prefix root q)"

definition only_adds :: "fpath \<Rightarrow> world \<Rightarrow> world \<Rightarrow> bool" where
  "only_adds root w w' \<longleftrightarrow> (\<exists>h. w_hist w' = w_hist w @ h \<and>
     (wf_tree (w_fs w) \<longrightarrow> (\<forall>t \<in> set (w_fs w' # h). wf_tree t \<and> adds_dirs root (w_fs w) t)))"

lemma adds_dirs_trans: "adds_dirs root s t \<Longrightarrow> adds_dirs root t u \<Longrightarrow> adds_dirs root s u"
  unfolding adds_dirs_def by (metis option.distinct(1))

interpretation only_adds: tree_relation "only_adds root" for root
proof unfold_locales
  fix w w' assume "same_tree w w'"
  then show "only_adds root w w'"
    unfolding only_adds_def by (intro exI [of _ "[]"]) (simp add: same_tree_def adds_dirs_def)
next
  fix w
  show "only_adds root w w"
    unfolding only_adds_def by (intro exI [of _ "[]"]) (simp add: adds_dirs_def)
next
  fix u v w assume "only_adds root u v" and "only_adds root v w"
  then obtain g h where g: "w_hist v = w_hist u @ g"
      "wf_tree (w_fs u) \<longrightarrow> (\<forall>t \<in> set (w_fs v # g). wf_tree t \<and> adds_dirs root (w_fs u) t)"
    and h: "w_hist w = w_hist v @ h"
      "wf_tree (w_fs v) \<longrightarrow> (\<forall>t \<in> set (w_fs w # h). wf_tree t \<and> adds_dirs root (w_fs v) t)"
    by (auto simp: only_adds_def)
  show "only_adds root u w"
    unfolding only_adds_def
  proof (intro exI [of _ "g @ h"] conjI impI ballI)
    fix t assume wf: "wf_tree (w_fs u)" and t: "t \<in> set (w_fs w # g @ h)"
    have v: "wf_tree (w_fs v)" "adds_dirs root (w_fs u) (w_fs v)" using g(2) wf by auto
    have t': "t \<in> set g \<or> t \<in> set (w_fs w # h)" using t by auto
    then show "wf_tree t" using g(2) h(2) wf v(1) by auto
    from t' show "adds_dirs root (w_fs u) t"
      using g(2) h(2) wf v adds_dirs_trans [OF v(2)] by auto
  qed (use g h in simp)
qed

lemma only_addsD:
  assumes "only_adds root w w'" and "wf_tree (w_fs w)"
  shows "wf_tree (w_fs w')" and "adds_dirs root (w_fs w) (w_fs w')"
  using assms by (auto simp: only_adds_def)

lemma path_is_dir_run:
  assumes "wf_tree (w_fs w)" and "walk_end (w_fs w) True p" and "path_is_dir p w = (b, w')"
  shows "same_tree w w' \<and> (b \<longrightarrow> is_dir_node (w_fs w) p)"
proof -
  obtain g w1 where st: "sys_stat p w = (g, w1)" by fastforce
  have s: "same_tree w w1" using same_tree.obeysD [OF obeys_stat st] .
  have rp: "real_path (w_fs w) p = Inr p" using real_path_fixed assms(1,2) .
  have "is_dir_node (w_fs w) p" if "g = Inr meta" "md_kind meta = KDir" for meta
  proof -
    obtain n where n: "hm_get (w_fs w) p = Some n" using assms(2) by (auto simp: walk_end_def)
    then show ?thesis using st that rp
      by (cases n) (auto simp: sys_stat_def syscall_Inr metadata_of_def is_dir_node_iff)
  qed
  then show ?thesis using assms(3) st s by (cases g) (auto simp: path_is_dir_def)
qed

lemma ensure_existing_spec:
  assumes wf: "wf_tree (w_fs w)"
    and meta: "hm_get (w_fs w) cur = Some n" "md_kind meta = node_kind n"
    and run: "ensure_existing path root fin cur meta w = (r, w')"
  shows "same_tree w w' \<and> (\<forall>p. r = Inr p \<longrightarrow> is_dir_node (w_fs w) p \<and> prefix root p)"
proof -
  obtain g w1 where can: "sys_canonicalize cur w = (g, w1)" by fastforce
  have s1: "same_tree w w1" using canonicalize_same [OF can] .
  show ?thesis
  proof (cases g)
    case (Inl e)
    then show ?thesis using run can s1 by (auto simp: ensure_existing_def bindM_def io_def mapM_err_def)
  next
    case (Inr c)
    have rp: "real_path (w_fs w) cur = Inr c" using can Inr canonicalize_Inr by blast
    then have we: "walk_end (w_fs w1) True c"
      using real_path_result [OF wf] same_treeD [OF s1] by simp
    obtain b w2 where pd: "path_is_dir c w1 = (b, w2)" by fastforce
    have d: "same_tree w1 w2 \<and> (b \<longrightarrow> is_dir_node (w_fs w) c)"
      using path_is_dir_run [OF _ we pd] wf same_treeD [OF s1] by simp
    have s2: "same_tree w w2" using d s1 same_tree.R_trans by blast
    have "is_dir_node (w_fs w) c" if "md_kind meta = KDir"
    proof -
      have "n = NDir" using that meta(2) by (cases n) auto
      then have "real_path (w_fs w) cur = Inr cur" using real_path_canonical [OF wf meta(1)] by simp
      then show ?thesis using rp meta(1) \<open>n = NDir\<close> by (simp add: is_dir_node_iff)
    qed
    then show ?thesis using run can Inr pd d s1 s2
      by (auto simp: ensure_existing_def bindM_def io_def mapM_err_def split: if_splits)
  qed
qed

lemma ensure_missing_spec:
  assumes wf: "wf_tree (w_fs w)" and d: "is_dir_node (w_fs w) d" and c: "normal_name c"
    and pre: "prefix root d" and run: "ensure_missing root (d @ [c]) w = (r, w')"
  shows "only_adds root w w' \<and> (\<forall>p. r = Inr p \<longrightarrow> is_dir_node (w_fs w') p \<and> prefix root p)"
proof -
  let ?p = "d @ [c]"
  obtain g w1 where mk: "sys_mkdir ?p w = (g, w1)" by fastforce
  then have tc: "tree_call (t_create NDir ?p) w = (g, w1)" by (simp add: sys_mkdir_def)
  show ?thesis
  proof (cases g)
    case (Inl e)
    then have "same_tree w w1" using tree_call_Inl(1) tc by blast
    then show ?thesis using run mk Inl only_adds.R_same
      by (auto simp: ensure_missing_def bindM_def io_def mapM_err_def)
  next
    case (Inr u)
    note eff = tree_call_Inr [OF tc [unfolded Inr]]
    have none: "hm_get (w_fs w) ?p = None" and fs1: "w_fs w1 = hm_insert ?p NDir (w_fs w)"
      using eff(1) entry_path_real [OF wf d c] by (auto simp: t_create_Inr)
    have wf1: "wf_tree (w_fs w1)"
      using wf_tree_insert [OF wf d c] none fs1 by (simp add: is_dir_node_iff)
    have "strict_prefix root ?p" using pre by (metis prefix_order.le_less_trans strict_prefixI')
    then have "adds_dirs root (w_fs w) (w_fs w1)" using none fs1 by (simp add: adds_dirs_def)
    then have a1: "only_adds root w w1" using eff(2) wf1 by (auto simp: only_adds_def)
    obtain g2 w2 where can: "sys_canonicalize ?p w1 = (g2, w2)" by fastforce
    have s2: "same_tree w1 w2" using canonicalize_same [OF can] .
    have a2: "only_adds root w w2" using a1 only_adds.R_same [OF s2] only_adds.R_trans by blast
    have dir1: "is_dir_node (w_fs w1) ?p" by (simp add: fs1 is_dir_node_iff)
    have "real_path (w_fs w1) ?p = Inr ?p" using real_path_fixed [OF wf1] walk_end_dir [OF dir1] by blast
    then have "g2 = Inr q \<Longrightarrow> q = ?p" for q using canonicalize_Inr can by fastforce
    then show ?thesis using run mk Inr can a2 dir1 pre same_treeD [OF s2]
      by (cases g2) (auto simp: ensure_missing_def bindM_def io_def mapM_err_def split: if_splits)
  qed
qed

lemma ensure_step_spec:
  assumes wf: "wf_tree (w_fs w)" and d: "is_dir_node (w_fs w) d" and c: "normal_name c"
    and pre: "prefix root d" and run: "ensure_step path root fin (d @ [c]) w = (r, w')"
  shows "only_adds root w w' \<and> (\<forall>p. r = Inr p \<longrightarrow> is_dir_node (w_fs w') p \<and> prefix root p)"
proof -
  let ?p = "d @ [c]"
  obtain g w1 where st: "sys_lstat ?p w = (g, w1)" by fastforce
  have s1: "same_tree w w1" using same_tree.obeysD [OF obeys_lstat st] .
  have fs1: "w_fs w1 = w_fs w" using same_treeD [OF s1] .
  note a1 = only_adds.R_same [OF s1]
  show ?thesis
  proof (cases g)
    case (Inr meta)
    have "\<exists>q. real_path_no_follow (w_fs w) ?p = Inr q \<and> hm_get (w_fs w) q \<noteq> None"
      using st Inr by (auto simp: sys_lstat_def syscall_Inr bindE_Inr_iff metadata_of_def split: option.splits)
    moreover have "real_path_no_follow (w_fs w) ?p = walk (w_fs w) SYMLINK_LIMIT False d [c]"
      using walk_through_dir [OF wf, of "[]" d] d by (simp add: real_path_no_follow_def)
    ultimately have "hm_get (w_fs w) ?p \<noteq> None"
      using d c by (auto simp: normal_name_def split: option.splits)
    then have "walk_end (w_fs w) False ?p" by (simp add: walk_end_def)
    then obtain n where n: "hm_get (w_fs w) ?p = Some n" "md_kind meta = node_kind n"
      using metadata_lookup [OF wf] st Inr by blast
    have "ensure_existing path root fin ?p meta w1 = (r, w')"
      using run st Inr by (simp add: ensure_step_def matchM_def)
    then have "same_tree w1 w' \<and> (\<forall>p. r = Inr p \<longrightarrow> is_dir_node (w_fs w1) p \<and> prefix root p)"
      using ensure_existing_spec [of w1 ?p n meta path root fin r w'] wf n fs1 by simp
    then show ?thesis using a1 only_adds.R_same only_adds.R_trans same_treeD by metis
  next
    case (Inl e)
    show ?thesis
    proof (cases "is_not_found e")
      case True
      then have "ensure_missing root ?p w1 = (r, w')"
        using run st Inl by (simp add: ensure_step_def matchM_def)
      then show ?thesis
        using ensure_missing_spec [of w1 d c root r w'] wf d c pre fs1 a1 only_adds.R_trans by simp blast
    next
      case False
      then show ?thesis using run st Inl a1 by (auto simp: ensure_step_def matchM_def)
    qed
  qed
qed

lemma ensure_loop_spec:
  assumes "wf_tree (w_fs w)" and "is_dir_node (w_fs w) d" and "prefix root d"
    and "\<And>c. c \<in> set names \<Longrightarrow> normal_name c" and "ensure_loop path root d names w = (r, w')"
  shows "only_adds root w w' \<and> (\<forall>p. r = Inr p \<longrightarrow> is_dir_node (w_fs w') p \<and> prefix root p)"
  using assms
proof (induction names arbitrary: d w)
  case Nil
  then show ?case by (auto simp: only_adds.R_refl)
next
  case (Cons c names)
  obtain g w1 where st: "ensure_step path root (names = []) (d @ [c]) w = (g, w1)" by fastforce
  have nc: "normal_name c" using Cons.prems(4) by simp
  note step = ensure_step_spec [OF Cons.prems(1,2) nc Cons.prems(3) st]
  show ?case
  proof (cases g)
    case (Inl e)
    then show ?thesis using Cons.prems(5) st step by (auto simp: bindM_def)
  next
    case (Inr p)
    have "ensure_loop path root p names w1 = (r, w')" using Cons.prems(5) st Inr by (simp add: bindM_def)
    moreover have "wf_tree (w_fs w1)" "is_dir_node (w_fs w1) p" "prefix root p"
      using step Inr only_addsD(1) [OF _ Cons.prems(1)] by auto
    ultimately have "only_adds root w1 w' \<and> (\<forall>p. r = Inr p \<longrightarrow> is_dir_node (w_fs w') p \<and> prefix root p)"
      using Cons.IH [of w1 p] Cons.prems(4) by simp
    then show ?thesis using step only_adds.R_trans by blast
  qed
qed

text \<open>The components of a creation path are proper names.\<close>

lemma body_components_names: "Normal c \<in> set (body_components cs) \<Longrightarrow> c \<in> set cs \<and> c \<noteq> ''.'' \<and> c \<noteq> ''..''"
  by (induction cs) (auto split: if_splits)

lemma creation_parts_Inr:
  "creation_parts path cs acc = Inr ps \<Longrightarrow> \<exists>qs. ps = acc @ qs \<and> (\<forall>c \<in> set qs. Normal c \<in> set cs)"
proof (induction path cs acc rule: creation_parts.induct)
  case (2 path c cs parts)
  then show ?case by (fastforce)
qed auto

lemma path_components_names:
  assumes "Normal c \<in> set (path_components path)"
  shows "c \<in> set (split_on slash path) \<and> c \<noteq> [] \<and> c \<noteq> ''.'' \<and> c \<noteq> ''..''"
proof -
  let ?raw = "filter (\<lambda>c. c \<noteq> []) (split_on slash path)"
  have "Normal c \<in> set (body_components ?raw) \<or> Normal c \<in> set (body_components (tl ?raw))"
    using assms by (cases ?raw) (auto simp: path_components_def Let_def split: if_splits)
  then have "(c \<in> set ?raw \<or> c \<in> set (tl ?raw)) \<and> c \<noteq> ''.'' \<and> c \<noteq> ''..''"
    using body_components_names by blast
  then have "c \<in> set ?raw \<and> c \<noteq> ''.'' \<and> c \<noteq> ''..''"
    by (metis list.sel(2) list.set_sel(2))
  then show ?thesis by simp
qed

lemma creation_comps_normal:
  assumes shape: "check_path_shape path = Inr ()" and cc: "creation_comps path = Inr names"
    and c: "c \<in> set names"
  shows "normal_name c"
proof -
  have "Normal c \<in> set (path_components path)"
    using cc c creation_parts_Inr [of path "path_components path" "[]"]
    by (auto simp: creation_comps_def bindE_Inr_iff split: if_splits)
  note m = path_components_names [OF this]
  have "nul \<notin> set path" using shape by (auto simp: check_path_shape_def split: if_splits)
  then show ?thesis
    using m split_on_no_sep [of c slash path] set_split_on [of c slash path]
    by (auto simp: normal_name_def)
qed

lemma ensure_dir_spec:
  assumes "wf_tree (w_fs w)" and roots: "fc_allowed_roots cfg = root # others"
    and dir: "is_dir_node (w_fs w) root" and run: "ensure_dir_under_root cfg path w = (r, w')"
  shows "only_adds root w w' \<and> (\<forall>p. r = Inr p \<longrightarrow> is_dir_node (w_fs w') p \<and> prefix root p)"
proof (cases "(\<exists>e. check_path_shape path = Inl e) \<or> (\<exists>e. creation_comps path = Inl e)")
  case True
  then have "(\<exists>e. r = Inl e) \<and> w' = w"
    using run roots by (cases "check_path_shape path"; cases "creation_comps path")
      (auto simp: ensure_dir_under_root_def bindM_def)
  then show ?thesis by (auto simp: only_adds.R_refl)
next
  case False
  then obtain names where ok: "check_path_shape path = Inr ()" "creation_comps path = Inr names"
    by (cases "check_path_shape path"; cases "creation_comps path") auto
  then have "ensure_loop path root root names w = (r, w')"
    using run roots by (simp add: ensure_dir_under_root_def bindM_def)
  then show ?thesis
    using ensure_loop_spec [OF assms(1) dir prefix_order.order_refl] creation_comps_normal [OF ok]
    by blast
qed

text \<open>
  Claim C36.  Creating a directory only ever adds directories strictly below the primary root, in
  every intermediate state and whatever fails; nothing that exists is changed or removed.  When it
  succeeds the directory exists under that root.
\<close>

theorem create_directory_only_adds:
  assumes "wf_tree (w_fs w)" and "fc_allowed_roots cfg = root # others"
    and "is_dir_node (w_fs w) root" and "fs_create_directory cfg path w = (r, w')"
  shows "(\<exists>h. w_hist w' = w_hist w @ h \<and>
      (\<forall>t \<in> set (w_fs w' # h). wf_tree t \<and> adds_dirs root (w_fs w) t)) \<and>
    (\<forall>md. r = Inr md \<longrightarrow> fm_is_dir md \<and> (\<exists>p. prefix root p \<and> is_dir_node (w_fs w') p))"
proof -
  obtain g w1 where en: "ensure_dir_under_root cfg path w = (g, w1)" by fastforce
  note spec = ensure_dir_spec [OF assms(1-3) en]
  have "only_adds root w w' \<and> (\<forall>md. r = Inr md \<longrightarrow> fm_is_dir md \<and>
      (\<exists>p. prefix root p \<and> is_dir_node (w_fs w') p))"
  proof (cases g)
    case (Inl e)
    then show ?thesis using assms(4) en spec by (auto simp: fs_create_directory_def bindM_def)
  next
    case (Inr p)
    obtain g2 w2 where st: "sys_stat p w1 = (g2, w2)" by fastforce
    have s: "same_tree w1 w2" using same_tree.obeysD [OF obeys_stat st] .
    have wf1: "wf_tree (w_fs w1)" and d: "is_dir_node (w_fs w1) p" and pre: "prefix root p"
      using spec Inr only_addsD(1) [OF _ assms(1)] by auto
    have "md_kind meta = KDir" if "g2 = Inr meta" for meta
      using that st real_path_fixed [OF wf1 walk_end_dir [OF d]] d
      by (auto simp: sys_stat_def syscall_Inr metadata_of_def is_dir_node_iff)
    then show ?thesis
      using assms(4) en Inr st s d pre spec only_adds.R_same [OF s] only_adds.R_trans same_treeD [OF s]
      by (cases g2) (auto simp: fs_create_directory_def bindM_def io_def mapM_err_def make_metadata_def)
  qed
  then show ?thesis using assms(1) by (auto simp: only_adds_def)
qed

theorem create_directory_only_adds_witness:
  "adds_dirs [''srv''] sample_tree (w_fs (snd (fs_create_directory sample_cfg ''x/y'' sample_world)))"
proof -
  have "is_dir_node (w_fs sample_world) [''srv'']" by code_simp
  then show ?thesis
    using create_directory_only_adds [of sample_world sample_cfg "[''srv'']" "[]" "''x/y''"
        "fst (fs_create_directory sample_cfg ''x/y'' sample_world)"
        "snd (fs_create_directory sample_cfg ''x/y'' sample_world)"] sample_tree_wf
    by (auto simp: sample_world_def sample_cfg_def)
qed

section \<open>Reading\<close>

lemma read_stages:
  assumes wf: "wf_tree (w_fs w)" and ok: "cfg_ok cfg"
    and run: "fs_read_file bl cfg path w = (Inr (content, md), w')"
  shows "\<exists>p n. resolved (w_fs w) cfg p \<and> walk_end (w_fs w) True p \<and> hm_get (w_fs w) p = Some n \<and>
    node_content (w_fs w) p = Inr content \<and> same_tree w w' \<and>
    node_len (w_dirlen w) p n \<le> fc_max_file_bytes cfg \<and>
    (\<exists>meta. md_kind meta = node_kind n \<and> md = with_content_hash bl (make_metadata meta) content)"
proof -
  obtain p w1 where res: "fs_resolve cfg path w = (Inr p, w1)"
    using run by (auto simp: fs_read_file_def bindM_Inr)
  have rp: "resolved (w_fs w) cfg p" using resolve_Ok_resolved [OF wf ok res] .
  have s1: "same_tree w w1" using resolve_same [OF res] .
  obtain meta w2 where st: "sys_stat p w1 = (Inr meta, w2)"
    and rest: "(if md_kind meta = KDir then failM (FIsADirectory path)
       else if md_len meta > fc_max_file_bytes cfg
       then failM (FFileTooLarge path (md_len meta) (fc_max_file_bytes cfg))
       else bindM (io (sys_read p)) (\<lambda>content.
              okM (content, with_content_hash bl (make_metadata meta) content))) w2 = (Inr (content, md), w')"
    using run res by (auto simp: fs_read_file_def bindM_Inr io_def)
  have s2: "same_tree w1 w2" using same_tree.obeysD [OF obeys_stat st] .
  obtain q where q: "real_path (w_fs w) p = Inr q" "metadata_of (w1\<lparr>w_sys := Suc (w_sys w1)\<rparr>) q = Inr meta"
    using st same_treeD [OF s1] by (auto simp: sys_stat_def syscall_Inr bindE_Inr_iff)
  have qp: "q = p" using resolved_target [OF wf rp q(1)] .
  then have we: "walk_end (w_fs w) True p" using real_path_result [OF wf q(1)] by simp
  obtain n where n: "hm_get (w_fs w) p = Some n" using we by (auto simp: walk_end_def)
  have meta: "md_kind meta = node_kind n" "md_len meta = node_len (w_dirlen w1) p n"
    using q(2) qp n same_treeD [OF s1] by (auto simp: metadata_of_def)
  have rd: "sys_read p w2 = (Inr content, w')" and md: "md = with_content_hash bl (make_metadata meta) content"
    and len: "md_len meta \<le> fc_max_file_bytes cfg" and nd: "md_kind meta \<noteq> KDir"
    using rest by (auto simp: bindM_Inr io_def split: if_splits)
  have "node_content (w_fs w) p = Inr content"
    using rd q(1) qp same_treeD [OF s1] same_treeD [OF s2] by (auto simp: sys_read_def syscall_Inr)
  moreover have "same_tree w w'"
    using same_tree.obeysD [OF obeys_read rd] s1 s2 same_tree.R_trans by blast
  moreover have "node_len (w_dirlen w) p n = node_len (w_dirlen w1) p n"
    using nd meta(1) by (cases n) auto
  ultimately show ?thesis using rp we n meta md len
    by (intro exI [of _ p] exI [of _ n]) auto
qed



end
