(* ===== verification/ExecPolicy.thy ===== *)
theory ExecPolicy
  imports Fs Grant
begin

text \<open>
  The first part of \<open>are-daemon/src/process.rs\<close>: errors, limits, the execution policy, the
  environment handed to a child, and the random identifiers that processes and sessions share.
  A \<open>HashSet\<close> is a set.  Log lines are not modelled.
\<close>

section \<open>Errors and limits\<close>

datatype process_error =
    PInvalidRequest string
  | PEnvironmentMismatch string
  | PDeniedExecutable string
  | PPolicyDenied string
  | PTooManyProcesses string
  | PNotFound string
  | PIo string
  | PInternal string

fun process_error_display :: "process_error \<Rightarrow> string" where
  "process_error_display (PInvalidRequest s) = ''invalid request: '' @ s"
| "process_error_display (PEnvironmentMismatch s) = ''environment mismatch: '' @ s"
| "process_error_display (PDeniedExecutable s) = ''executable denied by policy: '' @ s"
| "process_error_display (PPolicyDenied s) = ''execution refused by policy: '' @ s"
| "process_error_display (PTooManyProcesses s) = ''too many processes: '' @ s"
| "process_error_display (PNotFound s) = ''process not found: '' @ s"
| "process_error_display (PIo s) = ''process I/O error: '' @ s"
| "process_error_display (PInternal s) = ''internal process error: '' @ s"

definition DEFAULT_MAX_OUTPUT_BYTES :: nat where
  "DEFAULT_MAX_OUTPUT_BYTES = 8 * 1024 * 1024"

definition DEFAULT_MAX_PROCESSES :: nat where
  "DEFAULT_MAX_PROCESSES = 128"

definition DEFAULT_RETENTION_SECS :: nat where
  "DEFAULT_RETENTION_SECS = 3600"

definition DEFAULT_DRAIN_TIMEOUT_SECS :: nat where
  "DEFAULT_DRAIN_TIMEOUT_SECS = 5"

definition DEFAULT_MAX_PROCESSES_PER_SESSION :: nat where
  "DEFAULT_MAX_PROCESSES_PER_SESSION = 32"

definition DEFAULT_DENIED_EXECUTABLES :: "string set" where
  "DEFAULT_DENIED_EXECUTABLES = {''shutdown'', ''reboot'', ''poweroff'', ''halt'', ''init''}"

definition STRIPPED_ENV_EXACT :: "string list" where
  "STRIPPED_ENV_EXACT = [''LD_PRELOAD'', ''LD_LIBRARY_PATH'', ''LD_AUDIT'']"

definition STRIPPED_ENV_PREFIXES :: "string list" where
  "STRIPPED_ENV_PREFIXES = [''LD_'', ''DYLD_'']"

record process_config =
  pc_allowed_executables :: "string set option"
  pc_permissive :: bool
  pc_denied_executables :: "string set"
  pc_max_output_bytes :: nat
  pc_max_processes :: nat
  pc_max_processes_per_session :: nat
  pc_retention_secs :: nat
  pc_drain_timeout_secs :: nat

definition process_config_default :: process_config where
  "process_config_default =
     \<lparr> pc_allowed_executables = None, pc_permissive = False,
       pc_denied_executables = DEFAULT_DENIED_EXECUTABLES,
       pc_max_output_bytes = DEFAULT_MAX_OUTPUT_BYTES,
       pc_max_processes = DEFAULT_MAX_PROCESSES,
       pc_max_processes_per_session = DEFAULT_MAX_PROCESSES_PER_SESSION,
       pc_retention_secs = DEFAULT_RETENTION_SECS,
       pc_drain_timeout_secs = DEFAULT_DRAIN_TIMEOUT_SECS \<rparr>"

definition process_config_with_allow_list :: "string list \<Rightarrow> process_config" where
  "process_config_with_allow_list names =
     process_config_default\<lparr> pc_allowed_executables := Some (set names) \<rparr>"

section \<open>The execution policy\<close>

definition check_policy :: "process_config \<Rightarrow> string \<Rightarrow> process_error + unit" where
  "check_policy config program =
     (let base = normalize_program_name program in
      if \<exists>d \<in> pc_denied_executables config. normalize_program_name d = base
      then Inl (PDeniedExecutable
             (''program '' @ debug_str base @ '' is denied by execution policy''))
      else
        (case pc_allowed_executables config of
           Some allowed \<Rightarrow>
             if \<not> (\<exists>a \<in> allowed. normalize_program_name a = base)
             then Inl (PDeniedExecutable
                    (''program '' @ debug_str base @ '' is not in the allowed executable list''))
             else Inr ()
         | None \<Rightarrow>
             if pc_permissive config then Inr ()
             else Inl (PPolicyDenied ''no allowed executables configured'')))"

definition program_basename :: "string \<Rightarrow> string" where
  "program_basename program = last (split_on slash (replace_char backslash slash program))"

section \<open>The child environment\<close>

definition stripped_key :: "string \<Rightarrow> bool" where
  "stripped_key key \<longleftrightarrow>
     key \<in> set STRIPPED_ENV_EXACT \<or> list_ex (\<lambda>p. prefix p key) STRIPPED_ENV_PREFIXES"

definition sanitize_env :: "env_map \<Rightarrow> env_map" where
  "sanitize_env env = filter (\<lambda>(key, val). \<not> stripped_key key) env"

definition insert_all :: "env_map \<Rightarrow> env_map \<Rightarrow> env_map" where
  "insert_all layer merged = fold (\<lambda>(key, val). hm_insert key val) layer merged"

definition merge_session_env :: "env_map \<Rightarrow> env_map \<Rightarrow> env_map" where
  "merge_session_env session_env request_env =
     sanitize_env (insert_all request_env (insert_all session_env []))"

section \<open>Random identifiers\<close>

definition alloc_process_id :: "(process_error, process_id) comp" where
  "alloc_process_id =
     bindM (mapM_err (\<lambda>e. PInternal (''failed to generate process id: '' @ e)) sys_getrandom)
       (\<lambda>bytes. liftM
         (mapE (\<lambda>e. PInternal (''failed to allocate process id: '' @ core_error_display e))
           (process_id_try_new (''proc-'' @ hex_of bytes))))"

text \<open>
  The allocation loop that both tables run: a bounded number of candidates, the first one that
  is not taken wins, and an error of the generator ends the loop at once.
\<close>

fun fresh_id :: "nat \<Rightarrow> ('e, 'i) comp \<Rightarrow> ('i \<Rightarrow> bool) \<Rightarrow> ('e, 'i option) comp" where
  "fresh_id 0 alloc taken = okM None"
| "fresh_id (Suc n) alloc taken =
     bindM alloc (\<lambda>candidate.
       if \<not> taken candidate then okM (Some candidate) else fresh_id n alloc taken)"

definition MAX_ID_ATTEMPTS :: nat where
  "MAX_ID_ATTEMPTS = 8"

text \<open>What the tables rely on: identifiers are drawn without touching the machine.\<close>

locale id_source =
  fixes alloc :: "('e, 'i) comp"
    and str :: "'i \<Rightarrow> string"
    and tag :: string
  assumes alloc_quiet: "same_tree.obeys alloc"
    and alloc_shape: "alloc w = (Inr i, w') \<Longrightarrow> valid_id (str i) \<and> prefix tag (str i)"
    and alloc_total: "w_entropy w (w_rng w) = Inr bytes \<Longrightarrow> length bytes = 16 \<Longrightarrow>
      \<exists>i w'. alloc w = (Inr i, w') \<and> str i = tag @ hex_of bytes"
begin

lemma fresh_quiet: "same_tree.obeys (fresh_id n alloc taken)"
proof (induction n)
  case 0
  show ?case by (simp only: fresh_id.simps same_tree.obeys_ok)
next
  case (Suc n)
  then show ?case
    by (simp only: fresh_id.simps) (intro same_tree.obeys_intros alloc_quiet)
qed

lemma fresh_free:
  "fresh_id n alloc taken w = (Inr (Some i), w') \<Longrightarrow>
     \<not> taken i \<and> valid_id (str i) \<and> prefix tag (str i)"
proof (induction n arbitrary: w)
  case (Suc n)
  then obtain c w1 where a: "alloc w = (Inr c, w1)"
    and rest: "(if \<not> taken c then okM (Some c) else fresh_id n alloc taken) w1 = (Inr (Some i), w')"
    by (auto simp: bindM_Inr)
  from Suc.IH [of w1] rest alloc_shape [OF a] show ?case by (auto split: if_splits)
qed simp

lemma fresh_first:
  assumes "w_entropy w (w_rng w) = Inr bytes" and "length bytes = 16"
    and "\<And>i. str i = tag @ hex_of bytes \<Longrightarrow> \<not> taken i"
  shows "\<exists>i w'. fresh_id (Suc n) alloc taken w = (Inr (Some i), w')"
proof -
  obtain i w' where "alloc w = (Inr i, w')" "str i = tag @ hex_of bytes"
    using alloc_total [OF assms(1,2)] by blast
  then show ?thesis using assms(3) by (simp add: bindM_run)
qed

end

lemma length_hex_of [simp]: "length (hex_of bs) = 2 * length bs"
  by (induction bs) (simp_all add: hex_of_def byte_hex_def)

lemma hex_digit_id: "n < 16 \<Longrightarrow> is_valid_id_byte (hex_digit n)"
  by (auto simp: hex_digit_def is_valid_id_byte_def)

lemma hex_of_id: "c \<in> set (hex_of bs) \<Longrightarrow> is_valid_id_byte c"
proof -
  have "unat b < 2 ^ LENGTH(8)" for b :: byte by (rule unsigned_less)
  then have "unat b div 16 < 16" for b :: byte by (simp add: less_mult_imp_div_less)
  then show "c \<in> set (hex_of bs) \<Longrightarrow> is_valid_id_byte c"
    by (auto simp: hex_of_def byte_hex_def intro: hex_digit_id)
qed

lemma getrandom_quiet: "same_tree.obeys sys_getrandom"
  by (rule same_tree.obeysI) (auto simp: sys_getrandom_def same_tree_def)

lemma tagged_hex_valid:
  "length tag \<le> 32 \<Longrightarrow> tag \<noteq> [] \<Longrightarrow> (\<forall>c \<in> set tag. is_valid_id_byte c) \<Longrightarrow> length bytes = 16 \<Longrightarrow>
     valid_id (tag @ hex_of bytes)"
  by (auto simp: valid_id_def hex_of_id)

interpretation proc_ids: id_source alloc_process_id proc_str "''proc-''"
proof unfold_locales
  show "same_tree.obeys alloc_process_id"
    unfolding alloc_process_id_def by (intro same_tree.obeys_intros getrandom_quiet)
next
  fix w :: world and i w' assume "alloc_process_id w = (Inr i, w')"
  then obtain bytes where "process_id_try_new (''proc-'' @ hex_of bytes) = Inr i"
    by (auto simp: alloc_process_id_def bindM_Inr)
  from proc_newtype.Ok_valid [OF this] show "valid_id (proc_str i) \<and> prefix ''proc-'' (proc_str i)"
    by auto
next
  fix w :: world and bytes :: bytes
  assume ent: "w_entropy w (w_rng w) = Inr bytes" and len: "length bytes = 16"
  have "valid_id (''proc-'' @ hex_of bytes)"
    by (rule tagged_hex_valid) (simp_all add: len is_valid_id_byte_def)
  from proc_newtype.accepts [OF this] obtain i where
    i: "process_id_try_new (''proc-'' @ hex_of bytes) = Inr i" "proc_str i = ''proc-'' @ hex_of bytes"
    by blast
  then show "\<exists>i w'. alloc_process_id w = (Inr i, w') \<and> proc_str i = ''proc-'' @ hex_of bytes"
    using ent by (simp add: alloc_process_id_def bindM_def mapM_err_def sys_getrandom_def)
qed

section \<open>Correctness\<close>

lemma check_policy_iff:
  "check_policy config program = Inr () \<longleftrightarrow>
     normalize_program_name program \<notin> normalize_program_name ` pc_denied_executables config \<and>
     (case pc_allowed_executables config of
        None \<Rightarrow> pc_permissive config
      | Some allowed \<Rightarrow> normalize_program_name program \<in> normalize_program_name ` allowed)"
proof -
  have image: "n \<in> f ` S \<longleftrightarrow> (\<exists>d \<in> S. f d = n)" for n and f :: "string \<Rightarrow> string" and S
    by auto
  show ?thesis
    by (cases "pc_allowed_executables config") (simp_all add: check_policy_def Let_def image)
qed

text \<open>
  Claim C15.  The execution policy is a function of the normalized basename and fails closed: a
  denied name is refused whatever the allow list says, with an allow list only its members run,
  with no allow list nothing runs unless the permissive mode was chosen, and two programs with
  the same normalized basename get the same answer.
\<close>

theorem check_policy_fail_closed:
  "(check_policy config program = Inr () \<longleftrightarrow>
      normalize_program_name program \<notin> normalize_program_name ` pc_denied_executables config \<and>
      (case pc_allowed_executables config of
         None \<Rightarrow> pc_permissive config
       | Some allowed \<Rightarrow>
           normalize_program_name program \<in> normalize_program_name ` allowed)) \<and>
   check_policy process_config_default program \<noteq> Inr () \<and>
   (normalize_program_name program = normalize_program_name other \<longrightarrow>
      check_policy config program = check_policy config other)"
proof (intro conjI)
  show "check_policy process_config_default program \<noteq> Inr ()"
    by (simp add: check_policy_iff process_config_default_def)
  show "normalize_program_name program = normalize_program_name other \<longrightarrow>
      check_policy config program = check_policy config other"
    by (simp add: check_policy_def)
qed (rule check_policy_iff)

theorem check_policy_fail_closed_witness:
  "check_policy (process_config_with_allow_list [''git'', ''halt'']) ''/usr/bin/GIT.exe'' = Inr () \<and>
   check_policy (process_config_with_allow_list [''git'', ''halt'']) ''/sbin/halt'' \<noteq> Inr ()"
proof -
  let ?c = "process_config_with_allow_list [''git'', ''halt'']"
  have names: "normalize_program_name ''/usr/bin/GIT.exe'' = ''git''"
    "normalize_program_name ''git'' = ''git''" "normalize_program_name ''/sbin/halt'' = ''halt''"
    "normalize_program_name ''halt'' = ''halt''" "normalize_program_name ''init'' = ''init''"
    "normalize_program_name ''shutdown'' = ''shutdown''"
    "normalize_program_name ''reboot'' = ''reboot''"
    "normalize_program_name ''poweroff'' = ''poweroff''"
    by code_simp+
  have "check_policy ?c ''/usr/bin/GIT.exe'' = check_policy ?c ''git''"
    using check_policy_fail_closed [of _ "''/usr/bin/GIT.exe''" "''git''"] names by simp
  moreover have "check_policy ?c ''git'' = Inr ()" "check_policy ?c ''/sbin/halt'' \<noteq> Inr ()"
    using check_policy_fail_closed [of ?c "''git''"] check_policy_fail_closed [of ?c "''/sbin/halt''"]
    by (simp_all add: names process_config_with_allow_list_def process_config_default_def
        DEFAULT_DENIED_EXECUTABLES_def)
  ultimately show ?thesis by simp
qed

subsection \<open>The environment of a child\<close>

lemma hm_ok_insert_all [simp]: "hm_ok m \<Longrightarrow> hm_ok (insert_all layer m)"
  unfolding insert_all_def by (induction layer arbitrary: m) auto

lemma hm_get_insert_all:
  "hm_ok layer \<Longrightarrow>
     hm_get (insert_all layer m) k =
       (case hm_get layer k of Some v \<Rightarrow> Some v | None \<Rightarrow> hm_get m k)"
proof (induction layer arbitrary: m)
  case (Cons kv layer)
  obtain a v where kv: "kv = (a, v)" by fastforce
  have ok: "hm_ok layer" and a: "hm_get layer a = None"
    using Cons.prems by (auto simp: kv hm_ok_def hm_get_def map_of_eq_None_iff)
  have "hm_get (insert_all (kv # layer) m) k = hm_get (insert_all layer (hm_insert a v m)) k"
    by (simp add: insert_all_def kv)
  also have "\<dots> = (case hm_get layer k of Some v \<Rightarrow> Some v | None \<Rightarrow> hm_get (hm_insert a v m) k)"
    by (rule Cons.IH [OF ok])
  finally show ?case
    using a by (cases "k = a") (auto simp: kv hm_get_def hm_insert_def update_conv split: option.splits)
qed (simp add: insert_all_def)

lemma sanitize_env_get: "hm_get (sanitize_env env) k = (if stripped_key k then None else hm_get env k)"
  by (simp add: sanitize_env_def hm_get_filter_key)

lemma stripped_key_iff: "stripped_key k \<longleftrightarrow> prefix ''LD_'' k \<or> prefix ''DYLD_'' k"
  by (auto simp: stripped_key_def STRIPPED_ENV_EXACT_def STRIPPED_ENV_PREFIXES_def)

text \<open>
  Claim C39.  The environment a child gets on top of the daemon's own: no key of it influences the
  dynamic loader, every other key has the value of the request when the request sets it and the
  value of the session otherwise, and \<open>PATH\<close> can only come from a layer that holds it.
\<close>

theorem merge_session_env_layers:
  assumes "hm_ok session_env" and "hm_ok request_env"
  shows "hm_get (merge_session_env session_env request_env) k =
      (if prefix ''LD_'' k \<or> prefix ''DYLD_'' k then None
       else (case hm_get request_env k of
               Some v \<Rightarrow> Some v
             | None \<Rightarrow> hm_get session_env k)) \<and>
    hm_ok (merge_session_env session_env request_env) \<and>
    sanitize_env (merge_session_env session_env request_env) =
      merge_session_env session_env request_env"
proof (intro conjI)
  let ?m = "insert_all request_env (insert_all session_env [])"
  show "hm_get (merge_session_env session_env request_env) k =
      (if prefix ''LD_'' k \<or> prefix ''DYLD_'' k then None
       else (case hm_get request_env k of Some v \<Rightarrow> Some v | None \<Rightarrow> hm_get session_env k))"
    using assms
    by (simp add: merge_session_env_def sanitize_env_get stripped_key_iff hm_get_insert_all
        split: option.split)
qed (simp_all add: merge_session_env_def sanitize_env_def)

theorem merge_session_env_layers_witness:
  "hm_get (merge_session_env [(''LANG'', ''C''), (''LD_PRELOAD'', ''x'')] [(''LANG'', ''de'')]) ''LANG''
     = Some ''de'' \<and>
   hm_get (merge_session_env [(''LANG'', ''C''), (''LD_PRELOAD'', ''x'')] [(''LANG'', ''de'')])
     ''LD_PRELOAD'' = None"
proof -
  have ok: "hm_ok [(''LANG'', ''C''), (''LD_PRELOAD'', ''x'')]" "hm_ok [(''LANG'', ''de'')]"
    by (simp_all add: hm_ok_def)
  show ?thesis
    using merge_session_env_layers [OF ok, of "''LANG''"]
      merge_session_env_layers [OF ok, of "''LD_PRELOAD''"]
    by (simp add: hm_get_def)
qed

end
