(* ===== verification/Session.thy ===== *)
theory Session
  imports ExecPolicy FsResolve
begin

text \<open>
  \<open>are-daemon/src/session.rs\<close>: the table of agent sessions.  The manager is a record passed
  through every operation together with the machine; \<open>sm_poisoned\<close> is a poisoned mutex, which
  every operation checks as the code does.  Expiry is lazy: entries are removed when an operation
  meets them, and what is removed is reported so that the caller can kill its processes.
\<close>

section \<open>Configuration and errors\<close>

definition DEFAULT_SESSION_IDLE_TIMEOUT_SECS :: nat where
  "DEFAULT_SESSION_IDLE_TIMEOUT_SECS = 3600"

definition DEFAULT_SESSION_MAX_LIFETIME_SECS :: nat where
  "DEFAULT_SESSION_MAX_LIFETIME_SECS = 86400"

definition DEFAULT_MAX_SESSIONS :: nat where
  "DEFAULT_MAX_SESSIONS = 64"

record session_config =
  sc_idle_timeout_secs :: nat
  sc_max_lifetime_secs :: nat
  sc_max_sessions :: nat
  sc_max_processes_per_session :: nat

definition session_config_default :: session_config where
  "session_config_default =
     \<lparr> sc_idle_timeout_secs = DEFAULT_SESSION_IDLE_TIMEOUT_SECS,
       sc_max_lifetime_secs = DEFAULT_SESSION_MAX_LIFETIME_SECS,
       sc_max_sessions = DEFAULT_MAX_SESSIONS,
       sc_max_processes_per_session = DEFAULT_MAX_PROCESSES_PER_SESSION \<rparr>"

datatype session_error =
    SInvalidRequest string
  | SEnvironmentMismatch string
  | SNotFound string
  | SExpired string
  | STooManySessions string
  | SInternal string

fun session_error_display :: "session_error \<Rightarrow> string" where
  "session_error_display (SInvalidRequest s) = ''invalid request: '' @ s"
| "session_error_display (SEnvironmentMismatch s) = ''environment mismatch: '' @ s"
| "session_error_display (SNotFound s) = ''session not found: '' @ s"
| "session_error_display (SExpired s) = ''session expired: '' @ s"
| "session_error_display (STooManySessions s) = ''too many sessions: '' @ s"
| "session_error_display (SInternal s) = ''internal session error: '' @ s"

record session_record =
  sr_info :: session_info

record session_manager =
  sm_environment_id :: environment_id
  sm_config :: session_config
  sm_fs :: "filesystem_config option"
  sm_sessions :: "(session_id, session_record) hmap"
  sm_poisoned :: bool

definition session_manager_new ::
  "environment_id \<Rightarrow> session_config \<Rightarrow> filesystem_config option \<Rightarrow> session_manager" where
  "session_manager_new env config fs =
     \<lparr> sm_environment_id = env, sm_config = config, sm_fs = fs, sm_sessions = [],
       sm_poisoned = False \<rparr>"

definition session_count :: "session_manager \<Rightarrow> nat" where
  "session_count sm = (if sm_poisoned sm then 0 else length (sm_sessions sm))"

section \<open>Expiry, ownership, identifiers\<close>

text \<open>The subtraction on \<open>nat\<close> is \<open>saturating_sub\<close>.\<close>

definition session_is_expired :: "session_info \<Rightarrow> session_config \<Rightarrow> nat \<Rightarrow> bool" where
  "session_is_expired info config now \<longleftrightarrow>
     (let idle = now - si_last_activity info; age = now - si_created_at info
      in idle > sc_idle_timeout_secs config \<or> age > sc_max_lifetime_secs config)"

fun owner_permits :: "string option \<Rightarrow> string option \<Rightarrow> bool" where
  "owner_permits None _ = True"
| "owner_permits (Some _) None = False"
| "owner_permits (Some owner) (Some fp) = (owner = fp)"

definition alloc_session_id :: "(session_error, session_id) comp" where
  "alloc_session_id =
     bindM (mapM_err (\<lambda>e. SInternal (''failed to generate session id: '' @ e)) sys_getrandom)
       (\<lambda>bytes. liftM
         (mapE (\<lambda>e. SInternal (''failed to allocate session id: '' @ core_error_display e))
           (session_id_try_new (''sess-'' @ hex_of bytes))))"

definition sanitize_stored_env :: "env_map \<Rightarrow> env_map" where
  "sanitize_stored_env env = sanitize_env env"

definition purge_expired_locked ::
  "(session_id, session_record) hmap \<Rightarrow> session_config \<Rightarrow> nat
    \<Rightarrow> (session_id, session_record) hmap \<times> session_id list" where
  "purge_expired_locked table config now =
     (let expired = map fst
            (filter (\<lambda>(_, record). session_is_expired (sr_info record) config now) table)
      in (fold hm_remove expired table, expired))"

definition unknown_session :: "session_id \<Rightarrow> session_error" where
  "unknown_session sid = SNotFound (''unknown session id '' @ quoted (sess_str sid))"

definition expired_session :: "session_id \<Rightarrow> session_error" where
  "expired_session sid = SExpired (''session '' @ quoted (sess_str sid) @ '' expired'')"

definition sessions_poisoned :: session_error where
  "sessions_poisoned = SInternal ''session table poisoned''"

section \<open>Creation\<close>

definition session_workdir_error :: "errno \<Rightarrow> session_error" where
  "session_workdir_error e =
     (case errno_kind e of
        KNotFound \<Rightarrow> SInvalidRequest ''working_directory does not exist''
      | KPermissionDenied \<Rightarrow> SInvalidRequest ''working_directory permission denied''
      | _ \<Rightarrow> SInvalidRequest (''working_directory error: '' @ errno_display e))"

definition path_refused :: string where
  "path_refused = ''env var PATH must not be supplied: programs resolve against the daemon''
     @ [squote] @ ''s trusted PATH''"

definition create_checks ::
  "session_manager \<Rightarrow> create_session_request \<Rightarrow> (session_error, string) comp" where
  "create_checks sm req =
     bindM (liftM (mapE (\<lambda>e. SInvalidRequest (core_error_display e)) (create_session_validate req)))
       (\<lambda>_.
     if cs_environment_id req \<noteq> sm_environment_id sm
     then failM (SEnvironmentMismatch (''requested environment ''
            @ quoted (env_str (cs_environment_id req)) @ '' does not match managed environment ''
            @ quoted (env_str (sm_environment_id sm))))
     else
       (case sm_fs sm of
          None \<Rightarrow> failM (SInvalidRequest ''filesystem backend not configured'')
        | Some fs \<Rightarrow>
            let workdir_rel = (case cs_working_directory req of None \<Rightarrow> ''.'' | Some d \<Rightarrow> d) in
            bindM (mapM_err (\<lambda>_. SInvalidRequest ''invalid working_directory'')
                    (fs_resolve fs workdir_rel)) (\<lambda>workdir.
            bindM (mapM_err session_workdir_error (sys_stat workdir)) (\<lambda>meta.
            if md_kind meta \<noteq> KDir
            then failM (SInvalidRequest ''working_directory is not a directory'')
            else if hm_get (cs_env_vars req) ''PATH'' \<noteq> None
            then failM (SInvalidRequest path_refused)
            else okM workdir_rel))))"

definition create_entry ::
  "session_manager \<Rightarrow> create_session_request \<Rightarrow> string option \<Rightarrow> string \<Rightarrow> nat \<Rightarrow> session_id list
    \<Rightarrow> world \<Rightarrow> (session_error + session_info \<times> session_id list) \<times> session_manager \<times> world" where
  "create_entry sm req owner workdir_rel now purged w =
     (let table = sm_sessions sm in
      if length table \<ge> sc_max_sessions (sm_config sm)
      then (Inl (STooManySessions (''session table full ('' @ nat_str (length table)
              @ '' live sessions): refusing creation'')), sm, w)
      else
        (case fresh_id MAX_ID_ATTEMPTS alloc_session_id (\<lambda>c. hm_get table c \<noteq> None) w of
           (Inl e, w1) \<Rightarrow> (Inl e, sm, w1)
         | (Inr None, w1) \<Rightarrow>
             (Inl (SInternal ''repeated session id collisions; refusing creation''), sm, w1)
         | (Inr (Some sid), w1) \<Rightarrow>
             let info = \<lparr> si_session_id = sid, si_environment_id = cs_environment_id req,
                          si_working_directory = workdir_rel,
                          si_env_vars = sanitize_stored_env (cs_env_vars req),
                          si_created_at = now, si_last_activity = now, si_owner = owner \<rparr>
             in (Inr (info, purged),
                 sm\<lparr> sm_sessions := hm_insert sid \<lparr> sr_info = info \<rparr> table \<rparr>, w1)))"

definition create_owned ::
  "session_manager \<Rightarrow> create_session_request \<Rightarrow> string option \<Rightarrow> world
    \<Rightarrow> (session_error + session_info \<times> session_id list) \<times> session_manager \<times> world" where
  "create_owned sm req owner w =
     (case create_checks sm req w of
        (Inl e, w1) \<Rightarrow> (Inl e, sm, w1)
      | (Inr workdir_rel, w1) \<Rightarrow>
          (case now_secs w1 of (now, w2) \<Rightarrow>
             if sm_poisoned sm then (Inl sessions_poisoned, sm, w2)
             else
               (case purge_expired_locked (sm_sessions sm) (sm_config sm) now of
                  (table, purged) \<Rightarrow>
                    create_entry (sm\<lparr> sm_sessions := table \<rparr>) req owner workdir_rel now purged w2)))"

definition sm_create ::
  "session_manager \<Rightarrow> create_session_request \<Rightarrow> world
    \<Rightarrow> (session_error + session_info \<times> session_id list) \<times> session_manager \<times> world" where
  "sm_create sm req w = create_owned sm req None w"

section \<open>Access\<close>

definition remove_session :: "session_id \<Rightarrow> session_manager \<Rightarrow> session_manager" where
  "remove_session sid sm = sm\<lparr> sm_sessions := hm_remove sid (sm_sessions sm) \<rparr>"

definition bump_session :: "session_id \<Rightarrow> session_info \<Rightarrow> nat \<Rightarrow> session_manager \<Rightarrow> session_manager" where
  "bump_session sid info now sm =
     sm\<lparr> sm_sessions := hm_insert sid \<lparr> sr_info = info\<lparr> si_last_activity := now \<rparr> \<rparr> (sm_sessions sm) \<rparr>"

definition sm_get ::
  "session_manager \<Rightarrow> session_id \<Rightarrow> world
    \<Rightarrow> (session_error + session_info) \<times> session_manager \<times> world" where
  "sm_get sm sid w =
     (case now_secs w of (now, w1) \<Rightarrow>
        if sm_poisoned sm then (Inl sessions_poisoned, sm, w1)
        else
          (case hm_get (sm_sessions sm) sid of
             None \<Rightarrow> (Inl (unknown_session sid), sm, w1)
           | Some record \<Rightarrow>
               if session_is_expired (sr_info record) (sm_config sm) now
               then (Inl (expired_session sid), remove_session sid sm, w1)
               else (Inr ((sr_info record)\<lparr> si_last_activity := now \<rparr>),
                     bump_session sid (sr_info record) now sm, w1)))"

definition sm_touch ::
  "session_manager \<Rightarrow> session_id \<Rightarrow> world
    \<Rightarrow> (session_error + session_info) \<times> session_manager \<times> world" where
  "sm_touch sm sid w = sm_get sm sid w"

definition get_owned ::
  "session_manager \<Rightarrow> session_id \<Rightarrow> string option \<Rightarrow> world
    \<Rightarrow> ((session_error + session_info) \<times> session_id list) \<times> session_manager \<times> world" where
  "get_owned sm sid caller_fp w =
     (case now_secs w of (now, w1) \<Rightarrow>
        if sm_poisoned sm then ((Inl sessions_poisoned, []), sm, w1)
        else
          (case hm_get (sm_sessions sm) sid of
             None \<Rightarrow> ((Inl (unknown_session sid), []), sm, w1)
           | Some record \<Rightarrow>
               if \<not> owner_permits (si_owner (sr_info record)) caller_fp
               then
                 (if session_is_expired (sr_info record) (sm_config sm) now
                  then ((Inl (unknown_session sid), [sid]), remove_session sid sm, w1)
                  else ((Inl (unknown_session sid), []), sm, w1))
               else if session_is_expired (sr_info record) (sm_config sm) now
               then ((Inl (expired_session sid), [sid]), remove_session sid sm, w1)
               else ((Inr ((sr_info record)\<lparr> si_last_activity := now \<rparr>), []),
                     bump_session sid (sr_info record) now sm, w1)))"

definition touch_owned ::
  "session_manager \<Rightarrow> session_id \<Rightarrow> string option \<Rightarrow> world
    \<Rightarrow> ((session_error + session_info) \<times> session_id list) \<times> session_manager \<times> world" where
  "touch_owned sm sid caller_fp w = get_owned sm sid caller_fp w"

definition sm_list ::
  "session_manager \<Rightarrow> environment_id \<Rightarrow> world
    \<Rightarrow> (session_info list \<times> session_id list) \<times> session_manager \<times> world" where
  "sm_list sm env w =
     (case now_secs w of (now, w1) \<Rightarrow>
        if sm_poisoned sm then (([], []), sm, w1)
        else
          (case purge_expired_locked (sm_sessions sm) (sm_config sm) now of (table, purged) \<Rightarrow>
             ((map sr_info (filter (\<lambda>record. si_environment_id (sr_info record) = env)
                 (map snd table)), purged), sm\<lparr> sm_sessions := table \<rparr>, w1)))"

definition list_owned ::
  "session_manager \<Rightarrow> environment_id \<Rightarrow> string option \<Rightarrow> world
    \<Rightarrow> (session_info list \<times> session_id list) \<times> session_manager \<times> world" where
  "list_owned sm env caller_fp w =
     (case now_secs w of (now, w1) \<Rightarrow>
        if sm_poisoned sm then (([], []), sm, w1)
        else
          (case purge_expired_locked (sm_sessions sm) (sm_config sm) now of (table, purged) \<Rightarrow>
             ((map sr_info
                 (filter (\<lambda>record. (case caller_fp of
                             None \<Rightarrow> True
                           | Some fp \<Rightarrow> si_owner (sr_info record) = None
                               \<or> si_owner (sr_info record) = Some fp))
                   (filter (\<lambda>record. si_environment_id (sr_info record) = env) (map snd table))),
               purged), sm\<lparr> sm_sessions := table \<rparr>, w1)))"

definition terminate_owned ::
  "session_manager \<Rightarrow> session_id \<Rightarrow> string option \<Rightarrow> world
    \<Rightarrow> ((session_error + unit) \<times> session_id list) \<times> session_manager \<times> world" where
  "terminate_owned sm sid caller_fp w =
     (case now_secs w of (now, w1) \<Rightarrow>
        if sm_poisoned sm then ((Inl sessions_poisoned, []), sm, w1)
        else
          (case hm_get (sm_sessions sm) sid of
             None \<Rightarrow> ((Inl (unknown_session sid), []), sm, w1)
           | Some record \<Rightarrow>
               if \<not> owner_permits (si_owner (sr_info record)) caller_fp
               then
                 (if session_is_expired (sr_info record) (sm_config sm) now
                  then ((Inl (unknown_session sid), [sid]), remove_session sid sm, w1)
                  else ((Inl (unknown_session sid), []), sm, w1))
               else if session_is_expired (sr_info record) (sm_config sm) now
               then ((Inl (expired_session sid), [sid]), remove_session sid sm, w1)
               else ((Inr (), []), remove_session sid sm, w1)))"

definition sm_terminate ::
  "session_manager \<Rightarrow> session_id \<Rightarrow> world \<Rightarrow> (session_error + unit) \<times> session_manager \<times> world" where
  "sm_terminate sm sid w =
     (case terminate_owned sm sid None w of ((r, purged), sm1, w1) \<Rightarrow> (r, sm1, w1))"

end
