(* ===== verification/SessionFacts.thy ===== *)
theory SessionFacts
  imports Session
begin

text \<open>
  Correctness of the session table: the contract of an owner-checked operation (a locale with one
  instance per operation), the invariant of every reachable table, what listing, creation and
  purging return, and the one path that loses track of a purged session.
\<close>

definition session_of :: "session_manager \<Rightarrow> session_id \<Rightarrow> session_info option" where
  "session_of sm sid = map_option sr_info (hm_get (sm_sessions sm) sid)"

definition session_ids :: "session_manager \<Rightarrow> session_id set" where
  "session_ids sm = hm_keys (sm_sessions sm)"

lemma session_ids_iff: "sid \<in> session_ids sm \<longleftrightarrow> session_of sm sid \<noteq> None"
  by (simp add: session_ids_def session_of_def hm_keys_conv)

lemma session_of_remove [simp]:
  "session_of (remove_session sid sm) = (session_of sm)(sid := None)"
  by (auto simp: session_of_def remove_session_def fun_eq_iff)

lemma session_of_bump [simp]:
  "session_of (bump_session sid info now sm) =
     (session_of sm)(sid \<mapsto> info\<lparr> si_last_activity := now \<rparr>)"
  by (auto simp: session_of_def bump_session_def fun_eq_iff)

lemma session_ids_remove [simp]: "session_ids (remove_session sid sm) = session_ids sm - {sid}"
  by (auto simp: session_ids_iff split: if_splits)

lemma sm_sessions_changed [simp]:
  "sm_sessions (remove_session sid sm) = hm_remove sid (sm_sessions sm)"
  "sm_sessions (bump_session sid info now sm) =
     hm_insert sid \<lparr> sr_info = info\<lparr> si_last_activity := now \<rparr> \<rparr> (sm_sessions sm)"
  by (simp_all add: remove_session_def bump_session_def)

section \<open>Owner-checked operations\<close>

text \<open>
  The contract of an operation that addresses one session: \<open>view\<close> is the session under an
  identifier, \<open>stale\<close> says that it is expired at the next reading of the clock.  A caller that may
  not see the session learns nothing, other sessions are left alone, and a failing operation
  removes at most the addressed session and reports it exactly when it does.
\<close>

locale owned_access =
  fixes usable :: "'m \<Rightarrow> bool"
    and view :: "'m \<Rightarrow> session_id \<Rightarrow> session_info option"
    and stale :: "'m \<Rightarrow> session_id \<Rightarrow> world \<Rightarrow> bool"
    and access :: "'m \<Rightarrow> session_id \<Rightarrow> string option \<Rightarrow> world
      \<Rightarrow> ((session_error + 'r) \<times> session_id list) \<times> 'm \<times> world"
  assumes absent: "usable m \<Longrightarrow> view m sid = None \<Longrightarrow> access m sid fp w = ((r, p), m', w') \<Longrightarrow>
      r = Inl (unknown_session sid) \<and> p = [] \<and> m' = m"
    and foreign: "usable m \<Longrightarrow> view m sid = Some info \<Longrightarrow> \<not> owner_permits (si_owner info) fp \<Longrightarrow>
      access m sid fp w = ((r, p), m', w') \<Longrightarrow>
      r = Inl (unknown_session sid) \<and> (\<not> stale m sid w \<longrightarrow> m' = m)"
    and frame: "access m sid fp w = ((r, p), m', w') \<Longrightarrow> other \<noteq> sid \<Longrightarrow> view m' other = view m other"
    and failure: "access m sid fp w = ((Inl e, p), m', w') \<Longrightarrow>
      view m' sid = view m sid \<and> p = [] \<or> view m sid \<noteq> None \<and> view m' sid = None \<and> p = [sid]"
begin

definition hidden :: "'m \<Rightarrow> session_id \<Rightarrow> string option \<Rightarrow> bool" where
  "hidden m sid fp \<longleftrightarrow>
     (case view m sid of None \<Rightarrow> True | Some info \<Rightarrow> \<not> owner_permits (si_owner info) fp)"

lemma hidden_reply:
  "usable m \<Longrightarrow> hidden m sid fp \<Longrightarrow> access m sid fp w = ((r, p), m', w') \<Longrightarrow>
     r = Inl (unknown_session sid)"
  by (cases "view m sid") (simp_all add: hidden_def absent foreign)

lemma no_oracle:
  assumes "usable m" "hidden m sid fp" and "usable n" "hidden n sid fp"
  shows "fst (fst (access m sid fp w)) = fst (fst (access n sid fp v))"
  using hidden_reply [OF assms(1,2)] hidden_reply [OF assms(3,4)] by (metis prod.collapse)

lemma hidden_inert:
  "usable m \<Longrightarrow> hidden m sid fp \<Longrightarrow> \<not> stale m sid w \<Longrightarrow> access m sid fp w = ((r, p), m', w') \<Longrightarrow>
     m' = m"
  by (cases "view m sid") (simp_all add: hidden_def absent foreign)

text \<open>What disappears on a failing access is exactly what is reported.\<close>

lemma failure_reported:
  assumes "access m sid fp w = ((Inl e, p), m', w')"
  shows "view m other \<noteq> None \<and> view m' other = None \<longleftrightarrow> other \<in> set p"
    and "view m' other \<noteq> None \<Longrightarrow> view m' other = view m other"
  using frame [OF assms, of other] failure [OF assms] by (cases "other = sid"; auto)+

end

definition session_stale :: "session_manager \<Rightarrow> session_id \<Rightarrow> world \<Rightarrow> bool" where
  "session_stale sm sid w =
     (case session_of sm sid of
        None \<Rightarrow> False
      | Some info \<Rightarrow> session_is_expired info (sm_config sm) (fst (now_secs w)))"

definition session_usable :: "session_manager \<Rightarrow> bool" where
  "session_usable sm \<longleftrightarrow> \<not> sm_poisoned sm"

lemmas session_views = session_of_def session_stale_def session_usable_def

lemma get_owned_cases:
  assumes "get_owned sm sid fp w = ((r, p), sm', w')"
  obtains (poisoned) "sm_poisoned sm" "r = Inl sessions_poisoned" "p = []" "sm' = sm"
  | (missing) "session_usable sm" "session_of sm sid = None" "r = Inl (unknown_session sid)"
      "p = []" "sm' = sm"
  | (denied) info where "session_usable sm" "session_of sm sid = Some info"
      "\<not> owner_permits (si_owner info) fp" "\<not> session_stale sm sid w"
      "r = Inl (unknown_session sid)" "p = []" "sm' = sm"
  | (expired) info where "session_usable sm" "session_of sm sid = Some info"
      "session_stale sm sid w" "p = [sid]" "sm' = remove_session sid sm"
      "r = Inl (if owner_permits (si_owner info) fp then expired_session sid else unknown_session sid)"
  | (live) info where "session_usable sm" "session_of sm sid = Some info"
      "owner_permits (si_owner info) fp" "\<not> session_stale sm sid w"
      "r = Inr (info\<lparr> si_last_activity := fst (now_secs w) \<rparr>)" "p = []"
      "sm' = bump_session sid info (fst (now_secs w)) sm"
proof -
  obtain now w1 where n: "now_secs w = (now, w1)" by fastforce
  note run = assms [unfolded get_owned_def n prod.case]
  consider "sm_poisoned sm" | "\<not> sm_poisoned sm" "hm_get (sm_sessions sm) sid = None"
    | stored where "\<not> sm_poisoned sm" "hm_get (sm_sessions sm) sid = Some stored" by fastforce
  then show ?thesis
  proof cases
    case 1
    show ?thesis by (rule poisoned) (use run 1 in simp_all)
  next
    case 2
    show ?thesis by (rule missing) (use run 2 in \<open>simp_all add: session_views\<close>)
  next
    case 3
    let ?i = "sr_info stored"
    consider "session_is_expired ?i (sm_config sm) now"
      | "\<not> session_is_expired ?i (sm_config sm) now" "owner_permits (si_owner ?i) fp"
      | "\<not> session_is_expired ?i (sm_config sm) now" "\<not> owner_permits (si_owner ?i) fp" by blast
    then show ?thesis
    proof cases
      case 1
      show ?thesis
        by (rule expired [of ?i]) (use run 1 3 in \<open>auto simp: session_views n split: if_splits\<close>)
    next
      case 2
      show ?thesis by (rule live [of ?i]) (use run 2 3 in \<open>simp_all add: session_views n\<close>)
    next
      case 3
      show ?thesis
        by (rule denied [of ?i])
          (use run 3 \<open>\<not> sm_poisoned sm\<close> \<open>hm_get (sm_sessions sm) sid = Some stored\<close>
            in \<open>simp_all add: session_views n\<close>)
    qed
  qed
qed

interpretation fetch: owned_access session_usable session_of session_stale get_owned
proof unfold_locales
  fix m sid fp w r p m' w'
  assume "get_owned m sid fp w = ((r, p), m', w')" and "session_usable m" and "session_of m sid = None"
  then show "r = Inl (unknown_session sid) \<and> p = [] \<and> m' = m"
    by (cases rule: get_owned_cases) (auto simp: session_usable_def)
next
  fix m sid fp w r p m' w' info
  assume "get_owned m sid fp w = ((r, p), m', w')" and "session_usable m"
    and "session_of m sid = Some info" and "\<not> owner_permits (si_owner info) fp"
  then show "r = Inl (unknown_session sid) \<and> (\<not> session_stale m sid w \<longrightarrow> m' = m)"
    by (cases rule: get_owned_cases) (auto simp: session_usable_def)
next
  fix m sid fp w r p m' w' and other :: session_id
  assume "get_owned m sid fp w = ((r, p), m', w')" and "other \<noteq> sid"
  then show "session_of m' other = session_of m other" by (cases rule: get_owned_cases) auto
next
  fix m sid fp w e p m' w'
  assume "get_owned m sid fp w = ((Inl e, p), m', w')"
  then show "session_of m' sid = session_of m sid \<and> p = [] \<or>
      session_of m sid \<noteq> None \<and> session_of m' sid = None \<and> p = [sid]"
    by (cases rule: get_owned_cases) auto
qed

lemma terminate_owned_cases:
  assumes "terminate_owned sm sid fp w = ((r, p), sm', w')"
  obtains (poisoned) "sm_poisoned sm" "r = Inl sessions_poisoned" "p = []" "sm' = sm"
  | (missing) "session_usable sm" "session_of sm sid = None" "r = Inl (unknown_session sid)"
      "p = []" "sm' = sm"
  | (denied) info where "session_usable sm" "session_of sm sid = Some info"
      "\<not> owner_permits (si_owner info) fp" "\<not> session_stale sm sid w"
      "r = Inl (unknown_session sid)" "p = []" "sm' = sm"
  | (expired) info where "session_usable sm" "session_of sm sid = Some info"
      "session_stale sm sid w" "p = [sid]" "sm' = remove_session sid sm"
      "r = Inl (if owner_permits (si_owner info) fp then expired_session sid else unknown_session sid)"
  | (removed) info where "session_usable sm" "session_of sm sid = Some info"
      "owner_permits (si_owner info) fp" "\<not> session_stale sm sid w"
      "r = Inr ()" "p = []" "sm' = remove_session sid sm"
proof -
  obtain now w1 where n: "now_secs w = (now, w1)" by fastforce
  note run = assms [unfolded terminate_owned_def n prod.case]
  consider "sm_poisoned sm" | "\<not> sm_poisoned sm" "hm_get (sm_sessions sm) sid = None"
    | stored where "\<not> sm_poisoned sm" "hm_get (sm_sessions sm) sid = Some stored" by fastforce
  then show ?thesis
  proof cases
    case 1
    show ?thesis by (rule poisoned) (use run 1 in simp_all)
  next
    case 2
    show ?thesis by (rule missing) (use run 2 in \<open>simp_all add: session_views\<close>)
  next
    case 3
    let ?i = "sr_info stored"
    consider "session_is_expired ?i (sm_config sm) now"
      | "\<not> session_is_expired ?i (sm_config sm) now" "owner_permits (si_owner ?i) fp"
      | "\<not> session_is_expired ?i (sm_config sm) now" "\<not> owner_permits (si_owner ?i) fp" by blast
    then show ?thesis
    proof cases
      case 1
      show ?thesis
        by (rule expired [of ?i]) (use run 1 3 in \<open>auto simp: session_views n split: if_splits\<close>)
    next
      case 2
      show ?thesis by (rule removed [of ?i]) (use run 2 3 in \<open>simp_all add: session_views n\<close>)
    next
      case 3
      show ?thesis
        by (rule denied [of ?i])
          (use run 3 \<open>\<not> sm_poisoned sm\<close> \<open>hm_get (sm_sessions sm) sid = Some stored\<close>
            in \<open>simp_all add: session_views n\<close>)
    qed
  qed
qed

interpretation drop: owned_access session_usable session_of session_stale terminate_owned
proof unfold_locales
  fix m sid fp w r p m' w'
  assume "terminate_owned m sid fp w = ((r, p), m', w')" and "session_usable m" and "session_of m sid = None"
  then show "r = Inl (unknown_session sid) \<and> p = [] \<and> m' = m"
    by (cases rule: terminate_owned_cases) (auto simp: session_usable_def)
next
  fix m sid fp w r p m' w' info
  assume "terminate_owned m sid fp w = ((r, p), m', w')" and "session_usable m"
    and "session_of m sid = Some info" and "\<not> owner_permits (si_owner info) fp"
  then show "r = Inl (unknown_session sid) \<and> (\<not> session_stale m sid w \<longrightarrow> m' = m)"
    by (cases rule: terminate_owned_cases) (auto simp: session_usable_def)
next
  fix m sid fp w r p m' w' and other :: session_id
  assume "terminate_owned m sid fp w = ((r, p), m', w')" and "other \<noteq> sid"
  then show "session_of m' other = session_of m other" by (cases rule: terminate_owned_cases) auto
next
  fix m sid fp w e p m' w'
  assume "terminate_owned m sid fp w = ((Inl e, p), m', w')"
  then show "session_of m' sid = session_of m sid \<and> p = [] \<or>
      session_of m sid \<noteq> None \<and> session_of m' sid = None \<and> p = [sid]"
    by (cases rule: terminate_owned_cases) auto
qed

section \<open>Purging\<close>

definition unexpired :: "session_manager \<Rightarrow> nat \<Rightarrow> session_id \<Rightarrow> session_info option" where
  "unexpired sm now sid =
     (case session_of sm sid of
        None \<Rightarrow> None
      | Some info \<Rightarrow> if session_is_expired info (sm_config sm) now then None else Some info)"

definition expired_ids :: "session_manager \<Rightarrow> nat \<Rightarrow> session_id set" where
  "expired_ids sm now = {sid \<in> session_ids sm. unexpired sm now sid = None}"

lemma fold_hm_remove: "fold hm_remove ks m = filter (\<lambda>(k, v). k \<notin> set ks) m"
  by (induction ks arbitrary: m) (auto simp: hm_remove_filter intro!: filter_cong)

lemma purge_keeps:
  assumes "hm_ok table"
  shows "fst (purge_expired_locked table config now) =
    filter (\<lambda>(sid, record). \<not> session_is_expired (sr_info record) config now) table"
  using assms
  by (auto simp: purge_expired_locked_def fold_hm_remove hm_in_set_get image_iff
      intro!: filter_cong)

lemma purge_spec:
  assumes ok: "hm_ok (sm_sessions sm)"
    and run: "purge_expired_locked (sm_sessions sm) (sm_config sm) now = (table, purged)"
  shows "hm_ok table" and "length table \<le> length (sm_sessions sm)"
    and "session_of (sm\<lparr> sm_sessions := table \<rparr>) = unexpired sm now"
    and "set purged = expired_ids sm now"
proof -
  have t: "table = filter (\<lambda>(sid, record). \<not> session_is_expired (sr_info record) (sm_config sm) now)
      (sm_sessions sm)"
    using purge_keeps [OF ok] run by (metis fst_conv)
  show "hm_ok table" "length table \<le> length (sm_sessions sm)" using ok by (auto simp: t)
  have get: "hm_get table sid = (case hm_get (sm_sessions sm) sid of None \<Rightarrow> None
      | Some record \<Rightarrow> if \<not> session_is_expired (sr_info record) (sm_config sm) now then Some record
                      else None)" for sid
    unfolding t using hm_get_filter [OF ok] .
  then show "session_of (sm\<lparr> sm_sessions := table \<rparr>) = unexpired sm now"
    by (auto simp: session_of_def unexpired_def fun_eq_iff split: option.splits)
  have "sid \<in> set purged \<longleftrightarrow> (\<exists>record. hm_get (sm_sessions sm) sid = Some record \<and>
      session_is_expired (sr_info record) (sm_config sm) now)" for sid
    using run hm_in_set_get [OF ok, of sid]
    by (fastforce simp: purge_expired_locked_def Let_def image_iff)
  then show "set purged = expired_ids sm now"
    by (auto simp: expired_ids_def unexpired_def session_ids_iff session_of_def
        split: option.splits if_splits)
qed

section \<open>The invariant of the table\<close>

definition stored_ok :: "environment_id \<Rightarrow> session_id \<Rightarrow> session_info \<Rightarrow> bool" where
  "stored_ok env sid info \<longleftrightarrow>
     si_session_id info = sid \<and> si_environment_id info = env \<and>
     valid_id (sess_str sid) \<and> prefix ''sess-'' (sess_str sid) \<and>
     hm_ok (si_env_vars info) \<and> hm_get (si_env_vars info) ''PATH'' = None \<and>
     (\<forall>key. stripped_key key \<longrightarrow> hm_get (si_env_vars info) key = None)"

definition sm_ok :: "environment_id \<Rightarrow> session_config \<Rightarrow> session_manager \<Rightarrow> bool" where
  "sm_ok env config sm \<longleftrightarrow>
     sm_environment_id sm = env \<and> sm_config sm = config \<and> hm_ok (sm_sessions sm) \<and>
     length (sm_sessions sm) \<le> sc_max_sessions config \<and>
     (\<forall>sid info. session_of sm sid = Some info \<longrightarrow> stored_ok env sid info)"

lemma sm_ok_remove: "sm_ok env config sm \<Longrightarrow> sm_ok env config (remove_session sid sm)"
proof -
  assume ok: "sm_ok env config sm"
  have "length (hm_remove sid (sm_sessions sm)) \<le> sc_max_sessions config"
    using ok length_hm_remove_le [of sid "sm_sessions sm"] by (simp add: sm_ok_def)
  moreover have "sm_environment_id (remove_session sid sm) = sm_environment_id sm"
    "sm_config (remove_session sid sm) = sm_config sm" by (simp_all add: remove_session_def)
  ultimately show ?thesis using ok by (simp add: sm_ok_def)
qed

lemma sm_ok_bump:
  "sm_ok env config sm \<Longrightarrow> session_of sm sid = Some info \<Longrightarrow>
     sm_ok env config (bump_session sid info now sm)"
proof -
  assume ok: "sm_ok env config sm" and sid: "session_of sm sid = Some info"
  have "stored_ok env sid (info\<lparr> si_last_activity := now \<rparr>)"
    using ok sid by (simp add: sm_ok_def stored_ok_def)
  moreover have "sm_environment_id (bump_session sid info now sm) = sm_environment_id sm"
    "sm_config (bump_session sid info now sm) = sm_config sm" by (simp_all add: bump_session_def)
  moreover have "hm_get (sm_sessions sm) sid \<noteq> None" using sid by (auto simp: session_of_def)
  ultimately show ?thesis using ok
    by (cases "hm_get (sm_sessions sm) sid") (simp_all add: sm_ok_def length_hm_insert)
qed

lemma sm_ok_purge:
  assumes "sm_ok env config sm"
    and "purge_expired_locked (sm_sessions sm) (sm_config sm) now = (table, purged)"
  shows "sm_ok env config (sm\<lparr> sm_sessions := table \<rparr>)"
  using assms purge_spec [OF _ assms(2)]
  by (auto simp: sm_ok_def unexpired_def split: option.splits if_splits)

interpretation sess_ids: id_source alloc_session_id sess_str "''sess-''"
proof unfold_locales
  show "same_tree.obeys alloc_session_id"
    unfolding alloc_session_id_def by (intro same_tree.obeys_intros getrandom_quiet)
next
  fix w :: world and i w' assume "alloc_session_id w = (Inr i, w')"
  then obtain bytes where "session_id_try_new (''sess-'' @ hex_of bytes) = Inr i"
    by (auto simp: alloc_session_id_def bindM_Inr)
  from sess_newtype.Ok_valid [OF this] show "valid_id (sess_str i) \<and> prefix ''sess-'' (sess_str i)"
    by auto
next
  fix w :: world and bytes :: bytes
  assume ent: "w_entropy w (w_rng w) = Inr bytes" and len: "length bytes = 16"
  have "valid_id (''sess-'' @ hex_of bytes)"
    by (rule tagged_hex_valid) (simp_all add: len is_valid_id_byte_def)
  from sess_newtype.accepts [OF this] obtain i where
    i: "session_id_try_new (''sess-'' @ hex_of bytes) = Inr i" "sess_str i = ''sess-'' @ hex_of bytes"
    by blast
  then show "\<exists>i w'. alloc_session_id w = (Inr i, w') \<and> sess_str i = ''sess-'' @ hex_of bytes"
    using ent by (simp add: alloc_session_id_def bindM_def mapM_err_def sys_getrandom_def)
qed

section \<open>Creation\<close>

lemma sanitized_env_ok:
  assumes "hm_ok env"
  shows "hm_ok (sanitize_stored_env env)"
    and "stripped_key key \<Longrightarrow> hm_get (sanitize_stored_env env) key = None"
    and "hm_get env ''PATH'' = None \<Longrightarrow> hm_get (sanitize_stored_env env) ''PATH'' = None"
  using assms by (simp_all add: sanitize_stored_env_def sanitize_env_get)
    (simp add: sanitize_env_def)

lemma create_checks_Ok:
  assumes "create_checks sm req w = (Inr rel, w')"
  shows "cs_environment_id req = sm_environment_id sm" and "hm_get (cs_env_vars req) ''PATH'' = None"
    and "rel = (case cs_working_directory req of None \<Rightarrow> ''.'' | Some d \<Rightarrow> d)"
    and "\<exists>fs p w1 meta w2. sm_fs sm = Some fs \<and> fs_resolve fs rel w = (Inr p, w1) \<and>
      sys_stat p w1 = (Inr meta, w2) \<and> md_kind meta = KDir"
  using assms
  by (auto simp: create_checks_def bindM_Inr Let_def split: if_splits option.splits)

lemma fresh_id_error:
  "fresh_id n alloc taken w = (Inl e, w') \<Longrightarrow> \<exists>v v'. alloc v = (Inl e, v')"
  by (induction n arbitrary: w) (auto simp: bindM_Inl split: if_splits)

lemma alloc_session_id_error:
  assumes "alloc_session_id w = (Inl e, w')"
  obtains msg where "e = SInternal msg"
  using assms
  by (auto simp: alloc_session_id_def bindM_Inl mapM_err_def mapE_Inl_iff split: prod.splits)

lemma create_entry_cases:
  assumes "create_entry sm req owner rel now purged w = (r, sm', w')"
  obtains (full) "r = Inl (STooManySessions (''session table full ('' @ nat_str (length (sm_sessions sm))
        @ '' live sessions): refusing creation''))"
      "sc_max_sessions (sm_config sm) \<le> length (sm_sessions sm)" "sm' = sm"
  | (failed) msg where "r = Inl (SInternal msg)" "length (sm_sessions sm) < sc_max_sessions (sm_config sm)" "sm' = sm"
  | (created) info where "r = Inr (info, purged)"
      "length (sm_sessions sm) < sc_max_sessions (sm_config sm)"
      "session_of sm (si_session_id info) = None"
      "valid_id (sess_str (si_session_id info))" "prefix ''sess-'' (sess_str (si_session_id info))"
      "si_environment_id info = cs_environment_id req" "si_working_directory info = rel"
      "si_env_vars info = sanitize_stored_env (cs_env_vars req)"
      "si_created_at info = now" "si_last_activity info = now" "si_owner info = owner"
      "sm' = sm\<lparr> sm_sessions := hm_insert (si_session_id info) \<lparr> sr_info = info \<rparr> (sm_sessions sm) \<rparr>"
proof (cases "sc_max_sessions (sm_config sm) \<le> length (sm_sessions sm)")
  case True
  then show ?thesis using assms by (intro full) (auto simp: create_entry_def Let_def)
next
  case False
  obtain c w1 where draw: "fresh_id MAX_ID_ATTEMPTS alloc_session_id
      (\<lambda>c. hm_get (sm_sessions sm) c \<noteq> None) w = (c, w1)" by fastforce
  note run = assms [unfolded create_entry_def Let_def draw] False
  show ?thesis
  proof (cases c)
    case (Inl e)
    then obtain v v' where "alloc_session_id v = (Inl e, v')"
      using fresh_id_error [of _ alloc_session_id _ w e w1] draw by blast
    then obtain msg where "e = SInternal msg" by (rule alloc_session_id_error)
    with run Inl show ?thesis by (intro failed [of msg]) auto
  next
    case (Inr opt)
    show ?thesis
    proof (cases opt)
      case None
      with run Inr show ?thesis by (intro failed) auto
    next
      case (Some sid)
      with Inr draw have "fresh_id MAX_ID_ATTEMPTS alloc_session_id
          (\<lambda>c. hm_get (sm_sessions sm) c \<noteq> None) w = (Inr (Some sid), w1)" by simp
      from sess_ids.fresh_free [OF this]
      have "session_of sm sid = None" "valid_id (sess_str sid)" "prefix ''sess-'' (sess_str sid)"
        by (auto simp: session_of_def)
      with run Inr Some show ?thesis
        by (intro created [of "\<lparr> si_session_id = sid, si_environment_id = cs_environment_id req,
              si_working_directory = rel, si_env_vars = sanitize_stored_env (cs_env_vars req),
              si_created_at = now, si_last_activity = now, si_owner = owner \<rparr>"]) auto
    qed
  qed
qed

lemma create_owned_cases:
  assumes "create_owned sm req owner w = (r, sm', w')"
  obtains (refused) e where "r = Inl e" "sm' = sm"
  | (purged) rel w1 now table ids w2 where "create_checks sm req w = (Inr rel, w1)"
      "now = fst (now_secs w1)" "session_usable sm"
      "purge_expired_locked (sm_sessions sm) (sm_config sm) now = (table, ids)"
      "create_entry (sm\<lparr> sm_sessions := table \<rparr>) req owner rel now ids w2 = (r, sm', w')"
  using assms
  by (auto simp: create_owned_def session_usable_def split: prod.splits sum.splits if_splits)

lemma sm_ok_create:
  assumes ok: "sm_ok env config sm" and req: "hm_ok (cs_env_vars req)"
    and run: "create_owned sm req owner w = (r, sm', w')"
  shows "sm_ok env config sm'"
  using run
proof (cases rule: create_owned_cases)
  case (refused e)
  then show ?thesis using ok by simp
next
  case (purged rel w1 now table ids w2)
  note ok' = sm_ok_purge [OF ok purged(4)]
  from purged(5) show ?thesis
  proof (cases rule: create_entry_cases)
    case (created info)
    have "stored_ok env (si_session_id info) info"
      using created ok create_checks_Ok(1,2) [OF purged(1)] sanitized_env_ok [OF req]
      by (simp add: stored_ok_def sm_ok_def)
    with ok' created show ?thesis
      by (auto simp: sm_ok_def session_of_def length_hm_insert split: if_splits)
  qed (use ok' in simp_all)
qed

section \<open>Histories of the table\<close>

text \<open>One call of any operation of the manager, or a panic under its lock.\<close>

inductive session_step :: "session_manager \<Rightarrow> session_manager \<Rightarrow> bool" where
  step_create: "hm_ok (cs_env_vars req) \<Longrightarrow> create_owned sm req owner w = (r, sm', w') \<Longrightarrow>
     session_step sm sm'"
| step_get: "sm_get sm sid w = (r, sm', w') \<Longrightarrow> session_step sm sm'"
| step_fetch: "get_owned sm sid fp w = (rp, sm', w') \<Longrightarrow> session_step sm sm'"
| step_list: "sm_list sm env w = (r, sm', w') \<Longrightarrow> session_step sm sm'"
| step_list_owned: "list_owned sm env fp w = (r, sm', w') \<Longrightarrow> session_step sm sm'"
| step_terminate: "terminate_owned sm sid fp w = (rp, sm', w') \<Longrightarrow> session_step sm sm'"
| step_poison: "session_step sm (sm\<lparr> sm_poisoned := True \<rparr>)"

inductive_cases session_stepE: "session_step sm sm'"

lemma sm_get_result:
  "sm_get sm sid w = (r, sm', w') \<Longrightarrow>
     sm' = sm \<or> sm' = remove_session sid sm \<or>
     (\<exists>info now. session_of sm sid = Some info \<and> sm' = bump_session sid info now sm)"
  by (auto simp: sm_get_def session_of_def split: prod.splits if_splits option.splits)

lemma sm_ok_fetch: "sm_ok env config sm \<Longrightarrow> get_owned sm sid fp w = (rp, sm', w') \<Longrightarrow> sm_ok env config sm'"
  by (cases rp) (auto elim: get_owned_cases intro: sm_ok_remove sm_ok_bump)

lemma sm_ok_terminate:
  "sm_ok env config sm \<Longrightarrow> terminate_owned sm sid fp w = (rp, sm', w') \<Longrightarrow> sm_ok env config sm'"
  by (cases rp) (auto elim: terminate_owned_cases intro: sm_ok_remove)

lemma sm_ok_list_owned:
  "sm_ok env config sm \<Longrightarrow> list_owned sm e fp w = (r, sm', w') \<Longrightarrow> sm_ok env config sm'"
  by (auto simp: list_owned_def split: prod.splits if_splits intro: sm_ok_purge)

lemma sm_ok_list: "sm_ok env config sm \<Longrightarrow> sm_list sm e w = (r, sm', w') \<Longrightarrow> sm_ok env config sm'"
  by (auto simp: sm_list_def split: prod.splits if_splits intro: sm_ok_purge)

lemma sm_ok_step: "session_step sm sm' \<Longrightarrow> sm_ok env config sm \<Longrightarrow> sm_ok env config sm'"
proof (induction rule: session_step.induct)
  case (step_get sm sid w r sm' w')
  then show ?case using sm_get_result sm_ok_remove sm_ok_bump by metis
next
  case (step_poison sm)
  then show ?case by (simp add: sm_ok_def session_of_def)
qed (auto intro: sm_ok_create sm_ok_fetch sm_ok_list sm_ok_list_owned sm_ok_terminate)

lemma sm_ok_new: "sm_ok env config (session_manager_new env config fs)"
  by (simp add: sm_ok_def session_manager_new_def session_of_def)

lemma sm_ok_reachable:
  "session_step\<^sup>*\<^sup>* (session_manager_new env config fs) sm \<Longrightarrow> sm_ok env config sm"
  by (induction rule: rtranclp_induct) (auto intro: sm_ok_new sm_ok_step)

text \<open>
  Claim C26.  Whatever operations run on a new session manager, whatever the clock and the random
  source say: the table holds at most \<open>max_sessions\<close> sessions under distinct identifiers, every
  session is stored under its own identifier, which has the form \<open>sess-\<close>..., belongs to the
  environment the manager was made for, and its stored variables contain neither \<open>PATH\<close> nor a
  variable that influences the dynamic loader.
\<close>

theorem session_table_invariant:
  assumes "session_step\<^sup>*\<^sup>* (session_manager_new env config fs) sm"
  shows "length (sm_sessions sm) \<le> sc_max_sessions config \<and> hm_ok (sm_sessions sm) \<and>
    sm_config sm = config \<and>
    (\<forall>sid info. session_of sm sid = Some info \<longrightarrow>
       si_session_id info = sid \<and> si_environment_id info = env \<and>
       valid_id (sess_str sid) \<and> prefix ''sess-'' (sess_str sid) \<and>
       hm_get (si_env_vars info) ''PATH'' = None \<and>
       (\<forall>key. prefix ''LD_'' key \<or> prefix ''DYLD_'' key \<longrightarrow> hm_get (si_env_vars info) key = None))"
  using sm_ok_reachable [OF assms]
  by (simp add: sm_ok_def stored_ok_def stripped_key_iff)

definition sample_config :: session_config where
  "sample_config = \<lparr> sc_idle_timeout_secs = 2, sc_max_lifetime_secs = 10, sc_max_sessions = 2,
     sc_max_processes_per_session = 2 \<rparr>"

definition sample_manager :: session_manager where
  "sample_manager = session_manager_new (EnvironmentId ''env'') sample_config (Some sample_cfg)"

definition sample_create :: create_session_request where
  "sample_create = \<lparr> cs_environment_id = EnvironmentId ''env'', cs_working_directory = None,
     cs_env_vars = [] \<rparr>"

definition sample_id :: "nat \<Rightarrow> session_id" where
  "sample_id n = SessionId (''sess-'' @ hex_of (replicate 16 (word_of_nat n)))"

definition sample_session :: session_info where
  "sample_session = \<lparr> si_session_id = sample_id 0, si_environment_id = EnvironmentId ''env'',
     si_working_directory = ''.'', si_env_vars = [], si_created_at = 0,
     si_last_activity = 0, si_owner = Some ''alice'' \<rparr>"

definition sample_live :: session_manager where
  "sample_live = sample_manager\<lparr> sm_sessions := [(sample_id 0, \<lparr> sr_info = sample_session \<rparr>)] \<rparr>"

lemma sample_times:
  "\<not> session_is_expired sample_session (sm_config sample_live) (fst (now_secs sample_world))"
  "session_is_expired sample_session (sm_config sample_live) (fst (now_secs (sample_world\<lparr> w_tick := 9 \<rparr>)))"
  by (simp_all add: session_is_expired_def now_secs_def system_time_now_def as_secs_since_def UNIX_EPOCH_def
      sample_world_def sample_session_def sample_live_def sample_manager_def session_manager_new_def
      sample_config_def less_system_time_def)

lemma sample_creates:
  "fst (create_owned sample_manager sample_create (Some ''alice'') sample_world) =
     Inr (sample_session, []) \<and>
   fst (snd (create_owned sample_manager sample_create (Some ''alice'') sample_world)) = sample_live"
proof -
  have "case create_owned sample_manager sample_create (Some ''alice'') sample_world of
      (r, sm, w) \<Rightarrow> r = Inr (sample_session, []) \<and> sm = sample_live" by code_simp
  then show ?thesis by (auto split: prod.splits)
qed

lemma sample_live_reachable:
  "session_step\<^sup>*\<^sup>* (session_manager_new (EnvironmentId ''env'') sample_config (Some sample_cfg)) sample_live"
proof -
  obtain w' where "create_owned sample_manager sample_create (Some ''alice'') sample_world =
      (Inr (sample_session, []), sample_live, w')"
    using sample_creates by (metis prod.collapse)
  moreover have "hm_ok (cs_env_vars sample_create)" by (simp add: sample_create_def hm_ok_def)
  ultimately have "session_step sample_manager sample_live" by (intro step_create)
  then show ?thesis by (simp add: sample_manager_def)
qed

theorem session_table_invariant_witness:
  "length (sm_sessions sample_live) \<le> 2 \<and> prefix ''sess-'' (sess_str (sample_id 0))"
proof -
  have "session_of sample_live (sample_id 0) = Some sample_session"
    by (simp add: sample_live_def session_of_def hm_get_def)
  then show ?thesis
    using session_table_invariant [OF sample_live_reachable] by (auto simp: sample_config_def)
qed

end
