(* ===== verification/SessionProps.thy ===== *)
theory SessionProps
  imports SessionFacts
begin

text \<open>
  The theorems on sessions: resuming, isolation between owners, listing and creation, each stated
  over the operations of \<open>session.rs\<close>.
\<close>

section \<open>Resuming\<close>

lemma now_secs_quiet: "same_tree w (snd (now_secs w))"
  by (simp add: now_secs_def system_time_now_def same_tree_def split: prod.split)

text \<open>
  \<open>get_owned\<close> on a usable table, for the session under the identifier at the time
  \<open>now\<close> of the call: a live session its caller may see is returned with its activity bumped, a
  live session of someone else is unknown and stays untouched, an expired one is removed and
  reported for killing whoever asks, and \<open>Expired\<close> is said only to those who may see it.  All
  other sessions are left as they are.
\<close>

theorem get_owned_behaviour:
  assumes "\<not> sm_poisoned sm" and "session_of sm sid = Some info"
    and "get_owned sm sid fp w = ((r, purged), sm', w')"
  shows "(\<not> session_is_expired info (sm_config sm) (fst (now_secs w)) \<longrightarrow>
       (if owner_permits (si_owner info) fp
        then r = Inr (info\<lparr> si_last_activity := fst (now_secs w) \<rparr>) \<and> purged = [] \<and>
          session_of sm' sid = Some (info\<lparr> si_last_activity := fst (now_secs w) \<rparr>)
        else r = Inl (unknown_session sid) \<and> purged = [] \<and> sm' = sm)) \<and>
    (session_is_expired info (sm_config sm) (fst (now_secs w)) \<longrightarrow>
       purged = [sid] \<and> session_of sm' sid = None \<and>
       r = Inl (if owner_permits (si_owner info) fp then expired_session sid else unknown_session sid)) \<and>
    (\<forall>other. other \<noteq> sid \<longrightarrow> session_of sm' other = session_of sm other)"
  using assms(3)
proof (cases rule: get_owned_cases)
  case (live i)
  then show ?thesis using assms(1,2) fetch.frame [OF assms(3)] by (auto simp: session_stale_def)
qed (use assms(1,2) fetch.frame [OF assms(3)] in
  \<open>auto simp: session_stale_def session_usable_def\<close>)

theorem get_owned_behaviour_witness:
  "fst (fst (get_owned sample_live (sample_id 0) (Some ''mallory'') sample_world)) =
     Inl (unknown_session (sample_id 0)) \<and>
   fst (fst (get_owned sample_live (sample_id 0) (Some ''alice'') (sample_world\<lparr> w_tick := 9 \<rparr>))) =
     Inl (expired_session (sample_id 0))"
proof -
  have at: "\<not> sm_poisoned sample_live" "session_of sample_live (sample_id 0) = Some sample_session"
    by (simp_all add: sample_live_def sample_manager_def session_manager_new_def session_of_def hm_get_def)
  obtain r p m w' where run: "get_owned sample_live (sample_id 0) (Some ''mallory'') sample_world =
      ((r, p), m, w')" by (metis prod.collapse)
  obtain r2 p2 m2 w2 where run2: "get_owned sample_live (sample_id 0) (Some ''alice'')
      (sample_world\<lparr> w_tick := 9 \<rparr>) = ((r2, p2), m2, w2)" by (metis prod.collapse)
  note fresh = sample_times(1) and old = sample_times(2)
  from get_owned_behaviour [OF at run] get_owned_behaviour [OF at run2] fresh old
  show ?thesis by (simp add: run run2 sample_session_def)
qed

section \<open>Isolation\<close>

text \<open>
  Claim C16.  No oracle into the sessions of others: for a session that is bound to another
  owner, fetching and terminating it give the very answer they give for an identifier that was
  never issued, in whatever state the tables are, and while the session is live the attempt
  changes nothing, its expiry clock included.
\<close>

theorem foreign_sessions_hidden:
  assumes "\<not> sm_poisoned sm" and "session_of sm sid = Some info"
    and "si_owner info = Some owner" and "fp \<noteq> Some owner"
    and "\<not> sm_poisoned other" and "session_of other sid = None"
  shows "fst (fst (get_owned sm sid fp w)) = fst (fst (get_owned other sid fp v)) \<and>
    fst (fst (terminate_owned sm sid fp w)) = fst (fst (terminate_owned other sid fp v)) \<and>
    (\<not> session_is_expired info (sm_config sm) (fst (now_secs w)) \<longrightarrow>
       fst (snd (get_owned sm sid fp w)) = sm \<and> fst (snd (terminate_owned sm sid fp w)) = sm)"
proof -
  have hid: "fetch.hidden sm sid fp" "fetch.hidden other sid fp"
    using assms by (cases fp; simp add: fetch.hidden_def)+
  have use: "session_usable sm" "session_usable other" using assms by (simp_all add: session_usable_def)
  have stale: "\<not> session_stale sm sid w"
    if "\<not> session_is_expired info (sm_config sm) (fst (now_secs w))"
    using that assms(2) by (simp add: session_stale_def)
  have hid': "drop.hidden sm sid fp" "drop.hidden other sid fp"
    using hid by (simp_all add: fetch.hidden_def drop.hidden_def)
  obtain r p m w1 where run: "get_owned sm sid fp w = ((r, p), m, w1)" by (metis prod.collapse)
  obtain r' p' m' w2 where run': "terminate_owned sm sid fp w = ((r', p'), m', w2)"
    by (metis prod.collapse)
  have "m = sm \<and> m' = sm" if "\<not> session_is_expired info (sm_config sm) (fst (now_secs w))"
    using fetch.hidden_inert [OF use(1) hid(1) stale run] drop.hidden_inert [OF use(1) hid'(1) stale run']
      that by simp
  then show ?thesis
    using fetch.no_oracle [OF use(1) hid(1) use(2) hid(2), of w v]
      drop.no_oracle [OF use(1) hid'(1) use(2) hid'(2), of w v]
    by (simp add: run run')
qed

theorem foreign_sessions_hidden_witness:
  "fst (fst (get_owned sample_live (sample_id 0) (Some ''mallory'') sample_world)) =
     fst (fst (get_owned sample_manager (sample_id 0) (Some ''mallory'') sample_world)) \<and>
   fst (snd (terminate_owned sample_live (sample_id 0) (Some ''mallory'') sample_world)) = sample_live"
proof -
  have at: "\<not> sm_poisoned sample_live" "session_of sample_live (sample_id 0) = Some sample_session"
    "si_owner sample_session = Some ''alice''" "Some ''mallory'' \<noteq> Some ''alice''"
    "\<not> sm_poisoned sample_manager" "session_of sample_manager (sample_id 0) = None"
    by (simp_all add: sample_live_def sample_manager_def session_manager_new_def session_of_def
        hm_get_def sample_session_def)
  note fresh = sample_times(1)
  from foreign_sessions_hidden [OF at] fresh show ?thesis by blast
qed

section \<open>Listing\<close>

text \<open>
  \<open>list_owned\<close> returns exactly the live sessions of the environment that the caller
  owns or that have no owner (all of them without a caller identity), removes exactly the expired
  ones and reports them, and bumps nothing.
\<close>

theorem list_owned_exact:
  assumes "session_step\<^sup>*\<^sup>* (session_manager_new menv config fs) sm" and "\<not> sm_poisoned sm"
    and "list_owned sm env fp w = ((live, purged), sm', w')"
  shows "set live = {info. \<exists>sid. session_of sm sid = Some info \<and>
        \<not> session_is_expired info (sm_config sm) (fst (now_secs w)) \<and> si_environment_id info = env \<and>
        (fp = None \<or> si_owner info = None \<or> si_owner info = fp)} \<and>
    set purged = {sid. \<exists>info. session_of sm sid = Some info \<and>
        session_is_expired info (sm_config sm) (fst (now_secs w))} \<and>
    (\<forall>sid. session_of sm' sid = (if sid \<in> set purged then None else session_of sm sid))"
proof -
  let ?now = "fst (now_secs w)"
  have okt: "hm_ok (sm_sessions sm)" using sm_ok_reachable [OF assms(1)] by (simp add: sm_ok_def)
  let ?vis = "\<lambda>info. si_environment_id info = env \<and> (fp = None \<or> si_owner info = None \<or> si_owner info = fp)"
  obtain table where purge: "purge_expired_locked (sm_sessions sm) (sm_config sm) ?now = (table, purged)"
    and sm': "sm' = sm\<lparr> sm_sessions := table \<rparr>"
    and live: "live = map sr_info (filter (\<lambda>entry. ?vis (sr_info entry)) (map snd table))"
    using assms(2,3) by (cases fp) (auto simp: list_owned_def conj_commute split: prod.splits)
  note spec = purge_spec [OF okt purge]
  have live_iff: "unexpired sm ?now sid = Some info \<longleftrightarrow> session_of sm sid = Some info \<and>
      \<not> session_is_expired info (sm_config sm) ?now" for sid info
    by (auto simp: unexpired_def split: option.splits)
  have mem: "entry \<in> set (map snd table) \<longleftrightarrow> (\<exists>sid. hm_get table sid = Some entry)" for entry
    using hm_in_set_get [OF spec(1)] by force
  have "(\<exists>entry \<in> set (map snd table). sr_info entry = info) \<longleftrightarrow>
      (\<exists>sid. unexpired sm ?now sid = Some info)" for info
    unfolding Bex_def mem spec(3) [symmetric] by (auto simp: session_of_def)
  moreover have "info \<in> set live \<longleftrightarrow>
      (\<exists>entry \<in> set (map snd table). sr_info entry = info) \<and> ?vis info" for info
    unfolding live by auto
  ultimately have "set live = {info. (\<exists>sid. unexpired sm ?now sid = Some info) \<and> ?vis info}"
    by blast
  moreover have "set purged = {sid. \<exists>info. session_of sm sid = Some info \<and>
      session_is_expired info (sm_config sm) ?now}"
    unfolding spec(4) by (auto simp: expired_ids_def unexpired_def session_ids_iff split: option.splits if_splits)
  moreover have "session_of sm' sid = (if sid \<in> set purged then None else session_of sm sid)" for sid
    unfolding sm' spec(3,4) by (auto simp: expired_ids_def unexpired_def session_ids_iff split: option.splits)
  ultimately show ?thesis unfolding live_iff by blast
qed

theorem list_owned_exact_witness:
  "\<exists>live purged sm' w'. list_owned sample_live (EnvironmentId ''env'') (Some ''mallory'') sample_world =
     ((live, purged), sm', w') \<and> live = [] \<and> purged = []"
proof -
  obtain live purged sm' w' where run: "list_owned sample_live (EnvironmentId ''env'') (Some ''mallory'')
      sample_world = ((live, purged), sm', w')" by (metis prod.collapse)
  have "\<not> sm_poisoned sample_live"
    by (simp add: sample_live_def sample_manager_def session_manager_new_def)
  note exact = list_owned_exact [OF sample_live_reachable this run]
  note fresh = sample_times(1)
  have one: "session_of sample_live sid = Some info \<longleftrightarrow> sid = sample_id 0 \<and> info = sample_session" for sid info
    by (auto simp: sample_live_def session_of_def hm_get_def)
  have "set live = {}" "set purged = {}"
    using exact fresh unfolding one by (auto simp: sample_session_def)
  then show ?thesis using run by auto
qed

section \<open>Creation\<close>

lemma create_checks_quiet: "same_tree.obeys (create_checks sm req)"
  unfolding create_checks_def
  by (cases "sm_fs sm")
    (auto simp: Let_def simp del: okM_run failM_run
      intro!: same_tree.obeys_intros obeys_resolve obeys_stat)

lemma create_entry_quiet:
  assumes "create_entry sm req owner rel now purged w = (r, sm', w')"
  shows "same_tree w w'"
proof -
  obtain c w1 where draw: "fresh_id MAX_ID_ATTEMPTS alloc_session_id
      (\<lambda>c. hm_get (sm_sessions sm) c \<noteq> None) w = (c, w1)" by fastforce
  from same_tree.obeysD [OF sess_ids.fresh_quiet draw] have "same_tree w w1" .
  then show ?thesis
    using assms draw
    by (auto simp: create_entry_def Let_def same_tree.R_refl split: sum.splits option.splits if_splits)
qed

lemma create_owned_quiet:
  assumes "create_owned sm req owner w = (r, sm', w')"
  shows "same_tree w w'"
proof -
  obtain c w1 where checks: "create_checks sm req w = (c, w1)" by fastforce
  from same_tree.obeysD [OF create_checks_quiet checks] have 1: "same_tree w w1" .
  obtain now w2 where clock: "now_secs w1 = (now, w2)" by fastforce
  have 2: "same_tree w w2" using 1 now_secs_quiet [of w1] same_tree.R_trans by (simp add: clock)
  show ?thesis
    using assms 1 2 same_tree.R_trans [OF 2] create_entry_quiet
    by (auto simp: create_owned_def checks clock split: sum.splits if_splits prod.splits)
qed

text \<open>
  A successful \<open>create_owned\<close> binds the new session to the given owner, under an
  identifier that is not in use, with a working directory that exists, is a directory and lies
  under an allowed root.  The sessions it sweeps away are exactly the ones that were expired, all
  of them are reported, every other session is untouched, and so is the file system.
\<close>

theorem create_owned_binds:
  assumes "session_step\<^sup>*\<^sup>* (session_manager_new env config fs) sm"
    and "wf_tree (w_fs w)" and "\<And>cfg. sm_fs sm = Some cfg \<Longrightarrow> cfg_ok cfg"
    and "create_owned sm req owner w = (Inr (info, purged), sm', w')"
  shows "si_owner info = owner \<and> si_created_at info = si_last_activity info \<and>
    (\<exists>cfg p. sm_fs sm = Some cfg \<and> fst (fs_resolve cfg (si_working_directory info) w) = Inr p \<and>
       under_roots cfg p \<and> is_dir_node (w_fs w) p) \<and>
    (session_of sm (si_session_id info) = None \<or> si_session_id info \<in> set purged) \<and>
    session_of sm' (si_session_id info) = Some info \<and>
    (\<forall>other. other \<noteq> si_session_id info \<longrightarrow>
       session_of sm' other = (if other \<in> set purged then None else session_of sm other)) \<and>
    set purged = {sid. \<exists>i. session_of sm sid = Some i \<and>
       session_is_expired i (sm_config sm) (si_created_at info)} \<and>
    w_fs w' = w_fs w"
  using assms(4)
proof (cases rule: create_owned_cases)
  case (purged rel w1 now table ids w2)
  have okt: "hm_ok (sm_sessions sm)" using sm_ok_reachable [OF assms(1)] by (simp add: sm_ok_def)
  note spec = purge_spec [OF okt purged(4)]
  have ids: "set ids = {sid. \<exists>i. session_of sm sid = Some i \<and> session_is_expired i (sm_config sm) now}"
    unfolding spec(4) by (auto simp: expired_ids_def unexpired_def session_ids_iff split: option.splits if_splits)
  have un: "unexpired sm now sid = (if sid \<in> set ids then None else session_of sm sid)" for sid
    unfolding ids by (auto simp: unexpired_def split: option.splits)
  from create_checks_Ok(4) [OF purged(1)] obtain cfg p v meta v' where
    dir: "sm_fs sm = Some cfg" "fs_resolve cfg rel w = (Inr p, v)" "sys_stat p v = (Inr meta, v')"
      "md_kind meta = KDir" by blast
  have work: "under_roots cfg p" "is_dir_node (w_fs w) p"
    using workdir_resolved [OF assms(2) assms(3) [OF dir(1)] dir(2,3,4)] by auto
  have tree: "w_fs w' = w_fs w" using create_owned_quiet [OF assms(4)] by (rule same_treeD)
  from purged(5) show ?thesis
  proof (cases rule: create_entry_cases)
    case (created i)
    have new: "session_of sm' = (unexpired sm now)(si_session_id info \<mapsto> info)"
      using created spec(3) by (auto simp: session_of_def fun_eq_iff)
    have "unexpired sm now (si_session_id info) = None" using created spec(3) by simp
    then have "session_of sm (si_session_id info) = None \<or> si_session_id info \<in> set ids"
      unfolding un by (auto split: if_splits)
    moreover have "si_owner info = owner" "si_created_at info = now" "si_last_activity info = now"
      "si_working_directory info = rel" "purged = ids" using created by simp_all
    ultimately show ?thesis using work dir tree ids by (auto simp: new un)
  qed simp_all
qed simp

theorem create_owned_binds_witness:
  "si_owner sample_session = Some ''alice'' \<and> is_dir_node sample_tree [''srv'']"
proof -
  obtain w' where run: "create_owned sample_manager sample_create (Some ''alice'') sample_world =
      (Inr (sample_session, []), sample_live, w')"
    using sample_creates by (metis prod.collapse)
  have at: "session_step\<^sup>*\<^sup>* (session_manager_new (EnvironmentId ''env'') sample_config (Some sample_cfg)) sample_manager"
    "wf_tree (w_fs sample_world)" "\<And>cfg. sm_fs sample_manager = Some cfg \<Longrightarrow> cfg_ok cfg"
    using sample_tree_wf sample_cfg_ok
    by (simp_all add: sample_manager_def sample_world_def session_manager_new_def)
  from create_owned_binds [OF at run] have "si_owner sample_session = Some ''alice''"
    and "\<exists>p. under_roots sample_cfg p \<and> is_dir_node sample_tree p"
    by (auto simp: sample_manager_def session_manager_new_def sample_world_def)
  moreover have "is_dir_node sample_tree [''srv'']" by code_simp
  ultimately show ?thesis by blast
qed

text \<open>
  When \<open>create_owned\<close> refuses because the table is full, every session in it is live
  and none is lost: the table is what it was, so there is nothing to report.
\<close>

theorem create_full_loses_nothing:
  assumes "session_step\<^sup>*\<^sup>* (session_manager_new env config fs) sm"
    and "create_owned sm req owner w = (Inl (STooManySessions msg), sm', w')"
  shows "session_of sm' = session_of sm"
  using assms(2)
proof (cases rule: create_owned_cases)
  case (purged rel w1 now table ids w2)
  have ok: "hm_ok (sm_sessions sm)" "length (sm_sessions sm) \<le> sc_max_sessions (sm_config sm)"
    using sm_ok_reachable [OF assms(1)] by (auto simp: sm_ok_def)
  have t: "table = filter (\<lambda>(sid, entry). \<not> session_is_expired (sr_info entry) (sm_config sm) now)
      (sm_sessions sm)"
    using purge_keeps [OF ok(1)] purged(4) by (metis fst_conv)
  from purged(5) show ?thesis
  proof (cases rule: create_entry_cases)
    case full
    then have "length (filter (\<lambda>(sid, entry). \<not> session_is_expired (sr_info entry) (sm_config sm) now)
        (sm_sessions sm)) = length (sm_sessions sm)"
      using ok(2) length_filter_le [of _ "sm_sessions sm"] by (simp add: t le_antisym)
    then have "table = sm_sessions sm" unfolding t by (metis filter_id_conv length_filter_less order_less_irrefl)
    then show ?thesis using full by simp
  qed simp_all
qed simp

theorem create_full_loses_nothing_witness:
  "\<exists>sm msg sm' w'. length (sm_sessions sm) = 2 \<and>
     create_owned sm sample_create None sample_world = (Inl (STooManySessions msg), sm', w') \<and>
     session_of sm' = session_of sm"
proof -
  let ?w = "sample_world\<lparr> w_rng := 1 \<rparr>"
  define sm where "sm = fst (snd (create_owned sample_live sample_create None ?w))"
  have "hm_ok (cs_env_vars sample_create)" by (simp add: sample_create_def hm_ok_def)
  moreover obtain r v where "create_owned sample_live sample_create None ?w = (r, sm, v)"
    unfolding sm_def by (metis prod.collapse)
  ultimately have "session_step sample_live sm" by (rule step_create)
  then have reach: "session_step\<^sup>*\<^sup>* (session_manager_new (EnvironmentId ''env'') sample_config (Some sample_cfg)) sm"
    using sample_live_reachable by simp
  have "case create_owned sample_live sample_create None ?w of (r, sm, v) \<Rightarrow> length (sm_sessions sm) = 2 \<and>
      (case fst (create_owned sm sample_create None sample_world) of Inl (STooManySessions msg) \<Rightarrow> True | _ \<Rightarrow> False)"
    by code_simp
  then have full: "length (sm_sessions sm) = 2 \<and> (case fst (create_owned sm sample_create None sample_world) of
      Inl (STooManySessions msg) \<Rightarrow> True | _ \<Rightarrow> False)"
    unfolding sm_def by (auto split: prod.splits)
  then obtain msg sm' w' where run: "create_owned sm sample_create None sample_world =
      (Inl (STooManySessions msg), sm', w')"
    by (auto split: sum.splits session_error.splits) (metis prod.collapse)
  from create_full_loses_nothing [OF reach run] full run show ?thesis by blast
qed

text \<open>
  An expired session can vanish without a report: when the random source fails after
  the sweep, \<open>create_owned\<close> returns only the error, the swept session is gone from the table, and
  nobody is told to kill its processes.
\<close>

definition failing_world :: world where
  "failing_world = sample_world\<lparr> w_tick := 9, w_entropy := (\<lambda>_. Inl ''no entropy'') \<rparr>"

theorem create_failure_forgets_purged:
  "\<exists>e sm' w'. create_owned sample_live sample_create (Some ''bob'') failing_world = (Inl e, sm', w') \<and>
     session_of sample_live (sample_id 0) \<noteq> None \<and> session_of sm' (sample_id 0) = None"
proof -
  have "case create_owned sample_live sample_create (Some ''bob'') failing_world of
      (r, sm, w) \<Rightarrow> r = Inl (SInternal ''failed to generate session id: no entropy'') \<and>
        session_of sm (sample_id 0) = None"
    by code_simp
  moreover have "session_of sample_live (sample_id 0) \<noteq> None"
    by (simp add: sample_live_def session_of_def hm_get_def)
  ultimately show ?thesis by (auto split: prod.splits)
qed

end
