(* ===== verification/SessionStore.thy ===== *)
theory SessionStore
  imports SessionProps
begin

text \<open>
  The abstract store of sessions, and the proof that the session manager implements it.  The store
  forgets nothing by itself: an expired session is merely invisible.  The manager removes expired
  sessions whenever an operation meets them; the refinement says that no caller can tell.
\<close>

section \<open>The store\<close>

type_synonym store = "session_id \<rightharpoonup> session_info"

datatype session_op =
    OpCreate create_session_request "string option"
  | OpGet session_id "string option"
  | OpList environment_id "string option"
  | OpTerminate session_id "string option"

datatype op_result =
    Created session_info
  | Got session_info
  | Listed "session_info set"
  | Terminated
  | Refused session_error

definition visible :: "session_config \<Rightarrow> store \<Rightarrow> nat \<Rightarrow> store" where
  "visible config st now sid =
     (case st sid of
        None \<Rightarrow> None
      | Some info \<Rightarrow> if session_is_expired info config now then None else Some info)"

text \<open>
  One operation at the time \<open>now\<close>.  A session is created under an identifier nobody can see, and
  only below the limit on visible sessions; resuming returns the session with its activity bumped;
  listing shows what is visible to the caller; every refusal leaves the store alone, and access to
  a session is refused only to those who do not see it, as unknown, or as expired to its owner.
\<close>

inductive store_step :: "session_config \<Rightarrow> nat \<Rightarrow> session_op \<Rightarrow> op_result \<Rightarrow> store \<Rightarrow> store \<Rightarrow> bool"
  for config :: session_config and now :: nat where
  create: "visible config st now (si_session_id info) = None \<Longrightarrow>
     card (dom (visible config st now)) < sc_max_sessions config \<Longrightarrow>
     si_owner info = owner \<Longrightarrow> si_environment_id info = cs_environment_id req \<Longrightarrow>
     si_created_at info = now \<Longrightarrow> si_last_activity info = now \<Longrightarrow>
     store_step config now (OpCreate req owner) (Created info) st (st(si_session_id info \<mapsto> info))"
| full: "card (dom (visible config st now)) \<ge> sc_max_sessions config \<Longrightarrow>
     store_step config now (OpCreate req owner) (Refused (STooManySessions msg)) st st"
| invalid: "(\<forall>msg. e \<noteq> STooManySessions msg) \<Longrightarrow> store_step config now (OpCreate req owner) (Refused e) st st"
| get: "visible config st now sid = Some info \<Longrightarrow> owner_permits (si_owner info) fp \<Longrightarrow>
     store_step config now (OpGet sid fp) (Got (info\<lparr> si_last_activity := now \<rparr>)) st
       (st(sid \<mapsto> info\<lparr> si_last_activity := now \<rparr>))"
| list: "store_step config now (OpList env fp)
     (Listed {info. (\<exists>sid. visible config st now sid = Some info) \<and> si_environment_id info = env \<and>
        (fp = None \<or> si_owner info = None \<or> si_owner info = fp)}) st st"
| terminate: "visible config st now sid = Some info \<Longrightarrow> owner_permits (si_owner info) fp \<Longrightarrow>
     store_step config now (OpTerminate sid fp) Terminated st (st(sid := None))"
| unknown: "op = OpGet sid fp \<or> op = OpTerminate sid fp \<Longrightarrow>
     (\<forall>info. visible config st now sid = Some info \<longrightarrow> \<not> owner_permits (si_owner info) fp) \<Longrightarrow>
     store_step config now op (Refused (unknown_session sid)) st st"
| expired: "op = OpGet sid fp \<or> op = OpTerminate sid fp \<Longrightarrow>
     st sid = Some info \<Longrightarrow> session_is_expired info config now \<Longrightarrow> owner_permits (si_owner info) fp \<Longrightarrow>
     store_step config now op (Refused (expired_session sid)) st st"

text \<open>A run of the store: operations with their results, at times that do not decrease.\<close>

inductive store_run :: "session_config \<Rightarrow> nat \<Rightarrow> (session_op \<times> op_result) list \<Rightarrow> store \<Rightarrow> nat \<Rightarrow> bool"
  for config :: session_config and start :: nat where
  start: "store_run config start [] Map.empty start"
| step: "store_run config start trace st t \<Longrightarrow> t \<le> now \<Longrightarrow> store_step config now op result st st' \<Longrightarrow>
     store_run config start (trace @ [(op, result)]) st' now"

section \<open>Runs of the manager\<close>

fun manager_op :: "session_manager \<Rightarrow> session_op \<Rightarrow> world \<Rightarrow> op_result \<times> session_manager" where
  "manager_op sm (OpCreate req owner) w =
     (case create_owned sm req owner w of (r, sm', _) \<Rightarrow>
        ((case r of Inl e \<Rightarrow> Refused e | Inr (info, _) \<Rightarrow> Created info), sm'))"
| "manager_op sm (OpGet sid fp) w =
     (case get_owned sm sid fp w of ((r, _), sm', _) \<Rightarrow>
        ((case r of Inl e \<Rightarrow> Refused e | Inr info \<Rightarrow> Got info), sm'))"
| "manager_op sm (OpList env fp) w =
     (case list_owned sm env fp w of ((infos, _), sm', _) \<Rightarrow> (Listed (set infos), sm'))"
| "manager_op sm (OpTerminate sid fp) w =
     (case terminate_owned sm sid fp w of ((r, _), sm', _) \<Rightarrow>
        ((case r of Inl e \<Rightarrow> Refused e | Inr _ \<Rightarrow> Terminated), sm'))"

text \<open>The time an operation reads from the clock; creation reads it after its checks.\<close>

fun op_time :: "session_manager \<Rightarrow> session_op \<Rightarrow> world \<Rightarrow> nat" where
  "op_time sm (OpCreate req owner) w = fst (now_secs (snd (create_checks sm req w)))"
| "op_time sm _ w = fst (now_secs w)"

text \<open>The variables of a request come from a parsed map, without repeated keys.\<close>

fun op_ok :: "session_op \<Rightarrow> bool" where
  "op_ok (OpCreate req _) = hm_ok (cs_env_vars req)"
| "op_ok _ = True"

inductive manager_run ::
  "session_manager \<Rightarrow> nat \<Rightarrow> (session_op \<times> op_result) list \<Rightarrow> session_manager \<Rightarrow> nat \<Rightarrow> bool"
  for first :: session_manager and start :: nat where
  start: "manager_run first start [] first start"
| step: "manager_run first start trace sm t \<Longrightarrow> op_ok op \<Longrightarrow> op_time sm op w = now \<Longrightarrow> t \<le> now \<Longrightarrow>
     manager_op sm op w = (result, sm') \<Longrightarrow> manager_run first start (trace @ [(op, result)]) sm' now"

section \<open>The simulation\<close>

lemma expired_later: "session_is_expired info config t \<Longrightarrow> t \<le> t' \<Longrightarrow> session_is_expired info config t'"
  by (auto simp: session_is_expired_def Let_def)

lemma unexpired_conv: "unexpired sm = visible (sm_config sm) (session_of sm)"
  by (auto simp: unexpired_def visible_def fun_eq_iff split: option.splits)

lemma visible_update: "\<not> session_is_expired info config t \<Longrightarrow>
    visible config (st(sid \<mapsto> info)) t = (visible config st t)(sid \<mapsto> info)"
  "visible config (st(sid := None)) t = (visible config st t)(sid := None)"
  by (auto simp: visible_def fun_eq_iff)

lemma visible_agree:
  assumes "visible config st t = visible config st' t" and "t \<le> t'"
  shows "visible config st t' = visible config st' t'"
proof
  fix sid
  show "visible config st t' sid = visible config st' t' sid"
    using fun_cong [OF assms(1), of sid] expired_later [OF _ assms(2)]
    by (auto simp: visible_def split: option.splits if_splits)
qed

lemma manager_fields [simp]:
  "sm_config (remove_session sid sm) = sm_config sm" "sm_poisoned (remove_session sid sm) = sm_poisoned sm"
  "sm_config (bump_session sid info t sm) = sm_config sm" "sm_poisoned (bump_session sid info t sm) = sm_poisoned sm"
  by (simp_all add: remove_session_def bump_session_def)

text \<open>The manager and the store show the same sessions, now and at every later time.\<close>

definition same_view :: "session_config \<Rightarrow> nat \<Rightarrow> session_manager \<Rightarrow> store \<Rightarrow> bool" where
  "same_view config now sm st \<longleftrightarrow>
     sm_config sm = config \<and> \<not> sm_poisoned sm \<and>
     visible config (session_of sm) now = visible config st now \<and>
     (\<forall>sid info. session_of sm sid = Some info \<longrightarrow> st sid = Some info)"

lemma same_view_later: "same_view config t sm st \<Longrightarrow> t \<le> t' \<Longrightarrow> same_view config t' sm st"
  using visible_agree unfolding same_view_def by blast

lemma visible_visible: "visible config (visible config st now) now = visible config st now"
  by (auto simp: visible_def fun_eq_iff split: option.splits)

lemma same_view_update:
  assumes "same_view config now sm st" and "session_of sm' = (session_of sm)(sid \<mapsto> info)"
    and "sm_config sm' = sm_config sm" and "sm_poisoned sm' = sm_poisoned sm"
  shows "same_view config now sm' (st(sid \<mapsto> info))"
  using assms
  by (auto simp: same_view_def visible_def fun_eq_iff)

lemma same_view_remove:
  assumes "same_view config now sm st"
  shows "same_view config now (remove_session sid sm) (st(sid := None))"
  using assms by (auto simp: same_view_def visible_update)

lemma same_view_forget:
  assumes "same_view config now sm st" and "session_of sm' = visible config (session_of sm) now"
    and "sm_config sm' = sm_config sm" and "sm_poisoned sm' = sm_poisoned sm"
  shows "same_view config now sm' st"
  using assms visible_visible [of config "session_of sm" now]
  by (auto simp: same_view_def visible_def split: option.splits if_splits)

lemma same_view_expire:
  assumes "same_view config now sm st" and "session_of sm sid = Some info" and "session_is_expired info config now"
  shows "same_view config now (remove_session sid sm) st"
proof -
  have "visible config ((session_of sm)(sid := None)) now = visible config (session_of sm) now"
    using assms(2,3) by (auto simp: visible_def fun_eq_iff)
  then show ?thesis
    using assms(1) by (auto simp: same_view_def)
qed

lemma live_count:
  assumes "hm_ok (sm_sessions sm)"
  shows "length (sm_sessions sm) = card (dom (session_of sm))"
proof -
  have "dom (session_of sm) = set (map fst (sm_sessions sm))"
    using session_ids_iff [of _ sm] by (auto simp: session_ids_def hm_keys_def)
  then show ?thesis using assms by (simp only: hm_ok_def distinct_card length_map)
qed

lemma mapM_err_Inl: "mapM_err h m w = (Inl e, w') \<longleftrightarrow> (\<exists>d. m w = (Inl d, w') \<and> e = h d)"
  by (auto simp: mapM_err_def mapE_Inl_iff split: prod.splits)

lemma workdir_error_kind: "session_workdir_error d \<noteq> STooManySessions msg"
  by (simp add: session_workdir_error_def split: error_kind.splits)

lemma create_checks_error:
  "create_checks sm req w = (Inl e, w') \<Longrightarrow> e \<noteq> STooManySessions msg"
  by (auto simp: create_checks_def Let_def bindM_Inl liftM_def mapM_err_Inl mapE_Inl_iff workdir_error_kind [symmetric]
      split: if_splits option.splits)

lemma create_owned_stages:
  assumes "create_owned sm req owner w = (r, sm', w')"
  obtains (refused) e where "r = Inl e" "sm' = sm" "\<And>msg. e \<noteq> STooManySessions msg"
  | (purged) rel w1 now table ids w2 where "create_checks sm req w = (Inr rel, w1)"
      "now = fst (now_secs w1)"
      "purge_expired_locked (sm_sessions sm) (sm_config sm) now = (table, ids)"
      "create_entry (sm\<lparr> sm_sessions := table \<rparr>) req owner rel now ids w2 = (r, sm', w')"
  using assms create_checks_error
  by (fastforce simp: create_owned_def sessions_poisoned_def split: prod.splits sum.splits if_splits)

lemma create_simulates:
  assumes view: "same_view config now sm st" and ok: "sm_ok env config sm"
    and run: "create_owned sm req owner w = (r, sm', w')" and time: "fst (now_secs (snd (create_checks sm req w))) = now"
  shows "\<exists>st'. store_step config now (OpCreate req owner)
      (case r of Inl e \<Rightarrow> Refused e | Inr (info, _) \<Rightarrow> Created info) st st' \<and> same_view config now sm' st'"
  using run
proof (cases rule: create_owned_stages)
  case (refused e)
  then show ?thesis using view by (auto intro: store_step.invalid)
next
  case (purged rel w1 n table ids w2)
  have n: "n = now" using purged(1,2) time by simp
  have okt: "hm_ok (sm_sessions sm)" using ok by (simp add: sm_ok_def)
  note spec = purge_spec [OF okt purged(3) [unfolded n]]
  let ?sm = "sm\<lparr> sm_sessions := table \<rparr>"
  have config: "sm_config sm = config" using view by (simp add: same_view_def)
  have swept: "same_view config now ?sm st"
    by (rule same_view_forget [OF view]) (simp_all add: spec(3) unexpired_conv config)
  have count: "length table = card (dom (visible config st now))"
    using live_count [of ?sm] spec(1,3) view unfolding unexpired_conv config same_view_def by simp
  from purged(4) show ?thesis
  proof (cases rule: create_entry_cases)
    case full
    then show ?thesis
      using swept count config by (auto intro!: exI [of _ st] store_step.full)
  next
    case (failed msg)
    then show ?thesis using swept by (auto intro!: exI [of _ st] store_step.invalid)
  next
    case (created info)
    have "same_view config now sm' (st(si_session_id info \<mapsto> info))"
      by (rule same_view_update [OF swept]) (auto simp: created session_of_def fun_eq_iff)
    moreover have "visible config st now (si_session_id info) = None"
      using created(3) spec(3) view unfolding unexpired_conv config same_view_def by simp
    moreover have "card (dom (visible config st now)) < sc_max_sessions config"
      using created(2) count config by simp
    ultimately show ?thesis
      using created n by (auto intro!: exI [of _ "st(si_session_id info \<mapsto> info)"] store_step.create)
  qed
qed

lemma visible_live:
  assumes view: "same_view config now sm st" and "session_of sm sid = Some info"
    and "\<not> session_is_expired info config now"
  shows "visible config st now sid = Some info"
proof -
  have "visible config (session_of sm) now sid = Some info" using assms(2,3) by (simp add: visible_def)
  then show ?thesis using view by (simp add: same_view_def)
qed

lemma visible_absent:
  assumes view: "same_view config now sm st" and "session_of sm sid = None"
  shows "visible config st now sid = None"
proof -
  have "visible config (session_of sm) now sid = None" using assms(2) by (simp add: visible_def)
  then show ?thesis using view by (simp add: same_view_def)
qed

lemma expired_known:
  assumes "same_view config now sm st" and "session_of sm sid = Some info"
    and "session_is_expired info config now"
  shows "st sid = Some info" and "visible config st now sid = None"
  using assms by (auto simp: same_view_def visible_def)

lemma stale_iff: "same_view config now sm st \<Longrightarrow> now = fst (now_secs w) \<Longrightarrow> session_of sm sid = Some info \<Longrightarrow>
    session_stale sm sid w \<longleftrightarrow> session_is_expired info config now"
  by (simp add: session_stale_def same_view_def)

lemma get_simulates:
  assumes view: "same_view config now sm st" and time: "now = fst (now_secs w)"
    and run: "get_owned sm sid fp w = ((r, p), sm', w')"
  shows "\<exists>st'. store_step config now (OpGet sid fp)
      (case r of Inl e \<Rightarrow> Refused e | Inr info \<Rightarrow> Got info) st st' \<and> same_view config now sm' st'"
  using run
proof (cases rule: get_owned_cases)
  case poisoned
  then show ?thesis using view by (simp add: same_view_def)
next
  case missing
  then show ?thesis
    using view visible_absent [OF view] by (auto intro!: exI [of _ st] store_step.unknown)
next
  case (denied info)
  then show ?thesis
    using view visible_live [OF view denied(2)] stale_iff [OF view time denied(2)]
    by (auto intro!: exI [of _ st] store_step.unknown)
next
  case (expired info)
  have old: "session_is_expired info config now" using stale_iff [OF view time expired(2)] expired(3) by simp
  note known = expired_known [OF view expired(2) old]
  have "same_view config now sm' st" using same_view_expire [OF view expired(2) old] expired(5) by simp
  then show ?thesis
    using expired(6) known old
    by (cases "owner_permits (si_owner info) fp")
      (auto intro!: exI [of _ st] store_step.unknown store_step.expired)
next
  case (live info)
  have "same_view config now sm' (st(sid \<mapsto> info\<lparr> si_last_activity := now \<rparr>))"
    by (rule same_view_update [OF view]) (simp_all add: live(7) time)
  then show ?thesis
    using live visible_live [OF view live(2)] stale_iff [OF view time live(2)] time
    by (auto intro!: exI store_step.get)
qed

lemma terminate_simulates:
  assumes view: "same_view config now sm st" and time: "now = fst (now_secs w)"
    and run: "terminate_owned sm sid fp w = ((r, p), sm', w')"
  shows "\<exists>st'. store_step config now (OpTerminate sid fp)
      (case r of Inl e \<Rightarrow> Refused e | Inr _ \<Rightarrow> Terminated) st st' \<and> same_view config now sm' st'"
  using run
proof (cases rule: terminate_owned_cases)
  case poisoned
  then show ?thesis using view by (simp add: same_view_def)
next
  case missing
  then show ?thesis
    using view visible_absent [OF view] by (auto intro!: exI [of _ st] store_step.unknown)
next
  case (denied info)
  then show ?thesis
    using view visible_live [OF view denied(2)] stale_iff [OF view time denied(2)]
    by (auto intro!: exI [of _ st] store_step.unknown)
next
  case (expired info)
  have old: "session_is_expired info config now" using stale_iff [OF view time expired(2)] expired(3) by simp
  note known = expired_known [OF view expired(2) old]
  have "same_view config now sm' st" using same_view_expire [OF view expired(2) old] expired(5) by simp
  then show ?thesis
    using expired(6) known old
    by (cases "owner_permits (si_owner info) fp")
      (auto intro!: exI [of _ st] store_step.unknown store_step.expired)
next
  case (removed info)
  have "same_view config now sm' (st(sid := None))" using same_view_remove [OF view] removed(7) by simp
  then show ?thesis
    using removed visible_live [OF view removed(2)] stale_iff [OF view time removed(2)]
    by (auto intro!: exI store_step.terminate)
qed

lemma list_simulates:
  assumes view: "same_view config now sm st" and time: "now = fst (now_secs w)" and ok: "hm_ok (sm_sessions sm)"
    and run: "list_owned sm env fp w = ((infos, p), sm', w')"
  shows "store_step config now (OpList env fp) (Listed (set infos)) st st \<and> same_view config now sm' st"
proof -
  let ?vis = "\<lambda>info. si_environment_id info = env \<and> (fp = None \<or> si_owner info = None \<or> si_owner info = fp)"
  have config: "sm_config sm = config" "\<not> sm_poisoned sm" using view by (simp_all add: same_view_def)
  obtain table where purge: "purge_expired_locked (sm_sessions sm) (sm_config sm) now = (table, p)"
    and sm': "sm' = sm\<lparr> sm_sessions := table \<rparr>"
    and live: "infos = map sr_info (filter (\<lambda>entry. ?vis (sr_info entry)) (map snd table))"
    using config run time by (cases fp) (auto simp: list_owned_def conj_commute split: prod.splits)
  note spec = purge_spec [OF ok purge]
  have view': "same_view config now sm' st"
    by (rule same_view_forget [OF view]) (simp_all add: sm' spec(3) unexpired_conv config)
  have shown: "session_of sm' = visible config st now"
    using spec(3) view unfolding sm' unexpired_conv config same_view_def by simp
  have mem: "entry \<in> set (map snd table) \<longleftrightarrow> (\<exists>sid. hm_get table sid = Some entry)" for entry
    using hm_in_set_get [OF spec(1)] by force
  have "(\<exists>entry \<in> set (map snd table). sr_info entry = info) \<longleftrightarrow> (\<exists>sid. session_of sm' sid = Some info)" for info
    unfolding Bex_def mem by (auto simp: session_of_def sm')
  moreover have "info \<in> set infos \<longleftrightarrow> (\<exists>entry \<in> set (map snd table). sr_info entry = info) \<and> ?vis info" for info
    unfolding live by auto
  ultimately have "set infos = {info. (\<exists>sid. visible config st now sid = Some info) \<and> ?vis info}"
    unfolding shown by blast
  then show ?thesis using view' store_step.list [of config now env fp st] by simp
qed

lemma op_simulates:
  assumes view: "same_view config now sm st" and ok: "sm_ok env config sm"
    and run: "manager_op sm op w = (result, sm')" and time: "op_time sm op w = now"
  shows "\<exists>st'. store_step config now op result st st' \<and> same_view config now sm' st'"
proof (cases op)
  case (OpCreate req owner)
  obtain r w' where c: "create_owned sm req owner w = (r, sm', w')"
    and res: "result = (case r of Inl e \<Rightarrow> Refused e | Inr (info, _) \<Rightarrow> Created info)"
    using run OpCreate by (auto split: prod.splits)
  have "fst (now_secs (snd (create_checks sm req w))) = now" using time OpCreate by simp
  from create_simulates [OF view ok c this] show ?thesis using OpCreate res by simp
next
  case (OpGet sid fp)
  obtain r p w' where g: "get_owned sm sid fp w = ((r, p), sm', w')"
    and res: "result = (case r of Inl e \<Rightarrow> Refused e | Inr info \<Rightarrow> Got info)"
    using run OpGet by (auto split: prod.splits)
  have "now = fst (now_secs w)" using time OpGet by simp
  from get_simulates [OF view this g] show ?thesis using OpGet res by simp
next
  case (OpList env' fp)
  obtain infos p w' where l: "list_owned sm env' fp w = ((infos, p), sm', w')"
    and res: "result = Listed (set infos)"
    using run OpList by (auto split: prod.splits)
  have "now = fst (now_secs w)" "hm_ok (sm_sessions sm)" using time OpList ok by (simp_all add: sm_ok_def)
  from list_simulates [OF view this l] show ?thesis using OpList res by auto
next
  case (OpTerminate sid fp)
  obtain r p w' where t: "terminate_owned sm sid fp w = ((r, p), sm', w')"
    and res: "result = (case r of Inl e \<Rightarrow> Refused e | Inr _ \<Rightarrow> Terminated)"
    using run OpTerminate by (auto split: prod.splits)
  have "now = fst (now_secs w)" using time OpTerminate by simp
  from terminate_simulates [OF view this t] show ?thesis using OpTerminate res by simp
qed

lemma sm_ok_manager_op:
  "manager_op sm op w = (result, sm') \<Longrightarrow> op_ok op \<Longrightarrow> sm_ok env config sm \<Longrightarrow> sm_ok env config sm'"
  by (cases op)
    (auto split: prod.splits intro: sm_ok_create sm_ok_fetch sm_ok_list_owned sm_ok_terminate)

lemma manager_run_simulates:
  assumes "manager_run (session_manager_new env config fs) start trace sm now"
  shows "sm_ok env config sm \<and> (\<exists>st. store_run config start trace st now \<and> same_view config now sm st)"
  using assms
proof induction
  case start
  have "same_view config start (session_manager_new env config fs) Map.empty"
    by (simp add: same_view_def session_manager_new_def session_of_def visible_def fun_eq_iff)
  then show ?case using sm_ok_new store_run.start by blast
next
  case (step trace sm t op w now result sm')
  then obtain st where run: "store_run config start trace st t" and "same_view config t sm st"
    and ok: "sm_ok env config sm" by blast
  then have "same_view config now sm st" using step.hyps(4) same_view_later by blast
  from op_simulates [OF this ok step.hyps(5,3)] obtain st' where
    "store_step config now op result st st'" "same_view config now sm' st'" by blast
  then show ?case
    using store_run.step [OF run step.hyps(4)] sm_ok_manager_op [OF step.hyps(5,2) ok] by blast
qed

text \<open>
  Claim C18.  The session manager implements the abstract store.  Every sequence of creations,
  resumptions, listings and terminations, at times that do not go backwards, has the results of a
  run of the store, in which sessions disappear only by termination, an expired session is merely
  invisible, and the limit counts visible sessions only; and at the end both show the same sessions.
  So no caller can tell when, or whether, the manager sweeps expired sessions out of its table.
\<close>

theorem sessions_refine_store:
  assumes "manager_run (session_manager_new env config fs) start trace sm now"
  shows "\<exists>st. store_run config start trace st now \<and> unexpired sm now = visible config st now"
proof -
  obtain st where "store_run config start trace st now" "same_view config now sm st"
    using manager_run_simulates [OF assms] by blast
  then show ?thesis by (auto simp: unexpired_conv same_view_def)
qed

theorem sessions_refine_store_witness:
  "\<exists>st. store_run sample_config 0
     [(OpCreate sample_create (Some ''alice''), Created sample_session),
      (OpGet (sample_id 0) (Some ''mallory''), Refused (unknown_session (sample_id 0)))] st 0"
proof -
  have c: "manager_op sample_manager (OpCreate sample_create (Some ''alice'')) sample_world =
      (Created sample_session, sample_live)"
    using sample_creates by (auto split: prod.splits)
  have t: "op_time sample_manager (OpCreate sample_create (Some ''alice'')) sample_world = 0"
    "op_time sample_live (OpGet (sample_id 0) (Some ''mallory'')) sample_world = 0" by code_simp+
  have "fst (manager_op sample_live (OpGet (sample_id 0) (Some ''mallory'')) sample_world) =
      Refused (unknown_session (sample_id 0))" by code_simp
  then obtain sm where g: "manager_op sample_live (OpGet (sample_id 0) (Some ''mallory'')) sample_world =
      (Refused (unknown_session (sample_id 0)), sm)" by (metis prod.collapse)
  have ok: "op_ok (OpCreate sample_create (Some ''alice''))" by (simp add: sample_create_def)
  have "manager_run sample_manager 0 ([] @ [(OpCreate sample_create (Some ''alice''), Created sample_session)])
      sample_live 0"
    by (rule manager_run.step [OF manager_run.start ok t(1) _ c]) simp
  from manager_run.step [OF this _ t(2) _ g] have "manager_run sample_manager 0
     [(OpCreate sample_create (Some ''alice''), Created sample_session),
      (OpGet (sample_id 0) (Some ''mallory''), Refused (unknown_session (sample_id 0)))] sm 0" by simp
  then show ?thesis using sessions_refine_store unfolding sample_manager_def by blast
qed

end
