(* ===== verification/ProcTable.thy ===== *)
theory ProcTable
  imports ExecPolicy FsResolve
begin

text \<open>
  The process manager of \<open>are-daemon/src/process.rs\<close>.  An \<open>Arc<ProcessEntry>\<close> is a reference into
  a heap of entries, so that the table, a waiting caller and the supervisor of a child share one
  entry and an eviction removes only the table's reference.  The supervisors (spawned tasks that
  own the children) are part of the state; their steps are in theory \<open>Supervisor\<close>.
\<close>

section \<open>State\<close>

record managed_state =
  ms_status :: process_state
  ms_stdout :: bytes
  ms_stderr :: bytes
  ms_truncated :: bool
  ms_finished_at :: "system_time option"

record process_entry =
  pe_program :: string
  pe_started_at :: system_time
  pe_state :: managed_state
  pe_poisoned :: bool
  pe_kill_requested :: bool

type_synonym process_key = "environment_id \<times> session_id \<times> process_id"
type_synonym entry_ref = nat
type_synonym process_table = "(process_key, entry_ref) hmap"
type_synonym entry_heap = "entry_ref \<Rightarrow> process_entry"

datatype sup_phase = Polling | Draining process_state | Publishing process_state | Finished

record supervisor =
  sv_phase :: sup_phase
  sv_out_open :: bool
  sv_err_open :: bool
  sv_killed :: bool

record process_manager =
  pm_environment_id :: environment_id
  pm_config :: process_config
  pm_fs :: "filesystem_config option"
  pm_processes :: process_table
  pm_poisoned :: bool
  pm_entries :: entry_heap
  pm_next :: entry_ref
  pm_tasks :: "(entry_ref, supervisor) hmap"

definition new_state :: managed_state where
  "new_state = \<lparr> ms_status = Running, ms_stdout = [], ms_stderr = [], ms_truncated = False,
     ms_finished_at = None \<rparr>"

definition new_entry :: "string \<Rightarrow> system_time \<Rightarrow> process_entry" where
  "new_entry program started =
     \<lparr> pe_program = program, pe_started_at = started, pe_state = new_state, pe_poisoned = False,
       pe_kill_requested = False \<rparr>"

definition process_manager_new ::
  "environment_id \<Rightarrow> process_config \<Rightarrow> filesystem_config option \<Rightarrow> process_manager" where
  "process_manager_new env config fs =
     \<lparr> pm_environment_id = env, pm_config = config, pm_fs = fs, pm_processes = [],
       pm_poisoned = False, pm_entries = (\<lambda>_. new_entry [] UNIX_EPOCH), pm_next = 0, pm_tasks = [] \<rparr>"

definition process_count :: "process_manager \<Rightarrow> nat" where
  "process_count pm = (if pm_poisoned pm then 0 else length (pm_processes pm))"

definition is_terminal :: "process_state \<Rightarrow> bool" where
  "is_terminal status \<longleftrightarrow> status \<noteq> Running"

definition table_poisoned :: process_error where
  "table_poisoned = PInternal ''process table poisoned''"

definition state_poisoned :: process_error where
  "state_poisoned = PInternal ''process state poisoned''"

section \<open>Making room\<close>

definition expired_terminal :: "entry_heap \<Rightarrow> nat \<Rightarrow> system_time \<Rightarrow> entry_ref \<Rightarrow> bool" where
  "expired_terminal heap retention now r =
     (let e = heap r in
      \<not> pe_poisoned e \<and> is_terminal (ms_status (pe_state e)) \<and>
      (case ms_finished_at (pe_state e) of
         None \<Rightarrow> False
       | Some finished \<Rightarrow> as_secs_since now finished > retention))"

definition evict_expired_terminal_entries ::
  "entry_heap \<Rightarrow> process_table \<Rightarrow> nat \<Rightarrow> world \<Rightarrow> process_table \<times> world" where
  "evict_expired_terminal_entries heap table retention w =
     (case system_time_now w of (now, w1) \<Rightarrow>
        let expired = map fst (filter (\<lambda>(key, r). expired_terminal heap retention now r) table)
        in (fold hm_remove expired table, w1))"

definition terminal_stamp :: "entry_heap \<Rightarrow> process_key \<times> entry_ref \<Rightarrow> (system_time \<times> process_key) list" where
  "terminal_stamp heap kr =
     (let e = heap (snd kr) in
      if pe_poisoned e \<or> \<not> is_terminal (ms_status (pe_state e)) then []
      else [(case ms_finished_at (pe_state e) of None \<Rightarrow> UNIX_EPOCH | Some t \<Rightarrow> t, fst kr)])"

fun evict_loop :: "nat \<Rightarrow> process_table \<Rightarrow> (system_time \<times> process_key) list \<Rightarrow> process_table" where
  "evict_loop max_processes table [] = table"
| "evict_loop max_processes table ((_, key) # rest) =
     (if length table < max_processes then table
      else evict_loop max_processes (hm_remove key table) rest)"

definition evict_oldest_terminal_entries ::
  "entry_heap \<Rightarrow> process_table \<Rightarrow> nat \<Rightarrow> process_table" where
  "evict_oldest_terminal_entries heap table max_processes =
     evict_loop max_processes table (sort_key fst (concat (map (terminal_stamp heap) table)))"

definition make_room_for_spawn ::
  "entry_heap \<Rightarrow> process_config \<Rightarrow> process_table \<Rightarrow> world
    \<Rightarrow> (process_error + unit) \<times> process_table \<times> world" where
  "make_room_for_spawn heap config table w =
     (case evict_expired_terminal_entries heap table (pc_retention_secs config) w of (table1, w1) \<Rightarrow>
        if length table1 < pc_max_processes config then (Inr (), table1, w1)
        else
          let table2 = evict_oldest_terminal_entries heap table1 (pc_max_processes config) in
          if length table2 \<ge> pc_max_processes config
          then (Inl (PTooManyProcesses (''process table full ('' @ nat_str (length table2)
                  @ '' entries, all live): refusing spawn'')), table2, w1)
          else (Inr (), table2, w1))"

section \<open>Starting a process\<close>

definition workdir_error :: "errno \<Rightarrow> process_error" where
  "workdir_error e =
     (case errno_kind e of
        KNotFound \<Rightarrow> PInvalidRequest ''working_directory does not exist''
      | KPermissionDenied \<Rightarrow> PInvalidRequest ''working_directory permission denied''
      | _ \<Rightarrow> PIo (''working_directory error: '' @ errno_display e))"

fun workdir_resolve_error :: "fs_error \<Rightarrow> process_error" where
  "workdir_resolve_error (FFilesystemEscape _) =
     PInvalidRequest ''working_directory escapes allowed boundary''"
| "workdir_resolve_error _ = PInvalidRequest ''invalid working_directory''"

definition path_var_refused :: string where
  "path_var_refused = ''env var PATH must not be supplied: programs resolve against the daemon''
     @ [squote] @ ''s trusted PATH''"

definition start_checks ::
  "process_manager \<Rightarrow> execute_request \<Rightarrow> session_info \<Rightarrow> (process_error, fpath) comp" where
  "start_checks pm req session =
     bindM (liftM (mapE (\<lambda>e. PInvalidRequest (core_error_display e)) (execute_validate req))) (\<lambda>_.
     if ex_environment_id req \<noteq> pm_environment_id pm
     then failM (PEnvironmentMismatch (''requested environment ''
            @ quoted (env_str (ex_environment_id req)) @ '' does not match managed environment ''
            @ quoted (env_str (pm_environment_id pm))))
     else if ex_session_id req \<noteq> si_session_id session
     then failM (PInternal ''session binding mismatch: touched session differs from request session'')
     else if si_environment_id session \<noteq> pm_environment_id pm
     then failM (PInternal ''session belongs to a different environment'')
     else bindM (liftM (check_policy (pm_config pm) (ex_program req))) (\<lambda>_.
     if hm_get (ex_env_vars req) ''PATH'' \<noteq> None \<or> hm_get (si_env_vars session) ''PATH'' \<noteq> None
     then failM (PInvalidRequest path_var_refused)
     else
       let effective_workdir =
             (if ex_working_directory req = [] then si_working_directory session
              else ex_working_directory req) in
       (case pm_fs pm of
          None \<Rightarrow> failM (PInternal ''filesystem backend not configured'')
        | Some fs \<Rightarrow>
            bindM (mapM_err workdir_resolve_error (fs_resolve fs effective_workdir)) (\<lambda>workdir.
            bindM (mapM_err workdir_error (sys_stat workdir)) (\<lambda>meta.
            if md_kind meta \<noteq> KDir
            then failM (PInvalidRequest ''working_directory is not a directory'')
            else okM workdir)))))"

text \<open>\<open>Command::spawn\<close>: the child is started as the program itself, never through a shell.\<close>

definition sys_spawn :: "command \<Rightarrow> (errno, unit) comp" where
  "sys_spawn cmd = syscall (\<lambda>w. (Inr (), w\<lparr> w_spawned := w_spawned w @ [cmd] \<rparr>))"

definition session_entries :: "environment_id \<Rightarrow> session_id \<Rightarrow> process_table \<Rightarrow> nat" where
  "session_entries env sid table =
     length (filter (\<lambda>((e, s, _), _). e = env \<and> s = sid) table)"

text \<open>
  The critical section that reserves a slot: expired entries go, then the cap of the session, then
  the global bound, then a fresh identifier.  The table keeps the evictions when it fails.
\<close>

definition reserve_slot ::
  "process_manager \<Rightarrow> environment_id \<Rightarrow> session_id \<Rightarrow> entry_ref \<Rightarrow> world
    \<Rightarrow> (process_error + process_id) \<times> process_table \<times> world" where
  "reserve_slot pm env sid entry w =
     (let heap = pm_entries pm; config = pm_config pm in
      case evict_expired_terminal_entries heap (pm_processes pm) (pc_retention_secs config) w of
        (table1, w1) \<Rightarrow>
          let session_count = session_entries env sid table1 in
          if session_count \<ge> pc_max_processes_per_session config
          then (Inl (PTooManyProcesses (''session '' @ quoted (sess_str sid) @ '' holds ''
                  @ nat_str session_count @ '' processes (cap ''
                  @ nat_str (pc_max_processes_per_session config) @ ''): refusing spawn'')), table1, w1)
          else
            (case make_room_for_spawn heap config table1 w1 of
               (Inl e, table2, w2) \<Rightarrow> (Inl e, table2, w2)
             | (Inr _, table2, w2) \<Rightarrow>
                 (case fresh_id MAX_ID_ATTEMPTS alloc_process_id
                         (\<lambda>c. hm_get table2 (env, sid, c) \<noteq> None) w2 of
                    (Inl e, w3) \<Rightarrow> (Inl e, table2, w3)
                  | (Inr None, w3) \<Rightarrow>
                      (Inl (PInternal ''repeated process id collisions; refusing spawn''), table2, w3)
                  | (Inr (Some pid), w3) \<Rightarrow>
                      (Inr pid, hm_insert (env, sid, pid) entry table2, w3))))"

definition new_supervisor :: supervisor where
  "new_supervisor = \<lparr> sv_phase = Polling, sv_out_open = True, sv_err_open = True, sv_killed = False \<rparr>"

definition start_process ::
  "process_manager \<Rightarrow> execute_request \<Rightarrow> session_info \<Rightarrow> world
    \<Rightarrow> (process_error + process_id) \<times> process_manager \<times> world" where
  "start_process pm req session w =
     (case start_checks pm req session w of
        (Inl e, w1) \<Rightarrow> (Inl e, pm, w1)
      | (Inr workdir, w1) \<Rightarrow>
          (case system_time_now w1 of (started, w2) \<Rightarrow>
             let entry = pm_next pm;
                 pm1 = pm\<lparr> pm_entries := (pm_entries pm)(entry := new_entry (ex_program req) started),
                           pm_next := Suc entry \<rparr>;
                 cmd = \<lparr> cmd_program = ex_program req, cmd_args = ex_args req, cmd_dir = workdir,
                         cmd_env = merge_session_env (si_env_vars session) (ex_env_vars req) \<rparr> in
             if pm_poisoned pm then (Inl table_poisoned, pm1, w2)
             else
               (case reserve_slot pm1 (ex_environment_id req) (ex_session_id req) entry w2 of
                  (Inl e, table, w3) \<Rightarrow> (Inl e, pm1\<lparr> pm_processes := table \<rparr>, w3)
                | (Inr pid, table, w3) \<Rightarrow>
                    (case sys_spawn cmd w3 of
                       (Inl e, w4) \<Rightarrow>
                         (Inl (PInternal (''failed to spawn '' @ debug_str (ex_program req) @ '': ''
                            @ errno_display e)),
                          pm1\<lparr> pm_processes :=
                            hm_remove (ex_environment_id req, ex_session_id req, pid) table \<rparr>, w4)
                     | (Inr _, w4) \<Rightarrow>
                         (Inr pid,
                          pm1\<lparr> pm_processes := table,
                               pm_tasks := hm_insert entry new_supervisor (pm_tasks pm) \<rparr>, w4)))))"

section \<open>Queries and kills\<close>

definition lookup_process ::
  "process_manager \<Rightarrow> environment_id \<Rightarrow> session_id \<Rightarrow> process_id \<Rightarrow> process_error + entry_ref" where
  "lookup_process pm env sid pid =
     (if pm_poisoned pm then Inl table_poisoned
      else
        (case hm_get (pm_processes pm) (env, sid, pid) of
           None \<Rightarrow> Inl (PNotFound (''unknown process id '' @ quoted (proc_str pid)))
         | Some r \<Rightarrow> Inr r))"

definition pm_status ::
  "process_manager \<Rightarrow> process_status_request \<Rightarrow> process_error + process_status_response" where
  "pm_status pm req =
     bindE (lookup_process pm (ps_environment_id req) (ps_session_id req) (ps_process_id req)) (\<lambda>r.
       let entry = pm_entries pm r in
       if pe_poisoned entry then Inl state_poisoned
       else Inr \<lparr> psr_state = ms_status (pe_state entry) \<rparr>)"

definition request_kill :: "entry_ref \<Rightarrow> process_manager \<Rightarrow> process_manager" where
  "request_kill r pm =
     pm\<lparr> pm_entries := (pm_entries pm)(r := (pm_entries pm r)\<lparr> pe_kill_requested := True \<rparr>) \<rparr>"

definition entry_running :: "process_manager \<Rightarrow> entry_ref \<Rightarrow> bool" where
  "entry_running pm r =
     (let entry = pm_entries pm r
      in \<not> pe_poisoned entry \<and> ms_status (pe_state entry) = Running)"

definition count_for_session :: "process_manager \<Rightarrow> session_id \<Rightarrow> nat" where
  "count_for_session pm sid =
     (if pm_poisoned pm then 0
      else length (filter (\<lambda>((_, s, _), _). s = sid) (pm_processes pm)))"

fun kill_targets :: "entry_ref list \<Rightarrow> process_manager \<Rightarrow> nat \<Rightarrow> nat \<times> process_manager" where
  "kill_targets [] pm count = (count, pm)"
| "kill_targets (r # rs) pm count =
     (if entry_running pm r then kill_targets rs (request_kill r pm) (count + 1)
      else kill_targets rs pm count)"

definition session_refs :: "process_manager \<Rightarrow> environment_id \<Rightarrow> session_id \<Rightarrow> entry_ref list" where
  "session_refs pm env sid =
     map snd (filter (\<lambda>((e, s, _), _). e = env \<and> s = sid) (pm_processes pm))"

definition kill_session_processes ::
  "process_manager \<Rightarrow> environment_id \<Rightarrow> session_id \<Rightarrow> nat \<times> process_manager" where
  "kill_session_processes pm env sid =
     kill_targets (if pm_poisoned pm then [] else session_refs pm env sid) pm 0"

end
