(* ===== verification/Supervisor.thy ===== *)
theory Supervisor
  imports ProcTable
begin

text \<open>
  The concurrent half of \<open>process.rs\<close>: the supervisor task of every child, the two readers that
  drain its pipes, and the two operations that wait for it.  A step of a task is an event; an
  event that is not enabled changes nothing, so every schedule is a list of events.  What the
  operating system decides (the outcome of \<open>try_wait\<close>, the bytes a pipe delivers, when the drain
  timeout fires, the time of publication) is in the event.  Aborting the readers takes effect at
  once.  A waiting call is given the polls it makes: the seconds elapsed at each one and the events
  of the other tasks while it is parked; after the last poll its deadline has passed.
\<close>

section \<open>Reading the pipes\<close>

datatype stream_kind = StdoutStream | StderrStream

fun stream_of :: "stream_kind \<Rightarrow> managed_state \<Rightarrow> bytes" where
  "stream_of StdoutStream st = ms_stdout st"
| "stream_of StderrStream st = ms_stderr st"

fun set_stream :: "stream_kind \<Rightarrow> bytes \<Rightarrow> managed_state \<Rightarrow> managed_state" where
  "set_stream StdoutStream b st = st\<lparr> ms_stdout := b \<rparr>"
| "set_stream StderrStream b st = st\<lparr> ms_stderr := b \<rparr>"

definition append_capped :: "nat \<Rightarrow> stream_kind \<Rightarrow> bytes \<Rightarrow> managed_state \<Rightarrow> managed_state" where
  "append_capped max_output_bytes kind chunk st =
     (let target = stream_of kind st;
          room = max_output_bytes - length target in
      if room = 0 then st\<lparr> ms_truncated := True \<rparr>
      else
        let n = min (length chunk) room;
            st1 = set_stream kind (target @ take n chunk) st in
        if n < length chunk then st1\<lparr> ms_truncated := True \<rparr> else st1)"

section \<open>Events of the supervisors\<close>

datatype wait_outcome = StillRunning | ExitCode int | BySignal | WaitFailed string

datatype sup_event =
    Poll entry_ref wait_outcome
  | Chunk entry_ref stream_kind bytes
  | Eof entry_ref stream_kind
  | DrainDone entry_ref
  | DrainTimeout entry_ref
  | Publish entry_ref system_time

fun reader_open :: "stream_kind \<Rightarrow> supervisor \<Rightarrow> bool" where
  "reader_open StdoutStream sv = sv_out_open sv"
| "reader_open StderrStream sv = sv_err_open sv"

fun close_reader :: "stream_kind \<Rightarrow> supervisor \<Rightarrow> supervisor" where
  "close_reader StdoutStream sv = sv\<lparr> sv_out_open := False \<rparr>"
| "close_reader StderrStream sv = sv\<lparr> sv_err_open := False \<rparr>"

definition set_task :: "entry_ref \<Rightarrow> supervisor \<Rightarrow> process_manager \<Rightarrow> process_manager" where
  "set_task r sv pm = pm\<lparr> pm_tasks := hm_insert r sv (pm_tasks pm) \<rparr>"

definition update_state ::
  "entry_ref \<Rightarrow> (managed_state \<Rightarrow> managed_state) \<Rightarrow> process_manager \<Rightarrow> process_manager" where
  "update_state r f pm =
     (let e = pm_entries pm r in
      if pe_poisoned e then pm
      else pm\<lparr> pm_entries := (pm_entries pm)(r := e\<lparr> pe_state := f (pe_state e) \<rparr>) \<rparr>)"

fun poll_outcome :: "wait_outcome \<Rightarrow> process_state option" where
  "poll_outcome StillRunning = None"
| "poll_outcome (ExitCode code) = Some (Exited code)"
| "poll_outcome BySignal = Some (Failed ''process terminated by signal'')"
| "poll_outcome (WaitFailed msg) = Some (Failed (''failed to wait for child: '' @ msg))"

definition poll_child :: "process_entry \<Rightarrow> wait_outcome \<Rightarrow> supervisor \<Rightarrow> supervisor" where
  "poll_child entry outcome sv =
     (let sv1 = (if pe_kill_requested entry then sv\<lparr> sv_killed := True \<rparr> else sv) in
      case poll_outcome outcome of
        None \<Rightarrow> sv1
      | Some final_status \<Rightarrow> sv1\<lparr> sv_phase := Draining final_status \<rparr>)"

definition READ_CHUNK :: nat where
  "READ_CHUNK = 8192"

definition read_chunk :: "entry_ref \<Rightarrow> stream_kind \<Rightarrow> bytes \<Rightarrow> supervisor \<Rightarrow> process_manager \<Rightarrow> process_manager" where
  "read_chunk r kind chunk sv pm =
     (if reader_open kind sv \<and> chunk \<noteq> [] \<and> length chunk \<le> READ_CHUNK
      then (if pe_poisoned (pm_entries pm r) then set_task r (close_reader kind sv) pm
            else update_state r (append_capped (pc_max_output_bytes (pm_config pm)) kind chunk) pm)
      else pm)"

definition drain_timeout :: "entry_ref \<Rightarrow> process_state \<Rightarrow> supervisor \<Rightarrow> process_manager \<Rightarrow> process_manager" where
  "drain_timeout r status sv pm =
     set_task r (sv\<lparr> sv_phase := Publishing status, sv_out_open := False, sv_err_open := False \<rparr>)
       (update_state r (\<lambda>st. st\<lparr> ms_truncated := True \<rparr>) pm)"

definition publish_final :: "entry_ref \<Rightarrow> process_state \<Rightarrow> system_time \<Rightarrow> supervisor \<Rightarrow> process_manager \<Rightarrow> process_manager" where
  "publish_final r status t sv pm =
     set_task r (sv\<lparr> sv_phase := Finished \<rparr>)
       (update_state r (\<lambda>st. st\<lparr> ms_status := status, ms_finished_at := Some t \<rparr>) pm)"

fun event_ref :: "sup_event \<Rightarrow> entry_ref" where
  "event_ref (Poll r _) = r"
| "event_ref (Chunk r _ _) = r"
| "event_ref (Eof r _) = r"
| "event_ref (DrainDone r) = r"
| "event_ref (DrainTimeout r) = r"
| "event_ref (Publish r _) = r"

fun task_event :: "sup_event \<Rightarrow> supervisor \<Rightarrow> process_manager \<Rightarrow> process_manager" where
  "task_event (Poll r outcome) sv pm =
     (if sv_phase sv = Polling then set_task r (poll_child (pm_entries pm r) outcome sv) pm else pm)"
| "task_event (Chunk r kind chunk) sv pm = read_chunk r kind chunk sv pm"
| "task_event (Eof r kind) sv pm = set_task r (close_reader kind sv) pm"
| "task_event (DrainDone r) sv pm =
     (case sv_phase sv of
        Draining status \<Rightarrow>
          if \<not> sv_out_open sv \<and> \<not> sv_err_open sv
          then set_task r (sv\<lparr> sv_phase := Publishing status \<rparr>) pm else pm
      | _ \<Rightarrow> pm)"
| "task_event (DrainTimeout r) sv pm =
     (case sv_phase sv of Draining status \<Rightarrow> drain_timeout r status sv pm | _ \<Rightarrow> pm)"
| "task_event (Publish r t) sv pm =
     (case sv_phase sv of Publishing status \<Rightarrow> publish_final r status t sv pm | _ \<Rightarrow> pm)"

definition run_event :: "sup_event \<Rightarrow> process_manager \<Rightarrow> process_manager" where
  "run_event ev pm =
     (case hm_get (pm_tasks pm) (event_ref ev) of
        None \<Rightarrow> pm
      | Some sv \<Rightarrow> task_event ev sv pm)"

definition run_events :: "sup_event list \<Rightarrow> process_manager \<Rightarrow> process_manager" where
  "run_events evs pm = fold run_event evs pm"

section \<open>Waiting\<close>

definition wait_reply :: "managed_state \<Rightarrow> int option \<Rightarrow> bool \<Rightarrow> wait_process_response" where
  "wait_reply st code timed_out =
     \<lparr> wpr_stdout = ms_stdout st, wpr_stderr = ms_stderr st, wpr_exit_code = code,
       wpr_timed_out = timed_out, wpr_truncated = ms_truncated st \<rparr>"

definition wait_poll ::
  "process_entry \<Rightarrow> bool \<Rightarrow> (process_error + wait_process_response) option" where
  "wait_poll entry deadline_passed =
     (let st = pe_state entry in
      if pe_poisoned entry then Some (Inl state_poisoned)
      else
        (case ms_status st of
           Exited code \<Rightarrow> Some (Inr (wait_reply st (Some code) False))
         | Failed _ \<Rightarrow> Some (Inr (wait_reply st None False))
         | Running \<Rightarrow>
             if deadline_passed then Some (Inr (wait_reply st None True)) else None))"

fun wait_loop ::
  "(nat \<times> sup_event list) list \<Rightarrow> entry_ref \<Rightarrow> nat \<Rightarrow> process_manager
    \<Rightarrow> (process_error + wait_process_response) \<times> process_manager" where
  "wait_loop [] r timeout pm =
     (case wait_poll (pm_entries pm r) True of
        Some res \<Rightarrow> (res, pm)
      | None \<Rightarrow> (Inl state_poisoned, pm))"
| "wait_loop ((elapsed, evs) # polls) r timeout pm =
     (case wait_poll (pm_entries pm r) (timeout \<le> elapsed) of
        Some res \<Rightarrow> (res, pm)
      | None \<Rightarrow> wait_loop polls r timeout (run_events evs pm))"

definition wait_process ::
  "process_manager \<Rightarrow> wait_process_request \<Rightarrow> (nat \<times> sup_event list) list
    \<Rightarrow> (process_error + wait_process_response) \<times> process_manager" where
  "wait_process pm req polls =
     (case wait_process_validate req of
        Inl e \<Rightarrow> (Inl (PInvalidRequest (core_error_display e)), pm)
      | Inr _ \<Rightarrow>
          (case lookup_process pm (wp_environment_id req) (wp_session_id req) (wp_process_id req) of
             Inl e \<Rightarrow> (Inl e, pm)
           | Inr r \<Rightarrow> wait_loop polls r (wp_timeout_secs req) pm))"

section \<open>Terminating\<close>

fun grace_loop :: "(nat \<times> sup_event list) list \<Rightarrow> entry_ref \<Rightarrow> process_manager \<Rightarrow> process_manager" where
  "grace_loop [] r pm = pm"
| "grace_loop ((_, evs) # polls) r pm =
     (let entry = pm_entries pm r in
      if pe_poisoned entry \<or> ms_status (pe_state entry) \<noteq> Running then pm
      else grace_loop polls r (run_events evs pm))"

definition terminate_process ::
  "process_manager \<Rightarrow> terminate_process_request \<Rightarrow> (nat \<times> sup_event list) list
    \<Rightarrow> (process_error + terminate_process_response) \<times> process_manager" where
  "terminate_process pm req polls =
     (case lookup_process pm (tp_environment_id req) (tp_session_id req) (tp_process_id req) of
        Inl e \<Rightarrow> (Inl e, pm)
      | Inr r \<Rightarrow>
          if pe_poisoned (pm_entries pm r) then (Inl state_poisoned, pm)
          else if ms_status (pe_state (pm_entries pm r)) \<noteq> Running
          then (Inr \<lparr> tpr_terminated = False \<rparr>, pm)
          else (Inr \<lparr> tpr_terminated = True \<rparr>, grace_loop polls r (request_kill r pm)))"

end
