(* ===== verification/ProcFacts.thy ===== *)
theory ProcFacts
  imports Supervisor
begin

text \<open>
  What an eviction may do to the process table (a locale with one instance per eviction routine),
  and the invariant of the process manager under every operation and every supervisor event.
\<close>

section \<open>Evictions\<close>

definition evictable :: "entry_heap \<Rightarrow> entry_ref \<Rightarrow> bool" where
  "evictable heap r \<longleftrightarrow> \<not> pe_poisoned (heap r) \<and> is_terminal (ms_status (pe_state (heap r)))"

text \<open>The table shrinks by entries in a final state only.\<close>

definition shrinks :: "entry_heap \<Rightarrow> process_table \<Rightarrow> process_table \<Rightarrow> bool" where
  "shrinks heap t t' \<longleftrightarrow>
     (\<exists>P. t' = filter P t \<and> (\<forall>kr \<in> set t. \<not> P kr \<longrightarrow> evictable heap (snd kr)))"

lemma shrinks_refl: "shrinks heap t t"
  unfolding shrinks_def by (rule exI [of _ "\<lambda>_. True"]) simp

lemma shrinks_trans:
  assumes "shrinks heap t u" and "shrinks heap u v"
  shows "shrinks heap t v"
proof -
  from assms obtain P Q where u: "u = filter P t" and P: "\<forall>kr \<in> set t. \<not> P kr \<longrightarrow> evictable heap (snd kr)"
    and v: "v = filter Q u" and Q: "\<forall>kr \<in> set u. \<not> Q kr \<longrightarrow> evictable heap (snd kr)"
    by (auto simp: shrinks_def)
  have "v = filter (\<lambda>kr. Q kr \<and> P kr) t" by (simp add: u v conj_commute)
  then show ?thesis unfolding shrinks_def using P Q u by (intro exI [of _ "\<lambda>kr. Q kr \<and> P kr"]) auto
qed

lemma filter_table_get:
  "hm_ok t \<Longrightarrow> hm_get (filter P t) key = Some r \<longleftrightarrow> hm_get t key = Some r \<and> P (key, r)"
  using hm_in_set_get [of t key r] hm_in_set_get [of "filter P t" key r] by simp

lemma shrinks_ok: "shrinks heap t t' \<Longrightarrow> hm_ok t \<Longrightarrow> hm_ok t'"
  by (auto simp: shrinks_def)

lemma shrinks_length: "shrinks heap t t' \<Longrightarrow> length t' \<le> length t"
  by (auto simp: shrinks_def)

lemma shrinks_session_entries:
  assumes "shrinks heap t t'"
  shows "session_entries env sid t' \<le> session_entries env sid t"
proof -
  from assms obtain P where t': "t' = filter P t" unfolding shrinks_def by blast
  have swap: "filter Q (filter P t) = filter P (filter Q t)" for Q
    unfolding filter_filter by (rule filter_cong) auto
  show ?thesis unfolding session_entries_def t' swap by (rule length_filter_le)
qed

lemma shrinks_get: "shrinks heap t t' \<Longrightarrow> hm_ok t \<Longrightarrow> hm_get t' key = Some r \<Longrightarrow> hm_get t key = Some r"
  by (auto simp: shrinks_def filter_table_get)

lemma shrinks_live:
  assumes "shrinks heap t t'" and "hm_ok t" and "hm_get t key = Some r" and "\<not> evictable heap r"
  shows "hm_get t' key = Some r"
proof -
  from assms(1) obtain P where P: "t' = filter P t" "\<forall>kr \<in> set t. \<not> P kr \<longrightarrow> evictable heap (snd kr)"
    unfolding shrinks_def by blast
  have "(key, r) \<in> set t" using assms(2,3) by (simp add: hm_in_set_get)
  then have "P (key, r)" using P(2) assms(4) by fastforce
  then show ?thesis using assms(2,3) by (simp add: P(1) filter_table_get)
qed

locale reaper =
  fixes reap :: "entry_heap \<Rightarrow> process_table \<Rightarrow> process_table"
  assumes reap_shrinks: "hm_ok t \<Longrightarrow> shrinks heap t (reap heap t)"
begin

lemma reap_ok: "hm_ok t \<Longrightarrow> hm_ok (reap heap t)"
  by (rule shrinks_ok [OF reap_shrinks])

lemma live_survives:
  "hm_ok t \<Longrightarrow> hm_get t key = Some r \<Longrightarrow> \<not> evictable heap r \<Longrightarrow> hm_get (reap heap t) key = Some r"
  by (rule shrinks_live [OF reap_shrinks])

lemma nothing_new: "hm_ok t \<Longrightarrow> hm_get (reap heap t) key = Some r \<Longrightarrow> hm_get t key = Some r"
  by (rule shrinks_get [OF reap_shrinks])

end

lemma fold_hm_remove_filter: "fold hm_remove ks m = filter (\<lambda>(k, v). k \<notin> set ks) m"
  by (induction ks arbitrary: m) (auto simp: hm_remove_filter intro!: filter_cong)

lemma remove_shrinks:
  assumes "hm_ok t" and "\<And>key r. key \<in> set ks \<Longrightarrow> hm_get t key = Some r \<Longrightarrow> evictable heap r"
  shows "shrinks heap t (filter (\<lambda>(k, v). k \<notin> set ks) t)"
  unfolding shrinks_def using assms hm_in_set_get [OF assms(1)]
  by (intro exI [of _ "\<lambda>(k, v). k \<notin> set ks"]) fastforce

interpretation expired: reaper
  "\<lambda>heap t. fold hm_remove (map fst (filter (\<lambda>(key, r). expired_terminal heap retention now r) t)) t"
  for retention now
proof (unfold_locales, unfold fold_hm_remove_filter, rule remove_shrinks)
  fix t :: process_table and heap key r
  assume "hm_ok t" and "key \<in> set (map fst (filter (\<lambda>(key, r). expired_terminal heap retention now r) t))"
    and "hm_get t key = Some r"
  then have "expired_terminal heap retention now r" by (auto simp: hm_in_set_get)
  then show "evictable heap r" by (simp add: expired_terminal_def evictable_def Let_def)
qed

lemma evict_loop_filter:
  "\<exists>gone rest. map snd stamps = gone @ rest \<and>
     evict_loop m t stamps = filter (\<lambda>(k, v). k \<notin> set gone) t \<and>
     (rest = [] \<or> length (evict_loop m t stamps) < m)"
proof (induction m t stamps rule: evict_loop.induct)
  case (2 m t s key rest)
  show ?case
  proof (cases "length t < m")
    case True
    then show ?thesis by (intro exI [of _ "[]"] exI [of _ "key # map snd rest"]) simp
  next
    case False
    from "2.IH" [OF False] obtain ds rs where ih: "map snd rest = ds @ rs"
      "evict_loop m (hm_remove key t) rest = filter (\<lambda>(k, v). k \<notin> set ds) (hm_remove key t)"
      "rs = [] \<or> length (evict_loop m (hm_remove key t) rest) < m" by blast
    then show ?thesis using False
      by (intro exI [of _ "key # ds"] exI [of _ rs])
        (auto simp: hm_remove_filter intro!: filter_cong)
  qed
qed simp

lemma terminal_stamps:
  assumes "hm_ok t"
  shows "key \<in> set (map snd (sort_key fst (concat (map (terminal_stamp heap) t)))) \<longleftrightarrow>
    (\<exists>r. hm_get t key = Some r \<and> evictable heap r)"
proof -
  have "key \<in> set (map snd (concat (map (terminal_stamp heap) t))) \<longleftrightarrow>
      (\<exists>r. (key, r) \<in> set t \<and> evictable heap r)"
    by (force simp: terminal_stamp_def evictable_def Let_def)
  then show ?thesis using hm_in_set_get [OF assms] by simp
qed

interpretation oldest: reaper "\<lambda>heap t. evict_oldest_terminal_entries heap t m" for m
proof
  fix t :: process_table and heap assume ok: "hm_ok t"
  let ?stamps = "sort_key fst (concat (map (terminal_stamp heap) t))"
  from evict_loop_filter [of ?stamps m t] obtain ds rs where d: "map snd ?stamps = ds @ rs"
    "evict_loop m t ?stamps = filter (\<lambda>(k, v). k \<notin> set ds) t" by blast
  have "shrinks heap t (filter (\<lambda>(k, v). k \<notin> set ds) t)"
  proof (rule remove_shrinks [OF ok])
    fix key r assume key: "key \<in> set ds" and get: "hm_get t key = Some r"
    then have "key \<in> set (map snd ?stamps)" unfolding d(1) by simp
    with terminal_stamps [OF ok, of key heap] get show "evictable heap r" by auto
  qed
  then show "shrinks heap t (evict_oldest_terminal_entries heap t m)"
    by (simp add: evict_oldest_terminal_entries_def d(2))
qed

section \<open>Reserving a slot\<close>

lemma evict_expired_shrinks:
  "hm_ok t \<Longrightarrow> evict_expired_terminal_entries heap t retention w = (t', w') \<Longrightarrow> shrinks heap t t'"
  using expired.reap_shrinks
  by (auto simp: evict_expired_terminal_entries_def Let_def split: prod.splits)

lemma make_room_spec:
  assumes ok: "hm_ok t" and run: "make_room_for_spawn heap config t w = (res, t', w')"
  shows "shrinks heap t t'" and "res = Inr u \<Longrightarrow> length t' < pc_max_processes config"
    and "res = Inl e \<Longrightarrow> pc_max_processes config \<le> length t' \<and>
      (\<forall>key r. hm_get t' key = Some r \<longrightarrow> \<not> evictable heap r)"
proof -
  obtain t1 w1 where e: "evict_expired_terminal_entries heap t (pc_retention_secs config) w = (t1, w1)"
    by fastforce
  have s1: "shrinks heap t t1" by (rule evict_expired_shrinks [OF ok e])
  have ok1: "hm_ok t1" by (rule shrinks_ok [OF s1 ok])
  let ?t2 = "evict_oldest_terminal_entries heap t1 (pc_max_processes config)"
  have s2: "shrinks heap t1 ?t2" by (rule oldest.reap_shrinks [OF ok1])
  have cases: "t' = t1 \<and> res = Inr () \<and> length t1 < pc_max_processes config \<or>
      t' = ?t2 \<and> (res = Inr () \<and> length ?t2 < pc_max_processes config \<or>
        (\<exists>e. res = Inl e) \<and> pc_max_processes config \<le> length ?t2)"
    using run by (auto simp: make_room_for_spawn_def e Let_def split: if_splits)
  show "shrinks heap t t'" using cases s1 shrinks_trans [OF s1 s2] by auto
  show "res = Inr u \<Longrightarrow> length t' < pc_max_processes config" using cases by auto
  assume "res = Inl e"
  then have t': "t' = ?t2" and full: "pc_max_processes config \<le> length ?t2" using cases by auto
  let ?stamps = "sort_key fst (concat (map (terminal_stamp heap) t1))"
  from evict_loop_filter [of ?stamps "pc_max_processes config" t1] full
  obtain ds where ds: "map snd ?stamps = ds" "?t2 = filter (\<lambda>(k, v). k \<notin> set ds) t1"
    by (auto simp: evict_oldest_terminal_entries_def)
  have "\<not> evictable heap r" if "hm_get t' key = Some r" for key r
    using that terminal_stamps [OF ok1, of key heap] ok1 unfolding t' ds
    by (auto simp: filter_table_get)
  with full show "pc_max_processes config \<le> length t' \<and>
      (\<forall>key r. hm_get t' key = Some r \<longrightarrow> \<not> evictable heap r)" by (simp add: t')
qed

lemma reserve_slot_cases:
  assumes ok: "hm_ok (pm_processes pm)" and run: "reserve_slot pm env sid entry w = (res, table, w')"
  obtains (refused) e where "res = Inl e" "shrinks (pm_entries pm) (pm_processes pm) table"
  | (reserved) pid t where "res = Inr pid" "shrinks (pm_entries pm) (pm_processes pm) t"
      "hm_get t (env, sid, pid) = None" "table = hm_insert (env, sid, pid) entry t"
      "length t < pc_max_processes (pm_config pm)"
      "session_entries env sid t < pc_max_processes_per_session (pm_config pm)"
      "valid_id (proc_str pid)" "prefix ''proc-'' (proc_str pid)"
proof -
  let ?heap = "pm_entries pm" and ?config = "pm_config pm"
  obtain t1 w1 where e: "evict_expired_terminal_entries ?heap (pm_processes pm)
      (pc_retention_secs ?config) w = (t1, w1)" by fastforce
  have s1: "shrinks ?heap (pm_processes pm) t1" by (rule evict_expired_shrinks [OF ok e])
  have ok1: "hm_ok t1" by (rule shrinks_ok [OF s1 ok])
  obtain m t2 w2 where room: "make_room_for_spawn ?heap ?config t1 w1 = (m, t2, w2)"
    by (metis prod.collapse)
  have s2: "shrinks ?heap (pm_processes pm) t2"
    using shrinks_trans [OF s1 make_room_spec(1) [OF ok1 room]] .
  obtain c w3 where draw: "fresh_id MAX_ID_ATTEMPTS alloc_process_id
      (\<lambda>c. hm_get t2 (env, sid, c) \<noteq> None) w2 = (c, w3)" by fastforce
  note run = run [unfolded reserve_slot_def Let_def e prod.case room]
  show ?thesis
  proof (cases "pc_max_processes_per_session ?config \<le> session_entries env sid t1")
    case True
    then show ?thesis using run s1 by (intro refused) auto
  next
    case cap: False
    show ?thesis
    proof (cases m)
      case (Inl err)
      then show ?thesis using run cap s2 by (intro refused) auto
    next
      case (Inr u)
      show ?thesis
      proof (cases "\<exists>pid. c = Inr (Some pid)")
        case True
        then obtain pid where c: "c = Inr (Some pid)" by blast
        note free = proc_ids.fresh_free [OF draw [unfolded c]]
        have "session_entries env sid t2 < pc_max_processes_per_session ?config"
          using shrinks_session_entries [OF make_room_spec(1) [OF ok1 room], of env sid] cap by simp
        then show ?thesis using run cap Inr c draw s2 free make_room_spec(2) [OF ok1 room Inr]
          by (intro reserved) auto
      next
        case False
        then consider e where "c = Inl e" | "c = Inr None" by (cases c) (auto split: option.splits)
        then show ?thesis
          using run cap Inr draw s2 by cases (intro refused; auto)+
      qed
    qed
  qed
qed

lemma hm_remove_insert_absent: "hm_get t k = None \<Longrightarrow> hm_remove k (hm_insert k v t) = t"
  by (induction t) (auto simp: hm_remove_def hm_insert_def hm_get_def split: if_splits)

lemma start_process_cases:
  assumes ok: "hm_ok (pm_processes pm)" and run: "start_process pm req session w = (res, pm', w')"
  obtains (rejected) e where "res = Inl e" "pm' = pm" "\<not> (\<exists>p v. start_checks pm req session w = (Inr p, v))"
  | (failed) e started table where "res = Inl e"
      "pm' = pm\<lparr> pm_entries := (pm_entries pm)(pm_next pm := new_entry (ex_program req) started),
        pm_next := Suc (pm_next pm), pm_processes := table \<rparr>"
      "shrinks ((pm_entries pm)(pm_next pm := new_entry (ex_program req) started)) (pm_processes pm) table"
  | (started) pid started t workdir w1 w3 where "res = Inr pid"
      "start_checks pm req session w = (Inr workdir, w1)"
      "shrinks ((pm_entries pm)(pm_next pm := new_entry (ex_program req) started)) (pm_processes pm) t"
      "hm_get t (ex_environment_id req, ex_session_id req, pid) = None"
      "length t < pc_max_processes (pm_config pm)"
      "session_entries (ex_environment_id req) (ex_session_id req) t
         < pc_max_processes_per_session (pm_config pm)"
      "valid_id (proc_str pid)" "prefix ''proc-'' (proc_str pid)"
      "sys_spawn \<lparr> cmd_program = ex_program req, cmd_args = ex_args req, cmd_dir = workdir,
         cmd_env = merge_session_env (si_env_vars session) (ex_env_vars req) \<rparr> w3 = (Inr (), w')"
      "pm' = pm\<lparr> pm_entries := (pm_entries pm)(pm_next pm := new_entry (ex_program req) started),
        pm_next := Suc (pm_next pm),
        pm_processes := hm_insert (ex_environment_id req, ex_session_id req, pid) (pm_next pm) t,
        pm_tasks := hm_insert (pm_next pm) new_supervisor (pm_tasks pm) \<rparr>"
proof -
  obtain c w1 where checks: "start_checks pm req session w = (c, w1)" by fastforce
  show ?thesis
  proof (cases c)
    case (Inl e)
    then show ?thesis using run checks by (intro rejected) (auto simp: start_process_def)
  next
    case (Inr workdir)
    obtain st w2 where clock: "system_time_now w1 = (st, w2)" by fastforce
    let ?heap = "(pm_entries pm)(pm_next pm := new_entry (ex_program req) st)"
    let ?pm1 = "pm\<lparr> pm_entries := ?heap, pm_next := Suc (pm_next pm) \<rparr>"
    let ?key = "\<lambda>pid. (ex_environment_id req, ex_session_id req, pid)"
    let ?cmd = "\<lparr> cmd_program = ex_program req, cmd_args = ex_args req, cmd_dir = workdir,
         cmd_env = merge_session_env (si_env_vars session) (ex_env_vars req) \<rparr>"
    note run = run [unfolded start_process_def checks Inr prod.case sum.case clock Let_def]
    obtain s table w3 where slot: "reserve_slot ?pm1 (ex_environment_id req) (ex_session_id req)
        (pm_next pm) w2 = (s, table, w3)" by (metis prod.collapse)
    have ok1: "hm_ok (pm_processes ?pm1)" using ok by simp
    show ?thesis
    proof (cases "pm_poisoned pm")
      case True
      then show ?thesis using run by (intro failed [where started = st and table = "pm_processes pm"]) (auto intro: shrinks_refl)
    next
      case False
      note run = run [unfolded slot prod.case] False
      from ok1 slot show ?thesis
      proof (cases rule: reserve_slot_cases)
        case (refused e)
        then show ?thesis using run by (intro failed [where e = e and started = st and table = table]) auto
      next
        case (reserved pid t)
        obtain sp w4 where spawn: "sys_spawn ?cmd w3 = (sp, w4)" by fastforce
        show ?thesis
        proof (cases sp)
          case (Inl e)
          have gone: "hm_remove (?key pid) table = t"
            using reserved by (simp add: hm_remove_insert_absent)
          then show ?thesis using run reserved spawn Inl
            by (intro failed [where started = st and table = t]) auto
        next
          case (Inr u)
          then show ?thesis using run reserved spawn checks \<open>c = Inr workdir\<close>
            by (intro started [where pid = pid and started = st and t = t and workdir = workdir and ?w1.0 = w1 and ?w3.0 = w3]) auto
        qed
      qed
    qed
  qed
qed

end
