(* ===== verification/ProcInv.thy ===== *)
theory ProcInv
  imports ProcFacts
begin

text \<open>
  One child as a state machine (\<open>task_step\<close>), the refinement of the supervisor events to it, and
  the invariant of every reachable process manager.
\<close>

section \<open>The life of one child\<close>

inductive task_step ::
  "nat \<Rightarrow> process_entry \<times> supervisor \<Rightarrow> process_entry \<times> supervisor \<Rightarrow> bool" for cap where
  poll: "sv_phase sv = Polling \<Longrightarrow> task_step cap (e, sv) (e, poll_child e outcome sv)"
| read: "reader_open kind sv \<Longrightarrow> \<not> pe_poisoned e \<Longrightarrow>
     task_step cap (e, sv) (e\<lparr> pe_state := append_capped cap kind chunk (pe_state e) \<rparr>, sv)"
| close: "task_step cap (e, sv) (e, close_reader kind sv)"
| drained: "sv_phase sv = Draining status \<Longrightarrow> \<not> sv_out_open sv \<Longrightarrow> \<not> sv_err_open sv \<Longrightarrow>
     task_step cap (e, sv) (e, sv\<lparr> sv_phase := Publishing status \<rparr>)"
| timeout: "sv_phase sv = Draining status \<Longrightarrow>
     e' = (if pe_poisoned e then e else e\<lparr> pe_state := (pe_state e)\<lparr> ms_truncated := True \<rparr> \<rparr>) \<Longrightarrow>
     task_step cap (e, sv)
       (e', sv\<lparr> sv_phase := Publishing status, sv_out_open := False, sv_err_open := False \<rparr>)"
| publish: "sv_phase sv = Publishing status \<Longrightarrow>
     e' = (if pe_poisoned e then e
           else e\<lparr> pe_state := (pe_state e)\<lparr> ms_status := status, ms_finished_at := Some t \<rparr> \<rparr>) \<Longrightarrow>
     task_step cap (e, sv) (e', sv\<lparr> sv_phase := Finished \<rparr>)"

inductive_cases task_stepE: "task_step cap (e, sv) (e', sv')"

definition put_task :: "entry_ref \<Rightarrow> process_entry \<times> supervisor \<Rightarrow> process_manager \<Rightarrow> process_manager" where
  "put_task r es pm =
     pm\<lparr> pm_entries := (pm_entries pm)(r := fst es), pm_tasks := hm_insert r (snd es) (pm_tasks pm) \<rparr>"

lemma hm_insert_same: "hm_get m k = Some v \<Longrightarrow> hm_insert k v m = m"
  by (simp add: hm_get_def hm_insert_def update_triv)

lemma set_task_put: "set_task r sv pm = put_task r (pm_entries pm r, sv) pm"
  by (simp add: set_task_def put_task_def)

lemma update_state_put:
  "hm_get (pm_tasks pm) r = Some sv \<Longrightarrow>
     update_state r f pm =
       put_task r (if pe_poisoned (pm_entries pm r) then pm_entries pm r
                   else (pm_entries pm r)\<lparr> pe_state := f (pe_state (pm_entries pm r)) \<rparr>, sv) pm"
  by (simp add: update_state_def put_task_def Let_def hm_insert_same)

lemma put_put [simp]: "put_task r es (put_task r es' pm) = put_task r es pm"
  by (simp add: put_task_def hm_insert_def update_last)

lemma put_task_fields [simp]:
  "pm_tasks (put_task r es pm) = hm_insert r (snd es) (pm_tasks pm)"
  "pm_entries (put_task r es pm) = (pm_entries pm)(r := fst es)"
  "pm_processes (put_task r es pm) = pm_processes pm"
  "pm_config (put_task r es pm) = pm_config pm"
  "pm_environment_id (put_task r es pm) = pm_environment_id pm"
  "pm_next (put_task r es pm) = pm_next pm"
  "pm_poisoned (put_task r es pm) = pm_poisoned pm"
  "pm_fs (put_task r es pm) = pm_fs pm"
  by (simp_all add: put_task_def)

text \<open>Every event either is not enabled or is one step of the child it addresses.\<close>

lemma run_event_refines:
  obtains (idle) "run_event ev pm = pm"
  | (stepped) sv es where "hm_get (pm_tasks pm) (event_ref ev) = Some sv"
      "task_step (pc_max_output_bytes (pm_config pm)) (pm_entries pm (event_ref ev), sv) es"
      "run_event ev pm = put_task (event_ref ev) es pm"
proof (cases "hm_get (pm_tasks pm) (event_ref ev)")
  case None
  then show ?thesis using idle by (simp add: run_event_def)
next
  case (Some sv)
  let ?e = "pm_entries pm (event_ref ev)"
  note run = run_event_def [of ev pm] Some
  show ?thesis
  proof (cases ev)
    case (Poll r outcome)
    show ?thesis
    proof (cases "sv_phase sv = Polling")
      case True
      from poll [OF True] show ?thesis using Poll run True
        by (intro stepped) (auto simp: set_task_put)
    qed (use Poll run idle in simp)
  next
    case (Chunk r kind chunk)
    show ?thesis
    proof (cases "reader_open kind sv \<and> chunk \<noteq> [] \<and> length chunk \<le> READ_CHUNK")
      case True
      show ?thesis
      proof (cases "pe_poisoned ?e")
        case True
        then show ?thesis using Chunk run close [of _ ?e sv kind] \<open>reader_open kind sv \<and> _\<close>
          by (intro stepped) (auto simp: read_chunk_def set_task_put)
      next
        case False
        then show ?thesis
          using Chunk run read [of kind sv ?e _ chunk] \<open>reader_open kind sv \<and> _\<close>
          by (intro stepped) (auto simp: read_chunk_def update_state_put)
      qed
    qed (use Chunk run idle in \<open>auto simp: read_chunk_def\<close>)
  next
    case (Eof r kind)
    then show ?thesis using run close [of _ ?e sv kind] by (intro stepped) (auto simp: set_task_put)
  next
    case (DrainDone r)
    show ?thesis
    proof (cases "\<exists>status. sv_phase sv = Draining status \<and> \<not> sv_out_open sv \<and> \<not> sv_err_open sv")
      case True
      then obtain status where s: "sv_phase sv = Draining status" "\<not> sv_out_open sv" "\<not> sv_err_open sv"
        by blast
      from drained [OF this] show ?thesis using DrainDone run s
        by (intro stepped) (auto simp: set_task_put)
    qed (use DrainDone run idle in \<open>auto split: sup_phase.splits\<close>)
  next
    case (DrainTimeout r)
    show ?thesis
    proof (cases "\<exists>status. sv_phase sv = Draining status")
      case True
      then obtain status where s: "sv_phase sv = Draining status" by blast
      show ?thesis
        by (rule stepped [OF Some timeout [OF s refl]])
          (use DrainTimeout run s in \<open>simp add: drain_timeout_def set_task_put update_state_put\<close>)
    qed (use DrainTimeout run idle in \<open>auto split: sup_phase.splits\<close>)
  next
    case (Publish r t)
    show ?thesis
    proof (cases "\<exists>status. sv_phase sv = Publishing status")
      case True
      then obtain status where s: "sv_phase sv = Publishing status" by blast
      show ?thesis
        by (rule stepped [OF Some publish [where t = t, OF s refl]])
          (use Publish run s in \<open>simp add: publish_final_def set_task_put update_state_put\<close>)
    qed (use Publish run idle in \<open>auto split: sup_phase.splits\<close>)
  qed
qed

lemma run_events_induct [consumes 1]:
  assumes "P pm" and "\<And>ev pm. P pm \<Longrightarrow> P (run_event ev pm)"
  shows "P (run_events evs pm)"
  using assms(1) unfolding run_events_def by (induction evs arbitrary: pm) (auto intro: assms(2))

section \<open>The invariant of one child\<close>

definition task_ok :: "nat \<Rightarrow> process_entry \<times> supervisor \<Rightarrow> bool" where
  "task_ok cap es \<longleftrightarrow>
     (let e = fst es; st = pe_state e; sv = snd es in
      length (ms_stdout st) \<le> cap \<and> length (ms_stderr st) \<le> cap \<and>
      (ms_status st = Running \<longleftrightarrow> ms_finished_at st = None) \<and>
      (sv_phase sv \<noteq> Finished \<longrightarrow> ms_status st = Running) \<and>
      (sv_phase sv = Finished \<longrightarrow> \<not> pe_poisoned e \<longrightarrow> ms_status st \<noteq> Running) \<and>
      (\<forall>status. sv_phase sv = Draining status \<or> sv_phase sv = Publishing status \<longrightarrow> status \<noteq> Running) \<and>
      (sv_phase sv = Finished \<or> (\<exists>status. sv_phase sv = Publishing status) \<longrightarrow>
         \<not> sv_out_open sv \<and> \<not> sv_err_open sv))"

lemma append_capped_fields [simp]:
  "ms_status (append_capped cap kind chunk st) = ms_status st"
  "ms_finished_at (append_capped cap kind chunk st) = ms_finished_at st"
  by (cases kind; simp add: append_capped_def Let_def)+

lemma append_capped_length:
  "length (ms_stdout st) \<le> cap \<Longrightarrow> length (ms_stdout (append_capped cap kind chunk st)) \<le> cap"
  "length (ms_stderr st) \<le> cap \<Longrightarrow> length (ms_stderr (append_capped cap kind chunk st)) \<le> cap"
  by (cases kind; auto simp: append_capped_def Let_def)+

lemma poll_outcome_terminal: "poll_outcome outcome = Some status \<Longrightarrow> status \<noteq> Running"
  by (cases outcome) auto

lemma close_reader_phase [simp]: "sv_phase (close_reader kind sv) = sv_phase sv"
  by (cases kind) simp_all

lemma close_reader_closed:
  "\<not> sv_out_open sv \<Longrightarrow> \<not> sv_out_open (close_reader kind sv)"
  "\<not> sv_err_open sv \<Longrightarrow> \<not> sv_err_open (close_reader kind sv)"
  by (cases kind; simp)+

lemma reader_open_phase:
  "task_ok cap (e, sv) \<Longrightarrow> reader_open kind sv \<Longrightarrow> sv_phase sv \<noteq> Finished"
  by (cases kind) (auto simp: task_ok_def Let_def)

lemma task_ok_step: "task_step cap es es' \<Longrightarrow> task_ok cap es \<Longrightarrow> task_ok cap es'"
proof (induction rule: task_step.induct)
  case (poll sv e outcome)
  then show ?case
    by (cases "poll_outcome outcome")
      (auto simp: task_ok_def poll_child_def Let_def dest: poll_outcome_terminal)
next
  case (read kind sv e chunk)
  then show ?case by (auto simp: task_ok_def Let_def append_capped_length)
next
  case (close e sv kind)
  then show ?case by (auto simp: task_ok_def Let_def close_reader_closed)
qed (auto simp: task_ok_def Let_def)

text \<open>A published result never changes.\<close>

lemma finished_stable:
  assumes "task_step cap (e, sv) (e', sv')" and "task_ok cap (e, sv)" and "sv_phase sv = Finished"
  shows "pe_state e' = pe_state e" and "sv_phase sv' = Finished"
  using assms reader_open_phase [OF assms(2)] by (auto elim!: task_stepE)

lemma new_task_ok: "task_ok cap (new_entry program started, new_supervisor)"
  by (simp add: task_ok_def new_entry_def new_state_def new_supervisor_def)

section \<open>The invariant of the manager\<close>

definition table_ok :: "environment_id \<Rightarrow> process_config \<Rightarrow> process_manager \<Rightarrow> bool" where
  "table_ok env config pm \<longleftrightarrow>
     hm_ok (pm_processes pm) \<and> length (pm_processes pm) \<le> pc_max_processes config \<and>
     (\<forall>sid. session_entries env sid (pm_processes pm) \<le> pc_max_processes_per_session config) \<and>
     (\<forall>e sid pid r. hm_get (pm_processes pm) (e, sid, pid) = Some r \<longrightarrow>
        e = env \<and> valid_id (proc_str pid) \<and> hm_get (pm_tasks pm) r \<noteq> None) \<and>
     (\<forall>k k' r. hm_get (pm_processes pm) k = Some r \<longrightarrow> hm_get (pm_processes pm) k' = Some r \<longrightarrow> k = k')"

definition tasks_ok :: "process_config \<Rightarrow> process_manager \<Rightarrow> bool" where
  "tasks_ok config pm \<longleftrightarrow>
     (\<forall>r sv. hm_get (pm_tasks pm) r = Some sv \<longrightarrow>
        r < pm_next pm \<and> task_ok (pc_max_output_bytes config) (pm_entries pm r, sv) \<and>
        (sv_phase sv \<noteq> Finished \<longrightarrow> (\<exists>key. hm_get (pm_processes pm) key = Some r)))"

lemma table_okD:
  assumes "table_ok env config pm"
  shows "hm_ok (pm_processes pm)" and "length (pm_processes pm) \<le> pc_max_processes config"
    and "session_entries env sid (pm_processes pm) \<le> pc_max_processes_per_session config"
    and "hm_get (pm_processes pm) (e, sid, pid) = Some r \<Longrightarrow>
      e = env \<and> valid_id (proc_str pid) \<and> hm_get (pm_tasks pm) r \<noteq> None"
    and "hm_get (pm_processes pm) k = Some r \<Longrightarrow> hm_get (pm_processes pm) k' = Some r \<Longrightarrow> k = k'"
  using assms unfolding table_ok_def by blast+

lemma table_okI:
  assumes "hm_ok (pm_processes pm)" and "length (pm_processes pm) \<le> pc_max_processes config"
    and "\<And>sid. session_entries env sid (pm_processes pm) \<le> pc_max_processes_per_session config"
    and "\<And>e sid pid r. hm_get (pm_processes pm) (e, sid, pid) = Some r \<Longrightarrow>
      e = env \<and> valid_id (proc_str pid) \<and> hm_get (pm_tasks pm) r \<noteq> None"
    and "\<And>k k' r. hm_get (pm_processes pm) k = Some r \<Longrightarrow> hm_get (pm_processes pm) k' = Some r \<Longrightarrow> k = k'"
  shows "table_ok env config pm"
  using assms unfolding table_ok_def by blast

lemma tasks_okD:
  assumes "tasks_ok config pm" and "hm_get (pm_tasks pm) r = Some sv"
  shows "r < pm_next pm" and "task_ok (pc_max_output_bytes config) (pm_entries pm r, sv)"
    and "sv_phase sv \<noteq> Finished \<Longrightarrow> \<exists>key. hm_get (pm_processes pm) key = Some r"
  using assms unfolding tasks_ok_def by blast+

lemma tasks_okI:
  assumes "\<And>r sv. hm_get (pm_tasks pm) r = Some sv \<Longrightarrow>
      r < pm_next pm \<and> task_ok (pc_max_output_bytes config) (pm_entries pm r, sv) \<and>
      (sv_phase sv \<noteq> Finished \<longrightarrow> (\<exists>key. hm_get (pm_processes pm) key = Some r))"
  shows "tasks_ok config pm"
  using assms unfolding tasks_ok_def by blast

definition pm_ok :: "environment_id \<Rightarrow> process_config \<Rightarrow> process_manager \<Rightarrow> bool" where
  "pm_ok env config pm \<longleftrightarrow>
     pm_environment_id pm = env \<and> pm_config pm = config \<and> table_ok env config pm \<and> tasks_ok config pm"

lemma pm_ok_put_task:
  assumes ok: "pm_ok env config pm" and sv: "hm_get (pm_tasks pm) r = Some sv"
    and es: "task_ok (pc_max_output_bytes config) es"
    and phase: "sv_phase sv = Finished \<Longrightarrow> sv_phase (snd es) = Finished"
  shows "pm_ok env config (put_task r es pm)"
proof -
  have tok: "table_ok env config pm" and kok: "tasks_ok config pm" using ok by (simp_all add: pm_ok_def)
  have "table_ok env config (put_task r es pm)"
    by (rule table_okI) (use table_okD [OF tok] in auto)
  moreover have "tasks_ok config (put_task r es pm)"
  proof (rule tasks_okI)
    fix r' sv' assume get: "hm_get (pm_tasks (put_task r es pm)) r' = Some sv'"
    show "r' < pm_next (put_task r es pm) \<and>
        task_ok (pc_max_output_bytes config) (pm_entries (put_task r es pm) r', sv') \<and>
        (sv_phase sv' \<noteq> Finished \<longrightarrow>
          (\<exists>key. hm_get (pm_processes (put_task r es pm)) key = Some r'))"
    proof (cases "r' = r")
      case True
      then have "sv' = snd es" using get by simp
      then show ?thesis using True es tasks_okD [OF kok sv] phase by auto
    next
      case False
      then show ?thesis using get tasks_okD [OF kok, of r' sv'] by simp
    qed
  qed
  ultimately show ?thesis using ok by (simp add: pm_ok_def)
qed

lemma pm_ok_event: "pm_ok env config pm \<Longrightarrow> pm_ok env config (run_event ev pm)"
proof (cases rule: run_event_refines [of ev pm])
  case (stepped sv es)
  assume ok: "pm_ok env config pm"
  have c: "pm_config pm = config" using ok by (simp add: pm_ok_def)
  have t: "task_ok (pc_max_output_bytes config) (pm_entries pm (event_ref ev), sv)"
    using ok stepped(1) by (simp add: pm_ok_def tasks_ok_def)
  obtain e' sv' where es: "es = (e', sv')" by fastforce
  show ?thesis unfolding stepped(3)
    by (rule pm_ok_put_task [OF ok stepped(1) task_ok_step [OF stepped(2) [unfolded c] t]])
      (use finished_stable [OF stepped(2) [unfolded c es] t] es in simp)
qed simp

lemma pm_ok_events: "pm_ok env config pm \<Longrightarrow> pm_ok env config (run_events evs pm)"
  by (rule run_events_induct) (auto intro: pm_ok_event)

lemma session_entries_insert:
  assumes "hm_get t (e, s, p) = None"
  shows "session_entries env sid (hm_insert (e, s, p) r t) =
    session_entries env sid t + (if e = env \<and> s = sid then 1 else 0)"
proof -
  have "hm_insert (e, s, p) r t = t @ [((e, s, p), r)]"
    using assms by (induction t) (auto simp: hm_insert_def hm_get_def split: if_splits)
  then show ?thesis by (simp add: session_entries_def)
qed

lemma tasks_live:
  assumes "tasks_ok config pm" and "hm_get (pm_tasks pm) r = Some sv"
    and "evictable (pm_entries pm) r"
  shows "sv_phase sv = Finished"
  using tasks_okD(2) [OF assms(1,2)] assms(3)
  by (auto simp: task_ok_def evictable_def is_terminal_def Let_def)

lemma pm_ok_shrink:
  assumes ok: "pm_ok env config pm"
    and sh: "shrinks heap (pm_processes pm) t"
    and heap: "\<And>r. r < pm_next pm \<Longrightarrow> heap r = pm_entries pm r"
  shows "pm_ok env config (pm\<lparr> pm_entries := heap, pm_next := Suc (pm_next pm), pm_processes := t \<rparr>)"
    (is "pm_ok env config ?pm")
proof -
  have tok: "table_ok env config pm" and kok: "tasks_ok config pm"
    and top: "pm_environment_id pm = env" "pm_config pm = config"
    using ok by (simp_all add: pm_ok_def)
  note tD = table_okD [OF tok]
  have get: "hm_get t key = Some r \<Longrightarrow> hm_get (pm_processes pm) key = Some r" for key r
    by (rule shrinks_get [OF sh tD(1)])
  have "table_ok env config ?pm"
  proof (rule table_okI)
    show "hm_ok (pm_processes ?pm)" using shrinks_ok [OF sh tD(1)] by simp
    show "length (pm_processes ?pm) \<le> pc_max_processes config"
      using shrinks_length [OF sh] tD(2) by simp
    show "session_entries env sid (pm_processes ?pm) \<le> pc_max_processes_per_session config" for sid
      using shrinks_session_entries [OF sh, of env sid] tD(3) [of sid] by simp
  next
    fix e sid pid r assume "hm_get (pm_processes ?pm) (e, sid, pid) = Some r"
    then have "hm_get (pm_processes pm) (e, sid, pid) = Some r" using get by simp
    from tD(4) [OF this] show "e = env \<and> valid_id (proc_str pid) \<and> hm_get (pm_tasks ?pm) r \<noteq> None"
      by simp
  next
    fix k k' r assume "hm_get (pm_processes ?pm) k = Some r" "hm_get (pm_processes ?pm) k' = Some r"
    then show "k = k'" using tD(5) [OF get get] by simp
  qed
  moreover have "tasks_ok config ?pm"
  proof (rule tasks_okI)
    fix r sv assume "hm_get (pm_tasks ?pm) r = Some sv"
    then have sv: "hm_get (pm_tasks pm) r = Some sv" by simp
    note old = tasks_okD [OF kok sv]
    have "\<exists>key. hm_get t key = Some r" if "sv_phase sv \<noteq> Finished"
    proof -
      from old(3) [OF that] obtain key where "hm_get (pm_processes pm) key = Some r" by blast
      moreover have "\<not> evictable heap r"
        using tasks_live [OF kok sv] that heap [OF old(1)] by (auto simp: evictable_def)
      ultimately show ?thesis using shrinks_live [OF sh tD(1)] by blast
    qed
    then show "r < pm_next ?pm \<and> task_ok (pc_max_output_bytes config) (pm_entries ?pm r, sv) \<and>
        (sv_phase sv \<noteq> Finished \<longrightarrow> (\<exists>key. hm_get (pm_processes ?pm) key = Some r))"
      using old(1,2) heap by simp
  qed
  ultimately show ?thesis using top by (simp add: pm_ok_def)
qed

lemma pm_ok_reserve:
  assumes ok: "pm_ok env config pm" and key: "hm_get (pm_processes pm) (env, sid, pid) = None"
    and room: "length (pm_processes pm) < pc_max_processes config"
      "session_entries env sid (pm_processes pm) < pc_max_processes_per_session config"
    and pid: "valid_id (proc_str pid)"
    and r: "r < pm_next pm" "hm_get (pm_tasks pm) r = None" "pm_entries pm r = new_entry program started"
  shows "pm_ok env config (pm\<lparr> pm_processes := hm_insert (env, sid, pid) r (pm_processes pm),
    pm_tasks := hm_insert r new_supervisor (pm_tasks pm) \<rparr>)" (is "pm_ok env config ?pm")
proof -
  have tok: "table_ok env config pm" and kok: "tasks_ok config pm"
    and top: "pm_environment_id pm = env" "pm_config pm = config"
    using ok by (simp_all add: pm_ok_def)
  note tD = table_okD [OF tok]
  have unused: "hm_get (pm_processes pm) k \<noteq> Some r" for k
    using tD(4) [of "fst k" "fst (snd k)" "snd (snd k)" r] r(2) by auto
  have "table_ok env config ?pm"
  proof (rule table_okI)
    show "hm_ok (pm_processes ?pm)" using tD(1) by simp
    show "length (pm_processes ?pm) \<le> pc_max_processes config"
      using room(1) key by (simp add: length_hm_insert)
    show "session_entries env s (pm_processes ?pm) \<le> pc_max_processes_per_session config" for s
      using room(2) tD(3) [of s] key by (cases "sid = s") (simp_all add: session_entries_insert)
  next
    fix e s p q assume "hm_get (pm_processes ?pm) (e, s, p) = Some q"
    then show "e = env \<and> valid_id (proc_str p) \<and> hm_get (pm_tasks ?pm) q \<noteq> None"
      using tD(4) [of e s p q] pid by (auto split: if_splits)
  next
    fix k k' q assume "hm_get (pm_processes ?pm) k = Some q" "hm_get (pm_processes ?pm) k' = Some q"
    then show "k = k'" using tD(5) [of k q k'] unused [of k] unused [of k'] by (auto split: if_splits)
  qed
  moreover have "tasks_ok config ?pm"
  proof (rule tasks_okI)
    fix q sv assume get: "hm_get (pm_tasks ?pm) q = Some sv"
    show "q < pm_next ?pm \<and> task_ok (pc_max_output_bytes config) (pm_entries ?pm q, sv) \<and>
        (sv_phase sv \<noteq> Finished \<longrightarrow> (\<exists>key. hm_get (pm_processes ?pm) key = Some q))"
    proof (cases "q = r")
      case True
      have "hm_get (pm_processes ?pm) (env, sid, pid) = Some q" using True by simp
      then show ?thesis using True get r new_task_ok by auto
    next
      case False
      then have sv: "hm_get (pm_tasks pm) q = Some sv" using get by simp
      have keep: "hm_get (pm_processes ?pm) k = Some q" if "hm_get (pm_processes pm) k = Some q" for k
        using that key by auto
      have "sv_phase sv \<noteq> Finished \<longrightarrow> (\<exists>k. hm_get (pm_processes ?pm) k = Some q)"
        using tasks_okD(3) [OF kok sv] keep by blast
      moreover have "pm_entries ?pm q = pm_entries pm q" "pm_next ?pm = pm_next pm" by simp_all
      ultimately show ?thesis using tasks_okD(1,2) [OF kok sv] by metis
    qed
  qed
  ultimately show ?thesis using top by (simp add: pm_ok_def)
qed

lemma start_checks_Ok:
  assumes "start_checks pm req session w = (Inr workdir, w')"
  shows "execute_validate req = Inr ()" and "ex_environment_id req = pm_environment_id pm"
    and "ex_session_id req = si_session_id session" and "si_environment_id session = pm_environment_id pm"
    and "check_policy (pm_config pm) (ex_program req) = Inr ()"
    and "hm_get (ex_env_vars req) ''PATH'' = None" and "hm_get (si_env_vars session) ''PATH'' = None"
    and "\<exists>fs v meta. pm_fs pm = Some fs \<and> fs_resolve fs (if ex_working_directory req = []
      then si_working_directory session else ex_working_directory req) w = (Inr workdir, v) \<and>
      sys_stat workdir v = (Inr meta, w') \<and> md_kind meta = KDir"
  using assms
  by (auto simp: start_checks_def bindM_Inr Let_def split: if_splits option.splits)

lemma pm_ok_start:
  assumes ok: "pm_ok env config pm" and run: "start_process pm req session w = (res, pm', w')"
  shows "pm_ok env config pm'"
proof -
  have tok: "table_ok env config pm" and kok: "tasks_ok config pm"
    and top: "pm_environment_id pm = env" "pm_config pm = config"
    using ok by (simp_all add: pm_ok_def)
  have free: "hm_get (pm_tasks pm) (pm_next pm) = None"
    using tasks_okD(1) [OF kok, of "pm_next pm"] by (cases "hm_get (pm_tasks pm) (pm_next pm)") auto
  from table_okD(1) [OF tok] run show ?thesis
  proof (cases rule: start_process_cases)
    case (rejected e)
    then show ?thesis using ok by simp
  next
    case (failed e st table)
    then show ?thesis using pm_ok_shrink [OF ok failed(3)] by simp
  next
    case (started pid st t workdir w1 w3)
    let ?heap = "(pm_entries pm)(pm_next pm := new_entry (ex_program req) st)"
    let ?pm1 = "pm\<lparr> pm_entries := ?heap, pm_next := Suc (pm_next pm), pm_processes := t \<rparr>"
    have e: "ex_environment_id req = env" using start_checks_Ok(2) [OF started(2)] top by simp
    have "pm_ok env config ?pm1" by (rule pm_ok_shrink [OF ok started(3)]) simp
    from pm_ok_reserve [OF this, of "ex_session_id req" pid "pm_next pm" "ex_program req" st]
    show ?thesis using started free e top by simp
  qed
qed

lemma request_kill_fields [simp]:
  "pm_tasks (request_kill r pm) = pm_tasks pm"
  "pm_processes (request_kill r pm) = pm_processes pm"
  "pm_config (request_kill r pm) = pm_config pm"
  "pm_environment_id (request_kill r pm) = pm_environment_id pm"
  "pm_next (request_kill r pm) = pm_next pm"
  "pm_poisoned (request_kill r pm) = pm_poisoned pm"
  "pm_fs (request_kill r pm) = pm_fs pm"
  "pm_entries (request_kill r pm) =
     (pm_entries pm)(r := (pm_entries pm r)\<lparr> pe_kill_requested := True \<rparr>)"
  by (simp_all add: request_kill_def)

lemma task_ok_kill [simp]: "task_ok cap (e\<lparr> pe_kill_requested := b \<rparr>, sv) = task_ok cap (e, sv)"
  by (simp add: task_ok_def Let_def)

lemma pm_ok_request_kill:
  assumes "pm_ok env config pm"
  shows "pm_ok env config (request_kill r pm)"
proof -
  have "table_ok env config pm" and kok: "tasks_ok config pm" using assms by (simp_all add: pm_ok_def)
  then have "table_ok env config (request_kill r pm)" by (simp add: table_ok_def)
  moreover have "tasks_ok config (request_kill r pm)"
  proof (rule tasks_okI)
    fix q sv assume "hm_get (pm_tasks (request_kill r pm)) q = Some sv"
    then have "hm_get (pm_tasks pm) q = Some sv" by simp
    from tasks_okD [OF kok this]
    show "q < pm_next (request_kill r pm) \<and>
        task_ok (pc_max_output_bytes config) (pm_entries (request_kill r pm) q, sv) \<and>
        (sv_phase sv \<noteq> Finished \<longrightarrow> (\<exists>key. hm_get (pm_processes (request_kill r pm)) key = Some q))"
      by (cases "q = r") simp_all
  qed
  ultimately show ?thesis using assms by (simp add: pm_ok_def)
qed

lemma pm_ok_kill_targets:
  "pm_ok env config pm \<Longrightarrow> pm_ok env config (snd (kill_targets rs pm n))"
  by (induction rs pm n rule: kill_targets.induct) (simp_all add: pm_ok_request_kill)

lemma pm_ok_kill_session: "pm_ok env config pm \<Longrightarrow> pm_ok env config (snd (kill_session_processes pm e sid))"
  unfolding kill_session_processes_def by (rule pm_ok_kill_targets)

lemma pm_ok_wait_loop: "pm_ok env config pm \<Longrightarrow> pm_ok env config (snd (wait_loop polls r timeout pm))"
  by (induction polls r timeout pm rule: wait_loop.induct) (auto simp: pm_ok_events split: option.splits)

lemma pm_ok_grace_loop: "pm_ok env config pm \<Longrightarrow> pm_ok env config (grace_loop polls r pm)"
  by (induction polls r pm rule: grace_loop.induct) (auto simp: pm_ok_events Let_def)

lemma pm_ok_wait: "pm_ok env config pm \<Longrightarrow> pm_ok env config (snd (wait_process pm req polls))"
  by (auto simp: wait_process_def pm_ok_wait_loop split: sum.splits)

lemma pm_ok_terminate: "pm_ok env config pm \<Longrightarrow> pm_ok env config (snd (terminate_process pm req polls))"
  by (auto simp: terminate_process_def pm_ok_grace_loop pm_ok_request_kill split: sum.splits)

section \<open>Histories of the manager\<close>

text \<open>One operation of the manager or one event of a supervisor.\<close>

inductive proc_step :: "process_manager \<Rightarrow> process_manager \<Rightarrow> bool" where
  step_start: "start_process pm req session w = (res, pm', w') \<Longrightarrow> proc_step pm pm'"
| step_event: "proc_step pm (run_event ev pm)"
| step_wait: "proc_step pm (snd (wait_process pm req polls))"
| step_terminate: "proc_step pm (snd (terminate_process pm treq polls))"
| step_kill: "proc_step pm (snd (kill_session_processes pm env sid))"
| step_poison: "proc_step pm (pm\<lparr> pm_poisoned := True \<rparr>)"

inductive_cases proc_stepE: "proc_step pm pm'"

lemma pm_ok_step: "proc_step pm pm' \<Longrightarrow> pm_ok env config pm \<Longrightarrow> pm_ok env config pm'"
proof (induction rule: proc_step.induct)
  case (step_poison pm)
  then show ?case by (simp add: pm_ok_def table_ok_def tasks_ok_def)
qed (auto intro: pm_ok_start pm_ok_event pm_ok_wait pm_ok_terminate pm_ok_kill_session)

lemma pm_ok_new: "pm_ok env config (process_manager_new env config fs)"
  by (simp add: pm_ok_def table_ok_def tasks_ok_def process_manager_new_def session_entries_def)

lemma pm_ok_reachable:
  "proc_step\<^sup>*\<^sup>* (process_manager_new env config fs) pm \<Longrightarrow> pm_ok env config pm"
  by (induction rule: rtranclp_induct) (auto intro: pm_ok_new pm_ok_step)

end
