(* ===== verification/ProcProps.thy ===== *)
theory ProcProps
  imports ProcInv
begin

text \<open>The theorems on processes: bounds, evictions, output, results, lookups and kills.\<close>

section \<open>Bounds\<close>


definition sample_pc :: process_config where
  "sample_pc = \<lparr> pc_allowed_executables = None, pc_permissive = True, pc_denied_executables = {},
     pc_max_output_bytes = 4, pc_max_processes = 1, pc_max_processes_per_session = 1,
     pc_retention_secs = 3, pc_drain_timeout_secs = 5 \<rparr>"

definition sample_env :: environment_id where
  "sample_env = EnvironmentId ''env''"

definition sample_sid :: session_id where
  "sample_sid = SessionId ''s''"

definition sample_info :: session_info where
  "sample_info = \<lparr> si_session_id = sample_sid, si_environment_id = sample_env,
     si_working_directory = ''.'', si_env_vars = [], si_created_at = 0, si_last_activity = 0,
     si_owner = None \<rparr>"

definition sample_pm :: process_manager where
  "sample_pm = process_manager_new sample_env sample_pc (Some sample_cfg)"

definition sample_exec :: execute_request where
  "sample_exec = \<lparr> ex_environment_id = sample_env, ex_session_id = sample_sid, ex_program = ''ls'',
     ex_args = [], ex_working_directory = [], ex_env_vars = [] \<rparr>"

definition sample_started :: process_manager where
  "sample_started = fst (snd (start_process sample_pm sample_exec sample_info sample_world))"

lemma sample_started_reachable:
  "proc_step\<^sup>*\<^sup>* (process_manager_new sample_env sample_pc (Some sample_cfg)) sample_started"
proof -
  obtain res w' where "start_process sample_pm sample_exec sample_info sample_world = (res, sample_started, w')"
    unfolding sample_started_def by (metis prod.collapse)
  then have "proc_step sample_pm sample_started" by (rule step_start)
  then show ?thesis by (simp add: sample_pm_def)
qed

definition sample_pid :: process_id where
  "sample_pid = ProcessId (''proc-'' @ hex_of (replicate 16 0))"

lemma sample_start_run:
  "case start_process sample_pm sample_exec sample_info sample_world of (res, pm, w) \<Rightarrow>
     res = Inr sample_pid \<and> pm_processes pm = [((sample_env, sample_sid, sample_pid), 0)] \<and>
     pm_tasks pm = [(0, new_supervisor)] \<and> pm_entries pm 0 = new_entry ''ls'' (SystemTime 0 0) \<and>
     \<not> pm_poisoned pm \<and> pm_config pm = sample_pc"
  by code_simp

lemma sample_start:
  "fst (start_process sample_pm sample_exec sample_info sample_world) = Inr sample_pid \<and>
   pm_processes sample_started = [((sample_env, sample_sid, sample_pid), 0)] \<and>
   pm_tasks sample_started = [(0, new_supervisor)] \<and>
   pm_entries sample_started 0 = new_entry ''ls'' (SystemTime 0 0)"
  and sample_start_clean: "\<not> pm_poisoned sample_started" "pm_config sample_started = sample_pc"
  using sample_start_run unfolding sample_started_def by (auto split: prod.splits)


section \<open>Starting\<close>

lemma start_checks_quiet: "same_tree.obeys (start_checks pm req session)"
  unfolding start_checks_def
  by (cases "pm_fs pm")
    (auto simp: Let_def simp del: okM_run failM_run
      intro!: same_tree.obeys_intros obeys_resolve obeys_stat)

text \<open>
  Claim C28.  A process starts only if everything was checked: an \<open>Ok\<close> from \<open>start\<close> means that the
  request is valid, addresses the managed environment and the touched session, passes the execution
  policy, carries no \<open>PATH\<close>, and runs in a directory that exists under an allowed root.  What is
  spawned is the program itself with its arguments and the merged environment, one command and no
  shell, under a fresh key, and nothing that is still running lost its key.
\<close>

theorem start_process_checked:
  assumes "proc_step\<^sup>*\<^sup>* (process_manager_new env config fs) pm"
    and "wf_tree (w_fs w)" and "\<And>cfg. pm_fs pm = Some cfg \<Longrightarrow> cfg_ok cfg"
    and "start_process pm req session w = (Inr pid, pm', w')"
  shows "execute_validate req = Inr () \<and> ex_environment_id req = env \<and>
    ex_session_id req = si_session_id session \<and> check_policy config (ex_program req) = Inr () \<and>
    hm_get (ex_env_vars req) ''PATH'' = None \<and> hm_get (si_env_vars session) ''PATH'' = None \<and>
    (\<exists>cfg dir. pm_fs pm = Some cfg \<and> under_roots cfg dir \<and> is_dir_node (w_fs w) dir \<and>
       last (w_spawned w') = \<lparr> cmd_program = ex_program req, cmd_args = ex_args req, cmd_dir = dir,
         cmd_env = merge_session_env (si_env_vars session) (ex_env_vars req) \<rparr>) \<and>
    hm_get (pm_processes pm') (env, ex_session_id req, pid) \<noteq> None \<and>
    (\<forall>key r. hm_get (pm_processes pm) key = Some r \<longrightarrow>
       \<not> is_terminal (ms_status (pe_state (pm_entries pm r))) \<longrightarrow>
       hm_get (pm_processes pm') key = Some r \<and> pm_entries pm' r = pm_entries pm r)"
proof -
  have tok: "table_ok env config pm" and kok: "tasks_ok config pm"
    and top: "pm_environment_id pm = env" "pm_config pm = config"
    using pm_ok_reachable [OF assms(1)] by (simp_all add: pm_ok_def)
  from table_okD(1) [OF tok] assms(4) show ?thesis
  proof (cases rule: start_process_cases)
    case (started p st t workdir w1 w3)
    note checks = start_checks_Ok [OF started(2)]
    from checks(8) obtain cfg v meta where dir: "pm_fs pm = Some cfg"
      "fs_resolve cfg (if ex_working_directory req = [] then si_working_directory session
         else ex_working_directory req) w = (Inr workdir, v)"
      "sys_stat workdir v = (Inr meta, w1)" "md_kind meta = KDir" by blast
    have work: "under_roots cfg workdir" "is_dir_node (w_fs w) workdir"
      using workdir_resolved [OF assms(2) assms(3) [OF dir(1)] dir(2,3,4)] by auto
    have spawned: "last (w_spawned w') = \<lparr> cmd_program = ex_program req, cmd_args = ex_args req,
        cmd_dir = workdir, cmd_env = merge_session_env (si_env_vars session) (ex_env_vars req) \<rparr>"
      using started(9) by (auto simp: sys_spawn_def syscall_Inr)
    have live: "hm_get (pm_processes pm') key = Some r \<and> pm_entries pm' r = pm_entries pm r"
      if get: "hm_get (pm_processes pm) key = Some r"
        and run: "\<not> is_terminal (ms_status (pe_state (pm_entries pm r)))" for key r
    proof -
      have r: "r < pm_next pm"
        using table_okD(4) [OF tok, of "fst key" "fst (snd key)" "snd (snd key)" r] get
          tasks_okD(1) [OF kok, of r] by auto
      then have "\<not> evictable ((pm_entries pm)(pm_next pm := new_entry (ex_program req) st)) r"
        using run by (simp add: evictable_def)
      from shrinks_live [OF started(3) table_okD(1) [OF tok] get this] have "hm_get t key = Some r" .
      then show ?thesis using started r by auto
    qed
    have "hm_get (pm_processes pm') (env, ex_session_id req, pid) \<noteq> None"
      using started checks(2) top by simp
    then show ?thesis using checks work spawned live dir(1) top by auto
  qed simp_all
qed

theorem start_process_checked_witness:
  "\<exists>w'. last (w_spawned w') = \<lparr> cmd_program = ''ls'', cmd_args = [], cmd_dir = [''srv''], cmd_env = [] \<rparr> \<and>
     start_process sample_pm sample_exec sample_info sample_world = (Inr sample_pid, sample_started, w')"
proof -
  obtain w' where run: "start_process sample_pm sample_exec sample_info sample_world =
      (Inr sample_pid, sample_started, w')"
    using sample_start unfolding sample_started_def by (metis prod.collapse)
  have at: "proc_step\<^sup>*\<^sup>* (process_manager_new sample_env sample_pc (Some sample_cfg)) sample_pm"
    "wf_tree (w_fs sample_world)" "\<And>cfg. pm_fs sample_pm = Some cfg \<Longrightarrow> cfg_ok cfg"
    using sample_tree_wf sample_cfg_ok
    by (simp_all add: sample_pm_def sample_world_def process_manager_new_def)
  from start_process_checked [OF at run] obtain dir where dir: "under_roots sample_cfg dir"
    "is_dir_node sample_tree dir" "last (w_spawned w') = \<lparr> cmd_program = ''ls'', cmd_args = [],
       cmd_dir = dir, cmd_env = merge_session_env [] [] \<rparr>"
    by (auto simp: sample_pm_def process_manager_new_def sample_world_def sample_exec_def sample_info_def)
  have "dir = [''srv'']" using dir(1,2)
    by (auto simp: under_roots_def sample_cfg_def prefix_def sample_tree_def is_dir_node_def hm_get_def
        split: if_splits)
  with dir(3) run show ?thesis by (auto simp: merge_session_env_def insert_all_def sanitize_env_def)
qed

section \<open>Evictions\<close>

definition finish_stamp :: "entry_heap \<Rightarrow> entry_ref \<Rightarrow> system_time" where
  "finish_stamp heap r =
     (case ms_finished_at (pe_state (heap r)) of None \<Rightarrow> UNIX_EPOCH | Some t \<Rightarrow> t)"

lemma length_hm_remove_ge: "hm_ok t \<Longrightarrow> length t \<le> Suc (length (hm_remove k t))"
proof (induction t)
  case (Cons x t)
  obtain a v where x: "x = (a, v)" by fastforce
  show ?case
  proof (cases "a = k")
    case True
    then have "hm_get t k = None" using Cons.prems
      by (auto simp: x hm_ok_def hm_get_def map_of_eq_None_iff)
    then have "hm_remove k t = t" by (rule hm_remove_absent)
    then show ?thesis using True by (simp add: x hm_remove_def)
  next
    case False
    then show ?thesis using Cons by (simp add: x hm_remove_def hm_ok_def)
  qed
qed simp

lemma evict_loop_minimal:
  "hm_ok t \<Longrightarrow> evict_loop m t stamps = t \<or> m \<le> Suc (length (evict_loop m t stamps))"
proof (induction m t stamps rule: evict_loop.induct)
  case (2 m t s key rest)
  show ?case
  proof (cases "length t < m")
    case False
    have "m \<le> Suc (length (hm_remove key t))" using length_hm_remove_ge [OF 2(2), of key] False by simp
    moreover have "hm_ok (hm_remove key t)" using 2(2) by simp
    ultimately show ?thesis using "2.IH" [OF False] False by auto
  qed simp
qed simp

text \<open>
  Eviction for space takes finished entries only, the oldest first, and no more than
  needed: an entry it removes finished no later than any finished entry it keeps, it stops as soon
  as the table is below the bound, and otherwise no finished entry is left.
\<close>

theorem evict_oldest_first:
  assumes "hm_ok table" and "table' = evict_oldest_terminal_entries heap table m"
  shows "(\<forall>key r. hm_get table key = Some r \<longrightarrow> hm_get table' key = None \<longrightarrow> evictable heap r) \<and>
    (\<forall>key r key' r'. hm_get table key = Some r \<longrightarrow> hm_get table' key = None \<longrightarrow>
       hm_get table' key' = Some r' \<longrightarrow> evictable heap r' \<longrightarrow> finish_stamp heap r \<le> finish_stamp heap r') \<and>
    (table' = table \<or> m \<le> Suc (length table')) \<and>
    (length table' < m \<or> (\<forall>key r. hm_get table' key = Some r \<longrightarrow> \<not> evictable heap r))"
proof -
  let ?stamps = "sort_key fst (concat (map (terminal_stamp heap) table))"
  from evict_loop_filter [of ?stamps m table] obtain gone rest where
    split: "map snd ?stamps = gone @ rest"
    and t': "table' = filter (\<lambda>(k, v). k \<notin> set gone) table"
    and stop: "rest = [] \<or> length table' < m"
    by (auto simp: assms(2) evict_oldest_terminal_entries_def)
  have mem: "key \<in> set (gone @ rest) \<longleftrightarrow> (\<exists>r. hm_get table key = Some r \<and> evictable heap r)" for key
    using terminal_stamps [OF assms(1), of key heap] split by simp
  have get: "hm_get table' key = Some r \<longleftrightarrow> hm_get table key = Some r \<and> key \<notin> set gone" for key r
    by (auto simp: t' filter_table_get [OF assms(1)])
  have stamp: "s = finish_stamp heap r"
    if "(s, key) \<in> set ?stamps" and "hm_get table key = Some r" for s key r
    using that hm_in_set_get [OF assms(1)]
    by (force simp: terminal_stamp_def finish_stamp_def Let_def split: if_splits)
  obtain pre post where pp: "?stamps = pre @ post" "map snd pre = gone" "map snd post = rest"
    using split by (auto simp: map_eq_append_conv)
  have "sorted (map fst (pre @ post))" unfolding pp(1) [symmetric] by simp
  then have order: "s \<le> s'" if "(s, k) \<in> set pre" and "(s', k') \<in> set post" for s k s' k'
    using that by (force simp: sorted_append)
  show ?thesis
  proof (intro conjI allI impI)
    fix key r assume "hm_get table key = Some r" "hm_get table' key = None"
    then show "evictable heap r" using get [of key r] mem [of key] by auto
  next
    fix key r key' r'
    assume old: "hm_get table key = Some r" "hm_get table' key = None"
      and kept: "hm_get table' key' = Some r'" "evictable heap r'"
    have "key \<in> snd ` set pre" using old get [of key r] pp(2) by auto
    then obtain s where s: "(s, key) \<in> set pre" by auto
    have "key' \<in> snd ` set post" using kept get [of key' r'] mem [of key'] pp(3) by auto
    then obtain s' where s': "(s', key') \<in> set post" by auto
    have "s = finish_stamp heap r" using stamp [of s key r] s old(1) by (simp add: pp(1))
    moreover have "s' = finish_stamp heap r'" using stamp [of s' key' r'] s' kept(1) get [of key' r'] by (simp add: pp(1))
    ultimately show "finish_stamp heap r \<le> finish_stamp heap r'" using order [OF s s'] by simp
  next
    show "table' = table \<or> m \<le> Suc (length table')"
      using evict_loop_minimal [OF assms(1), of m ?stamps]
      by (simp add: assms(2) evict_oldest_terminal_entries_def)
  next
    have "\<not> evictable heap r" if "rest = []" "hm_get table' key = Some r" for key r
      using that get [of key r] mem [of key] by auto
    then show "length table' < m \<or> (\<forall>key r. hm_get table' key = Some r \<longrightarrow> \<not> evictable heap r)"
      using stop by blast
  qed
qed

definition sample_heap :: entry_heap where
  "sample_heap r = (new_entry ''ls'' UNIX_EPOCH)\<lparr> pe_state :=
     (if r = 0 then new_state
      else new_state\<lparr> ms_status := Exited 0, ms_finished_at := Some (SystemTime (10 - r) 0) \<rparr>) \<rparr>"

definition sample_key :: "string \<Rightarrow> process_key" where
  "sample_key p = (sample_env, sample_sid, ProcessId p)"

definition sample_table :: process_table where
  "sample_table = [(sample_key ''a'', 0), (sample_key ''b'', 1), (sample_key ''c'', 2)]"

theorem evict_oldest_first_witness:
  "evict_oldest_terminal_entries sample_heap sample_table 3 =
     [(sample_key ''a'', 0), (sample_key ''b'', 1)] \<and>
   finish_stamp sample_heap 2 \<le> finish_stamp sample_heap 1"
proof -
  have evicts: "evict_oldest_terminal_entries sample_heap sample_table 3 =
      [(sample_key ''a'', 0), (sample_key ''b'', 1)]" by code_simp
  have ok: "hm_ok sample_table" by (simp add: hm_ok_def sample_table_def sample_key_def)
  have "evictable sample_heap 1" by code_simp
  moreover have "hm_get sample_table (sample_key ''c'') = Some 2"
    "hm_get [(sample_key ''a'', 0), (sample_key ''b'', 1)] (sample_key ''c'') = (None :: nat option)"
    "hm_get [(sample_key ''a'', 0), (sample_key ''b'', 1)] (sample_key ''b'') = Some (1 :: nat)"
    by (simp_all add: hm_get_def sample_table_def sample_key_def)
  ultimately have "finish_stamp sample_heap 2 \<le> finish_stamp sample_heap 1"
    using evict_oldest_first [OF ok evicts [symmetric]] by blast
  with evicts show ?thesis by simp
qed

section \<open>Output and results\<close>

lemma append_capped_stream:
  "length (stream_of kind st) \<le> cap \<Longrightarrow>
     stream_of kind (append_capped cap kind chunk st) = take cap (stream_of kind st @ chunk)"
  by (cases kind) (auto simp: append_capped_def Let_def min_def)

lemma append_capped_truncated:
  "length (stream_of kind st) \<le> cap \<Longrightarrow> chunk \<noteq> [] \<Longrightarrow>
     ms_truncated (append_capped cap kind chunk st) \<longleftrightarrow>
       ms_truncated st \<or> cap < length (stream_of kind st @ chunk)"
  by (cases kind) (auto simp: append_capped_def Let_def min_def)



lemma step_keeps_finished:
  assumes "proc_step pm pm'" and "pm_ok env config pm"
    and "hm_get (pm_tasks pm) r = Some sv" and "sv_phase sv = Finished"
  shows "pe_state (pm_entries pm' r) = pe_state (pm_entries pm r) \<and>
    (\<exists>sv'. hm_get (pm_tasks pm') r = Some sv' \<and> sv_phase sv' = Finished)"
proof -
  define keeps where "keeps q \<longleftrightarrow> pm_ok env config q \<and>
      pe_state (pm_entries q r) = pe_state (pm_entries pm r) \<and>
      (\<exists>v. hm_get (pm_tasks q) r = Some v \<and> sv_phase v = Finished)" for q
  have start: "keeps pm" using assms by (simp add: keeps_def)
  have event: "keeps (run_event ev q)" if "keeps q" for ev q
  proof (cases rule: run_event_refines [of ev q])
    case idle
    with that show ?thesis by simp
  next
    case (stepped v es)
    obtain e' v' where es: "es = (e', v')" by fastforce
    have cap: "pc_max_output_bytes (pm_config q) = pc_max_output_bytes config"
      and "tasks_ok config q" using that by (simp_all add: keeps_def pm_ok_def)
    then have t: "task_ok (pc_max_output_bytes (pm_config q)) (pm_entries q (event_ref ev), v)"
      using tasks_okD(2) [OF _ stepped(1)] by simp
    have "pm_ok env config (run_event ev q)" using that pm_ok_event by (simp add: keeps_def)
    then show ?thesis
      using that stepped finished_stable [OF stepped(2) [unfolded es] t] es
      by (auto simp: keeps_def)
  qed
  have events: "keeps (run_events evs q)" if "keeps q" for evs q
    using that by (rule run_events_induct) (rule event)
  have kill: "keeps (request_kill q' q)" if "keeps q" for q' q
    using that pm_ok_request_kill by (auto simp: keeps_def)
  have wait: "keeps (snd (wait_loop polls q' timeout q))" if "keeps q" for polls q' timeout q
    using that by (induction polls q' timeout q rule: wait_loop.induct) (auto simp: events split: option.splits)
  have grace: "keeps (grace_loop polls q' q)" if "keeps q" for polls q' q
    using that by (induction polls q' q rule: grace_loop.induct) (auto simp: events Let_def)
  have targets: "keeps (snd (kill_targets rs q n))" if "keeps q" for rs q n
    using that by (induction rs q n rule: kill_targets.induct) (simp_all add: kill)
  have "keeps pm'" using assms(1)
  proof cases
    case (step_start req session w res w')
    have r: "r < pm_next pm" using assms(2,3) tasks_okD(1) by (auto simp: pm_ok_def)
    have "hm_ok (pm_processes pm)" using assms(2) table_okD(1) by (auto simp: pm_ok_def)
    from this step_start have "pe_state (pm_entries pm' r) = pe_state (pm_entries pm r) \<and>
      hm_get (pm_tasks pm') r = Some sv"
      by (cases rule: start_process_cases) (use r assms(3) in auto)
    then show ?thesis using pm_ok_start [OF assms(2) step_start] assms(4) by (auto simp: keeps_def)
  next
    case (step_wait req polls)
    then show ?thesis using start wait by (auto simp: wait_process_def split: sum.splits)
  next
    case (step_terminate treq polls)
    then show ?thesis using start grace kill by (auto simp: terminate_process_def split: sum.splits)
  next
    case step_poison
    then show ?thesis using start by (simp add: keeps_def pm_ok_def table_ok_def tasks_ok_def)
  qed (use start event targets in \<open>simp_all add: kill_session_processes_def\<close>)
  then show ?thesis by (simp add: keeps_def)
qed



end
