(* ===== verification/WaitProps.thy ===== *)
theory WaitProps
  imports ProcProps
begin

text \<open>
  The theorems on waiting, on looking processes up, and on killing the processes of a session.
\<close>

section \<open>Waiting\<close>

lemma run_events_append: "run_events (evs @ evs') pm = run_events evs' (run_events evs pm)"
  by (simp add: run_events_def)

definition exit_code_of :: "process_state \<Rightarrow> int option" where
  "exit_code_of status = (case status of Exited code \<Rightarrow> Some code | _ \<Rightarrow> None)"

lemma wait_poll_reply:
  assumes "wait_poll entry passed = Some (Inr reply)"
  shows "reply = wait_reply (pe_state entry) (exit_code_of (ms_status (pe_state entry)))
      (ms_status (pe_state entry) = Running)"
    and "ms_status (pe_state entry) = Running \<longrightarrow> passed"
  using assms by (auto simp: wait_poll_def exit_code_of_def Let_def split: process_state.splits if_splits)

lemma wait_loop_reply:
  assumes "wait_loop polls r timeout pm = (Inr reply, pm')"
  shows "\<exists>evs. pm' = run_events evs pm \<and>
    reply = wait_reply (pe_state (pm_entries pm' r))
      (exit_code_of (ms_status (pe_state (pm_entries pm' r))))
      (ms_status (pe_state (pm_entries pm' r)) = Running)"
  using assms
proof (induction polls r timeout pm rule: wait_loop.induct)
  case (1 r timeout pm)
  then show ?case using wait_poll_reply(1)
    by (intro exI [of _ "[]"]) (auto simp: run_events_def split: option.splits)
next
  case (2 elapsed evs polls r timeout pm)
  show ?case
  proof (cases "wait_poll (pm_entries pm r) (timeout \<le> elapsed)")
    case None
    with 2 obtain evs' where "pm' = run_events evs' (run_events evs pm)"
      "reply = wait_reply (pe_state (pm_entries pm' r))
        (exit_code_of (ms_status (pe_state (pm_entries pm' r))))
        (ms_status (pe_state (pm_entries pm' r)) = Running)" by auto
    then show ?thesis by (intro exI [of _ "evs @ evs'"]) (simp add: run_events_append)
  next
    case (Some res)
    then show ?thesis using 2(2) wait_poll_reply(1) [of _ _ reply]
      by (intro exI [of _ "[]"]) (auto simp: run_events_def)
  qed
qed

lemma wait_loop_deadline:
  "timeout \<le> elapsed \<Longrightarrow>
     wait_loop (before @ (elapsed, evs) # after) r timeout pm = wait_loop before r timeout pm"
proof (induction before r timeout pm rule: wait_loop.induct)
  case (1 r timeout pm)
  then show ?case
    by (auto simp: wait_poll_def Let_def split: option.splits process_state.splits)
qed (auto split: option.splits)



section \<open>Looking up\<close>

text \<open>
  Claim C34.  No oracle into the processes of another session: asking for a process under a session
  it does not belong to is answered exactly like asking for an identifier that was never issued, by
  the status, wait and terminate operations alike, and changes nothing.
\<close>

theorem process_lookup_no_oracle:
  assumes "\<not> pm_poisoned pm" and "hm_get (pm_processes pm) (env, sid, pid) = None"
    and "1 \<le> secs" and "secs \<le> 3600"
  shows "pm_status pm \<lparr> ps_environment_id = env, ps_session_id = sid, ps_process_id = pid \<rparr> =
      Inl (PNotFound (''unknown process id '' @ quoted (proc_str pid))) \<and>
    wait_process pm \<lparr> wp_environment_id = env, wp_session_id = sid, wp_process_id = pid,
        wp_timeout_secs = secs \<rparr> polls =
      (Inl (PNotFound (''unknown process id '' @ quoted (proc_str pid))), pm) \<and>
    terminate_process pm \<lparr> tp_environment_id = env, tp_session_id = sid, tp_process_id = pid,
        tp_force = force \<rparr> polls =
      (Inl (PNotFound (''unknown process id '' @ quoted (proc_str pid))), pm)"
  using assms
  by (simp add: pm_status_def wait_process_def terminate_process_def lookup_process_def
      wait_process_validate_def MIN_WAIT_TIMEOUT_SECS_def MAX_WAIT_TIMEOUT_SECS_def)

theorem process_lookup_no_oracle_witness:
  "pm_status sample_started \<lparr> ps_environment_id = sample_env, ps_session_id = SessionId ''other'',
     ps_process_id = sample_pid \<rparr> =
   Inl (PNotFound (''unknown process id '' @ quoted (proc_str sample_pid)))"
proof -
  note sample_start_clean(1)
  moreover have "hm_get (pm_processes sample_started) (sample_env, SessionId ''other'', sample_pid) = None"
    using sample_start by (simp add: hm_get_def sample_sid_def)
  ultimately show ?thesis using process_lookup_no_oracle [of sample_started _ _ _ 1] by simp
qed

section \<open>Killing\<close>

lemma entry_running_kill:
  "entry_running (request_kill r pm) q = entry_running pm q"
  by (simp add: entry_running_def Let_def)

lemma kill_targets_spec:
  "distinct rs \<Longrightarrow> kill_targets rs pm n =
     (n + length (filter (entry_running pm) rs),
      pm\<lparr> pm_entries := (\<lambda>q. if q \<in> set rs \<and> entry_running pm q
            then (pm_entries pm q)\<lparr> pe_kill_requested := True \<rparr> else pm_entries pm q) \<rparr>)"
proof (induction rs pm n rule: kill_targets.induct)
  case (2 r rs pm count)
  show ?case
  proof (cases "entry_running pm r")
    case True
    have "entry_running (request_kill r pm) = entry_running pm"
      by (simp add: entry_running_kill fun_eq_iff)
    then show ?thesis using 2 True
      by (auto simp: request_kill_def fun_eq_iff intro!: arg_cong [of _ _ "\<lambda>f. pm\<lparr> pm_entries := f \<rparr>"])
  next
    case False
    then show ?thesis using 2
      by (auto simp: fun_eq_iff intro!: arg_cong [of _ _ "\<lambda>f. pm\<lparr> pm_entries := f \<rparr>"])
  qed
qed simp

lemma session_refs_distinct:
  assumes "table_ok env config pm"
  shows "distinct (session_refs pm e sid)"
proof -
  note tD = table_okD [OF assms]
  have "distinct (pm_processes pm)" using tD(1) by (simp add: hm_ok_def distinct_map)
  moreover have "inj_on snd (set (pm_processes pm))"
    using tD(5) by (force simp: inj_on_def hm_in_set_get [OF tD(1)])
  ultimately have "distinct (map snd (pm_processes pm))" by (simp add: distinct_map)
  then show ?thesis unfolding session_refs_def by (rule distinct_map_filter)
qed

text \<open>
  Claim C33.  Killing a session asks exactly its running processes to die and returns how many they
  are: processes of other sessions and finished ones are left alone, no state or key changes, and
  the next poll of a supervisor whose process was asked to die issues the kill.
\<close>

theorem kill_session_exact:
  assumes "proc_step\<^sup>*\<^sup>* (process_manager_new menv config fs) pm" and "\<not> pm_poisoned pm"
    and "kill_session_processes pm env sid = (n, pm')"
  shows "n = length (filter (\<lambda>((e, s, p), r). e = env \<and> s = sid \<and> entry_running pm r) (pm_processes pm)) \<and>
    (\<forall>e s p r. hm_get (pm_processes pm) (e, s, p) = Some r \<longrightarrow>
       (pe_kill_requested (pm_entries pm' r) \<longleftrightarrow>
          pe_kill_requested (pm_entries pm r) \<or> e = env \<and> s = sid \<and> entry_running pm r)) \<and>
    (\<forall>r. pe_state (pm_entries pm' r) = pe_state (pm_entries pm r)) \<and>
    pm_processes pm' = pm_processes pm \<and>
    (\<forall>p r sv. hm_get (pm_processes pm) (env, sid, p) = Some r \<longrightarrow> entry_running pm r \<longrightarrow>
       hm_get (pm_tasks pm) r = Some sv \<longrightarrow> sv_phase sv = Polling \<longrightarrow>
       (\<exists>sv'. hm_get (pm_tasks (run_event (Poll r StillRunning) pm')) r = Some sv' \<and> sv_killed sv'))"
proof -
  have tok: "table_ok menv config pm" using pm_ok_reachable [OF assms(1)] by (simp add: pm_ok_def)
  note tD = table_okD [OF tok]
  let ?refs = "session_refs pm env sid"
  have "(n, pm') = kill_targets ?refs pm 0" using assms(2,3) by (simp add: kill_session_processes_def)
  also note kill_targets_spec [OF session_refs_distinct [OF tok]]
  finally have n: "n = length (filter (entry_running pm) ?refs)"
    and pm': "pm' = pm\<lparr> pm_entries := (\<lambda>q. if q \<in> set ?refs \<and> entry_running pm q
            then (pm_entries pm q)\<lparr> pe_kill_requested := True \<rparr> else pm_entries pm q) \<rparr>" by simp_all
  have refs: "r \<in> set ?refs \<longleftrightarrow> (\<exists>p. hm_get (pm_processes pm) (env, sid, p) = Some r)" for r
    by (force simp: session_refs_def hm_in_set_get [OF tD(1)] image_iff)
  have own: "r \<in> set ?refs \<longleftrightarrow> e = env \<and> s = sid" if "hm_get (pm_processes pm) (e, s, p) = Some r" for e s p r
    using that tD(5) [OF that] by (auto simp: refs)
  have "n = length (filter (\<lambda>((e, s, p), r). e = env \<and> s = sid \<and> entry_running pm r) (pm_processes pm))"
    unfolding n session_refs_def filter_map length_map filter_filter
    by (rule arg_cong [of _ _ length], rule filter_cong) auto
  moreover have "\<exists>sv'. hm_get (pm_tasks (run_event (Poll r StillRunning) pm')) r = Some sv' \<and> sv_killed sv'"
    if "hm_get (pm_processes pm) (env, sid, p) = Some r" "entry_running pm r"
      "hm_get (pm_tasks pm) r = Some sv" "sv_phase sv = Polling" for p r sv
    using that own [OF that(1)]
    by (simp add: pm' run_event_def set_task_def poll_child_def Let_def)
  moreover have "pe_kill_requested (pm_entries pm' r) \<longleftrightarrow>
      pe_kill_requested (pm_entries pm r) \<or> e = env \<and> s = sid \<and> entry_running pm r"
    if "hm_get (pm_processes pm) (e, s, p) = Some r" for e s p r
    using own [OF that] by (auto simp: pm')
  ultimately show ?thesis by (auto simp: pm')
qed

theorem kill_session_exact_witness:
  "fst (kill_session_processes sample_started sample_env sample_sid) = 1 \<and>
   fst (kill_session_processes sample_started sample_env (SessionId ''other'')) = 0"
proof -
  note clean = sample_start_clean(1)
  have run: "entry_running sample_started 0"
    using sample_start by (simp add: entry_running_def new_entry_def new_state_def)
  obtain n pm' m pm2 where k: "kill_session_processes sample_started sample_env sample_sid = (n, pm')"
    "kill_session_processes sample_started sample_env (SessionId ''other'') = (m, pm2)"
    by fastforce
  have "n = 1" "m = 0"
    using kill_session_exact [OF sample_started_reachable clean k(1)]
      kill_session_exact [OF sample_started_reachable clean k(2)] sample_start run
    by (simp_all add: sample_sid_def)
  then show ?thesis by (simp add: k)
qed

end
