(* ===== verification/WaitConcurrent.thy ===== *)
theory WaitConcurrent
  imports WaitProps
begin

text \<open>
  Waits among other requests.  A wait of \<open>are-daemon/src/process.rs\<close> holds no lock between its polls,
  so that any operation of the manager may run in between, also the eviction of the entry it waits
  for.  Here every wait is a thread of its own beside all the others.
\<close>

section \<open>Relations that every operation of the manager obeys\<close>

locale manager_relation =
  fixes R :: "process_manager \<Rightarrow> process_manager \<Rightarrow> bool"
  assumes R_refl: "R pm pm"
    and R_trans: "R pm pm1 \<Longrightarrow> R pm1 pm2 \<Longrightarrow> R pm pm2"
    and R_event: "R pm (run_event ev pm)"
    and R_start: "start_process pm req session w = (res, pm', w') \<Longrightarrow> R pm pm'"
    and R_kill: "R pm (request_kill r pm)"
    and R_poison: "R pm (pm\<lparr> pm_poisoned := True \<rparr>)"
begin

lemma R_events: "R pm (run_events evs pm)"
  using R_refl by (rule run_events_induct) (blast intro: R_trans R_event)

lemma R_wait_loop: "R pm (snd (wait_loop polls r timeout pm))"
  by (induction polls r timeout pm rule: wait_loop.induct)
    (auto simp: R_refl intro: R_trans [OF R_events] split: option.split)

lemma R_grace_loop: "R pm (grace_loop polls r pm)"
  by (induction polls r pm rule: grace_loop.induct)
    (auto simp: R_refl Let_def intro: R_trans [OF R_events])

lemma R_targets: "R pm (snd (kill_targets rs pm n))"
  by (induction rs pm n rule: kill_targets.induct) (auto simp: R_refl intro: R_trans [OF R_kill])

lemma R_step: "proc_step pm pm' \<Longrightarrow> R pm pm'"
proof (induction rule: proc_step.induct)
  case (step_wait pm req polls)
  then show ?case by (auto simp: wait_process_def R_refl R_wait_loop split: sum.split)
next
  case (step_terminate pm req polls)
  then show ?case
    by (auto simp: terminate_process_def R_refl intro: R_trans [OF R_kill R_grace_loop] split: sum.split)
qed (auto simp: kill_session_processes_def R_event R_targets R_poison intro: R_start)

lemma R_steps: "proc_step\<^sup>*\<^sup>* pm pm' \<Longrightarrow> R pm pm'"
  by (induction rule: rtranclp_induct) (auto simp: R_refl intro: R_trans R_step)

end

section \<open>The history of one entry\<close>

text \<open>Output only grows, the truncation mark stays, and a final state is final.\<close>

definition later :: "managed_state \<Rightarrow> managed_state \<Rightarrow> bool" where
  "later s s' \<longleftrightarrow> prefix (ms_stdout s) (ms_stdout s') \<and> prefix (ms_stderr s) (ms_stderr s') \<and>
     (ms_truncated s \<longrightarrow> ms_truncated s') \<and> (ms_status s \<noteq> Running \<longrightarrow> s' = s)"

lemma later_refl [simp]: "later s s"
  by (simp add: later_def)

lemma later_trans: "later s t \<Longrightarrow> later t u \<Longrightarrow> later s u"
  unfolding later_def by (metis prefix_order.trans)

lemma later_append: "ms_status s = Running \<Longrightarrow> later s (append_capped cap kind chunk s)"
  by (cases kind) (auto simp: later_def append_capped_def Let_def)

lemma later_task:
  assumes "task_step cap (e, sv) (e', sv')" and "task_ok cap (e, sv)"
  shows "later (pe_state e) (pe_state e')"
proof (cases "ms_status (pe_state e) = Running")
  case True
  from assms(1) show ?thesis
    by cases (use True later_append in \<open>auto simp: later_def\<close>)
next
  case False
  then have "sv_phase sv = Finished" using assms(2) by (auto simp: task_ok_def Let_def)
  then show ?thesis using finished_stable(1) [OF assms] by simp
qed

definition supervised :: "process_manager \<Rightarrow> entry_ref \<Rightarrow> bool" where
  "supervised pm r \<longleftrightarrow> hm_get (pm_tasks pm) r \<noteq> None"

definition grows ::
  "environment_id \<Rightarrow> process_config \<Rightarrow> entry_ref \<Rightarrow> process_manager \<Rightarrow> process_manager \<Rightarrow> bool" where
  "grows env config r pm pm' \<longleftrightarrow> (pm_ok env config pm \<and> supervised pm r \<longrightarrow>
     pm_ok env config pm' \<and> supervised pm' r \<and> later (pe_state (pm_entries pm r)) (pe_state (pm_entries pm' r)))"

lemma growsI:
  assumes "pm_ok env config pm \<Longrightarrow> pm_ok env config pm'"
    and "pm_ok env config pm \<Longrightarrow> supervised pm r \<Longrightarrow> supervised pm' r \<and>
      later (pe_state (pm_entries pm r)) (pe_state (pm_entries pm' r))"
  shows "grows env config r pm pm'"
  using assms by (simp add: grows_def)

lemma grows_event: "grows env config r pm (run_event ev pm)"
proof (rule growsI [OF pm_ok_event])
  assume ok: "pm_ok env config pm" and r: "supervised pm r"
  show "supervised (run_event ev pm) r \<and>
      later (pe_state (pm_entries pm r)) (pe_state (pm_entries (run_event ev pm) r))"
  proof (cases rule: run_event_refines [of ev pm])
    case (stepped sv es)
    obtain e' sv' where es: "es = (e', sv')" by fastforce
    have "task_ok (pc_max_output_bytes (pm_config pm)) (pm_entries pm (event_ref ev), sv)"
      using ok stepped(1) by (auto simp: pm_ok_def tasks_ok_def)
    from later_task [OF stepped(2) [unfolded es] this] show ?thesis
      using stepped(3) es r by (simp add: supervised_def)
  qed (use r in simp)
qed

lemma grows_start:
  assumes run: "start_process pm req session w = (res, pm', w')"
  shows "grows env config r pm pm'"
proof (rule growsI [OF pm_ok_start [OF _ run]])
  assume ok: "pm_ok env config pm" and r: "supervised pm r"
  then have below: "r < pm_next pm" by (auto simp: pm_ok_def tasks_ok_def supervised_def)
  have "hm_ok (pm_processes pm)" using ok table_okD(1) unfolding pm_ok_def by blast
  from this run show "supervised pm' r \<and> later (pe_state (pm_entries pm r)) (pe_state (pm_entries pm' r))"
    by (cases rule: start_process_cases) (use r below in \<open>auto simp: supervised_def\<close>)
qed auto

lemma grows_trans:
  "grows env config r pm pm1 \<Longrightarrow> grows env config r pm1 pm2 \<Longrightarrow> grows env config r pm pm2"
  by (auto simp: grows_def dest: later_trans)

interpretation history: manager_relation "grows env config r" for env config r
proof unfold_locales
  show "grows env config r pm (request_kill q pm)" for pm q
    by (rule growsI) (simp_all add: pm_ok_request_kill supervised_def)
  show "grows env config r pm (pm\<lparr> pm_poisoned := True \<rparr>)" for pm
    by (rule growsI) (auto intro: pm_ok_step step_poison simp: supervised_def)
  show "grows env config r pm pm" for pm by (simp add: grows_def)
qed (rule grows_trans grows_event grows_start; assumption)+

section \<open>Waits as threads\<close>

datatype wait_thread =
    Waiting entry_ref nat
  | Answered entry_ref "process_error + wait_process_response"

text \<open>
  Any operation of the manager, a request to wait that finds its entry, or a poll of a waiting
  thread that answers.  A poll that does not answer changes nothing.
\<close>

inductive wait_step ::
  "process_manager \<times> (nat \<Rightarrow> wait_thread option) \<Rightarrow> process_manager \<times> (nat \<Rightarrow> wait_thread option) \<Rightarrow> bool" where
  other: "proc_step pm pm' \<Longrightarrow> wait_step (pm, ts) (pm', ts)"
| ask: "ts i = None \<Longrightarrow> wait_process_validate req = Inr () \<Longrightarrow>
     lookup_process pm (wp_environment_id req) (wp_session_id req) (wp_process_id req) = Inr r \<Longrightarrow>
     wait_step (pm, ts) (pm, ts(i \<mapsto> Waiting r (wp_timeout_secs req)))"
| poll: "ts i = Some (Waiting r timeout) \<Longrightarrow>
     wait_poll (pm_entries pm r) (timeout \<le> elapsed) = Some res \<Longrightarrow>
     wait_step (pm, ts) (pm, ts(i \<mapsto> Answered r res))"

inductive_cases wait_stepE: "wait_step (pm, ts) (pm', ts')"

text \<open>What an answer says of the present: it is the final state, or a part of it when time ran out.\<close>

definition answer_holds :: "process_manager \<Rightarrow> entry_ref \<Rightarrow> wait_process_response \<Rightarrow> bool" where
  "answer_holds pm r reply \<longleftrightarrow>
     (let st = pe_state (pm_entries pm r) in
      prefix (wpr_stdout reply) (ms_stdout st) \<and> prefix (wpr_stderr reply) (ms_stderr st) \<and>
      (wpr_truncated reply \<longrightarrow> ms_truncated st) \<and>
      (\<not> wpr_timed_out reply \<longrightarrow>
         ms_status st \<noteq> Running \<and> reply = wait_reply st (exit_code_of (ms_status st)) False))"

fun thread_ok :: "process_manager \<Rightarrow> wait_thread \<Rightarrow> bool" where
  "thread_ok pm (Waiting r timeout) = supervised pm r"
| "thread_ok pm (Answered r res) = (supervised pm r \<and> (\<forall>reply. res = Inr reply \<longrightarrow> answer_holds pm r reply))"

definition waits_ok ::
  "environment_id \<Rightarrow> process_config \<Rightarrow> process_manager \<times> (nat \<Rightarrow> wait_thread option) \<Rightarrow> bool" where
  "waits_ok env config s \<longleftrightarrow> pm_ok env config (fst s) \<and> (\<forall>i t. snd s i = Some t \<longrightarrow> thread_ok (fst s) t)"

lemma answer_later:
  "answer_holds pm r reply \<Longrightarrow> later (pe_state (pm_entries pm r)) (pe_state (pm_entries pm' r)) \<Longrightarrow>
    answer_holds pm' r reply"
  unfolding answer_holds_def later_def Let_def by (metis prefix_order.trans)

lemma answer_now: "wait_poll (pm_entries pm r) passed = Some (Inr reply) \<Longrightarrow> answer_holds pm r reply"
  using wait_poll_reply(1) [of "pm_entries pm r" passed reply]
  by (auto simp: answer_holds_def wait_reply_def Let_def)

lemma thread_later:
  "thread_ok pm t \<Longrightarrow> pm_ok env config pm \<Longrightarrow> proc_step pm pm' \<Longrightarrow> thread_ok pm' t"
  by (cases t) (auto simp: grows_def dest!: history.R_step [where env = env and config = config]
      intro: answer_later)

lemma waits_ok_step:
  assumes "wait_step s s'" and "waits_ok env config s"
  shows "waits_ok env config s'"
  using assms(1)
proof cases
  case (other pm pm' ts)
  then show ?thesis
    using assms(2)
    by (auto simp: waits_ok_def intro: pm_ok_step [OF other(3)] thread_later [OF _ _ other(3)])
next
  case (ask ts i req pm r)
  then have "hm_get (pm_processes pm) (wp_environment_id req, wp_session_id req, wp_process_id req) = Some r"
    by (auto simp: lookup_process_def split: if_splits option.splits)
  moreover have "table_ok env config pm" using assms(2) ask(1) by (simp add: waits_ok_def pm_ok_def)
  ultimately have "supervised pm r" unfolding supervised_def by (metis table_okD(4))
  then show ?thesis using assms(2) ask(1,2) by (auto simp: waits_ok_def)
next
  case (poll ts i r timeout pm elapsed res)
  have "thread_ok pm (Waiting r timeout)"
    using assms(2) poll(1,3) by (metis waits_ok_def fst_conv snd_conv)
  then have "thread_ok pm (Answered r res)" using poll(4) answer_now by auto
  then show ?thesis using assms(2) poll(1,2) by (auto simp: waits_ok_def)
qed

lemma waits_ok_reachable:
  assumes "wait_step\<^sup>*\<^sup>* (process_manager_new env config fs, \<lambda>_. None) s"
  shows "waits_ok env config s"
  using assms
  by (induction rule: rtranclp_induct) (auto simp: waits_ok_def [of _ _ "(_, \<lambda>_. None)"] pm_ok_new intro: waits_ok_step)

text \<open>The wait of theory \<open>Supervisor\<close> is one of the schedules.\<close>

lemma wait_step_events: "wait_step\<^sup>*\<^sup>* (pm, ts) (run_events evs pm, ts)"
  by (rule run_events_induct [where P = "\<lambda>q. wait_step\<^sup>*\<^sup>* (pm, ts) (q, ts)"])
    (auto intro: rtranclp.rtrancl_into_rtrancl wait_step.other step_event)

lemma wait_loop_is_schedule:
  assumes "ts i = Some (Waiting r timeout)" and "wait_loop polls r timeout pm = (res, pm')"
  shows "wait_step\<^sup>*\<^sup>* (pm, ts) (pm', ts(i \<mapsto> Answered r res))"
  using assms
proof (induction polls r timeout pm rule: wait_loop.induct)
  case (1 r timeout pm)
  obtain res' where "wait_poll (pm_entries pm r) True = Some res'"
    by (cases "wait_poll (pm_entries pm r) True") (auto simp: wait_poll_def Let_def split: process_state.splits if_splits)
  moreover from this have "res = res'" "pm' = pm" using 1(2) by simp_all
  ultimately show ?case using 1(1) wait_step.poll [of ts i r timeout pm timeout res'] by (intro r_into_rtranclp) (simp del: fun_upd_apply)
next
  case (2 elapsed evs polls r timeout pm)
  show ?case
  proof (cases "wait_poll (pm_entries pm r) (timeout \<le> elapsed)")
    case None
    then have "wait_step\<^sup>*\<^sup>* (run_events evs pm, ts) (pm', ts(i \<mapsto> Answered r res))"
      using 2(2,3) by (intro 2(1)) simp_all
    then show ?thesis by (rule rtranclp_trans [OF wait_step_events])
  next
    case (Some res')
    moreover from this have "res = res'" "pm' = pm" using 2(3) by simp_all
    ultimately show ?thesis using 2(2) Some wait_step.poll [of ts i r timeout pm elapsed res'] by (intro r_into_rtranclp) (simp del: fun_upd_apply)
  qed
qed


definition sample_wait :: wait_process_request where
  "sample_wait = \<lparr> wp_environment_id = sample_env, wp_session_id = sample_sid,
     wp_process_id = sample_pid, wp_timeout_secs = 2 \<rparr>"

definition sample_early :: process_manager where
  "sample_early = run_event (Chunk 0 StdoutStream [7]) sample_started"

definition sample_late :: process_manager where
  "sample_late = run_events [Poll 0 (ExitCode 3), Chunk 0 StdoutStream [8], DrainTimeout 0,
     Publish 0 (SystemTime 9 0)] sample_early"

definition final_sample :: managed_state where
  "final_sample = \<lparr> ms_status = Exited 3, ms_stdout = [7, 8], ms_stderr = [], ms_truncated = True,
     ms_finished_at = Some (SystemTime 9 0) \<rparr>"

lemma sample_entries:
  "pe_state (pm_entries sample_early 0) = new_state\<lparr> ms_stdout := [7] \<rparr> \<and>
   \<not> pe_poisoned (pm_entries sample_early 0) \<and>
   pe_state (pm_entries sample_late 0) = final_sample \<and> \<not> pe_poisoned (pm_entries sample_late 0)"
  using sample_start sample_start_clean
  by (simp add: sample_late_def sample_early_def run_events_def run_event_def hm_get_def hm_insert_def
      new_supervisor_def new_entry_def new_state_def final_sample_def read_chunk_def READ_CHUNK_def
      update_state_def set_task_def append_capped_def sample_pc_def poll_child_def drain_timeout_def
      publish_final_def Let_def)


end
