(* ===== verification/Handler.thy ===== *)
theory Handler
  imports GrantsTable Session Supervisor
begin

text \<open>
  \<open>are-daemon/src/handler.rs\<close>: the state of the daemon, the authorization helpers and the handler of
  every request.  A handler is a function on the daemon and the machine under it; one handler runs
  to completion before the next one, while the supervisors of the children advance between requests
  and, through the polls given to a waiting request, inside it.  The BLAKE3 hash is a parameter.
  Log lines are not modelled.
\<close>

section \<open>State\<close>

record daemon_state =
  ds_environment_id :: environment_id
  ds_machine_name :: string
  ds_daemon_version :: string
  ds_advertised_capabilities :: capability_set
  ds_platform :: platform
  ds_fs :: "filesystem_config option"
  ds_proc :: "process_manager option"
  ds_sessions :: "session_manager option"
  ds_grants :: "grants_table option"

definition daemon_state_new ::
  "environment_id \<Rightarrow> string \<Rightarrow> string \<Rightarrow> capability_set \<Rightarrow> platform \<Rightarrow> daemon_state" where
  "daemon_state_new env name version caps platform =
     \<lparr> ds_environment_id = env, ds_machine_name = name, ds_daemon_version = version,
       ds_advertised_capabilities = caps, ds_platform = platform, ds_fs = None, ds_proc = None,
       ds_sessions = None, ds_grants = None \<rparr>"

definition daemon_state_with_fs ::
  "environment_id \<Rightarrow> string \<Rightarrow> string \<Rightarrow> capability_set \<Rightarrow> platform \<Rightarrow> filesystem_config \<Rightarrow> daemon_state" where
  "daemon_state_with_fs env name version caps platform fs =
     \<lparr> ds_environment_id = env, ds_machine_name = name, ds_daemon_version = version,
       ds_advertised_capabilities = caps, ds_platform = platform, ds_fs = Some fs, ds_proc = None,
       ds_sessions = None, ds_grants = None \<rparr>"

definition with_proc :: "process_manager \<Rightarrow> daemon_state \<Rightarrow> daemon_state" where
  "with_proc pm st = st\<lparr> ds_proc := Some pm \<rparr>"

definition with_sess :: "session_manager \<Rightarrow> daemon_state \<Rightarrow> daemon_state" where
  "with_sess sm st = st\<lparr> ds_sessions := Some sm \<rparr>"

definition with_grants :: "grants_table \<Rightarrow> daemon_state \<Rightarrow> daemon_state" where
  "with_grants t st = st\<lparr> ds_grants := Some t \<rparr>"

text \<open>Handlers: sequencing, early return, reading the state, and running the parts below.\<close>

type_synonym 'a handler = "daemon_state \<times> world \<Rightarrow> (rpc_error + 'a) \<times> daemon_state \<times> world"

definition okH :: "'a \<Rightarrow> 'a handler" where
  "okH x s = (Inr x, s)"

definition failH :: "rpc_error \<Rightarrow> 'a handler" where
  "failH e s = (Inl e, s)"

definition resultH :: "rpc_error + 'a \<Rightarrow> 'a handler" where
  "resultH r s = (r, s)"

definition bindH :: "'a handler \<Rightarrow> ('a \<Rightarrow> 'b handler) \<Rightarrow> 'b handler" where
  "bindH m f s = (case m s of (Inl e, s') \<Rightarrow> (Inl e, s') | (Inr x, s') \<Rightarrow> f x s')"

definition withH :: "(daemon_state \<Rightarrow> 'a handler) \<Rightarrow> 'a handler" where
  "withH f s = f (fst s) s"

definition fsH :: "('e \<Rightarrow> rpc_error) \<Rightarrow> ('e, 'a) comp \<Rightarrow> 'a handler" where
  "fsH h m s = (case m (snd s) of (r, w') \<Rightarrow> (mapE h r, fst s, w'))"

section \<open>Errors on the wire\<close>

fun session_error_to_rpc :: "session_error \<Rightarrow> rpc_error" where
  "session_error_to_rpc (SInvalidRequest msg) = RpcInvalidRequest msg"
| "session_error_to_rpc (SEnvironmentMismatch msg) = RpcInvalidRequest msg"
| "session_error_to_rpc (SNotFound msg) = RpcSessionNotFound msg"
| "session_error_to_rpc (SExpired msg) = RpcSessionExpired msg"
| "session_error_to_rpc (STooManySessions msg) = RpcCapacityExceeded msg"
| "session_error_to_rpc (SInternal msg) = RpcInternalError msg"

fun process_error_to_rpc :: "process_error \<Rightarrow> rpc_error" where
  "process_error_to_rpc (PInvalidRequest msg) = RpcInvalidRequest msg"
| "process_error_to_rpc (PEnvironmentMismatch msg) = RpcInvalidRequest msg"
| "process_error_to_rpc (PDeniedExecutable msg) = RpcDeniedExecutable msg"
| "process_error_to_rpc (PPolicyDenied msg) = RpcDeniedExecutable msg"
| "process_error_to_rpc (PTooManyProcesses msg) = RpcCapacityExceeded msg"
| "process_error_to_rpc (PNotFound msg) = RpcNotFound msg"
| "process_error_to_rpc (PIo msg) = RpcInternalError msg"
| "process_error_to_rpc (PInternal msg) = RpcInternalError msg"

fun fs_error_to_rpc :: "string \<Rightarrow> fs_error \<Rightarrow> rpc_error" where
  "fs_error_to_rpc path (FInvalidPath msg) = RpcInvalidRequest (path @ '': '' @ msg)"
| "fs_error_to_rpc path (FFilesystemEscape msg) = RpcInternalError (''filesystem escape blocked: '' @ msg)"
| "fs_error_to_rpc path (FNotFound _) = RpcNotFound (path @ '': not found'')"
| "fs_error_to_rpc path (FConflict msg) = RpcConflict (path @ '': '' @ msg)"
| "fs_error_to_rpc path (FPermissionDenied _) = RpcInternalError (path @ '': permission denied'')"
| "fs_error_to_rpc path (FNotADirectory _) = RpcInternalError (path @ '': not a directory'')"
| "fs_error_to_rpc path (FIsADirectory _) = RpcInternalError (path @ '': is a directory'')"
| "fs_error_to_rpc path (FFileTooLarge inner sz limit) =
     RpcInvalidRequest (''file too large: '' @ inner @ '' is '' @ nat_str sz @ '' bytes, limit is ''
       @ nat_str limit @ '' bytes'')"
| "fs_error_to_rpc path (FIo msg) = RpcInternalError (path @ '': I/O error: '' @ msg)"

definition core_to_rpc :: "core_error \<Rightarrow> rpc_error" where
  "core_to_rpc e = RpcInvalidRequest (core_error_display e)"

definition wrong_environment :: "environment_id \<Rightarrow> environment_id \<Rightarrow> rpc_error" where
  "wrong_environment requested own =
     RpcInvalidRequest (''requested environment '' @ quoted (env_str requested)
       @ '' does not match daemon environment '' @ quoted (env_str own))"

definition unknown_session_rpc :: "session_id \<Rightarrow> rpc_error" where
  "unknown_session_rpc sid = RpcNotFound (''unknown session '' @ quoted (sess_str sid))"

definition unknown_process_rpc :: "process_id \<Rightarrow> rpc_error" where
  "unknown_process_rpc pid = RpcNotFound (''unknown process id '' @ quoted (proc_str pid))"

section \<open>Authorization\<close>

definition effective_grants :: "daemon_state \<Rightarrow> caller option \<Rightarrow> grant list option" where
  "effective_grants st caller =
     (case ds_grants st of
        None \<Rightarrow> None
      | Some table \<Rightarrow>
          (case caller of
             Some c \<Rightarrow> Some (case grants_for table (ca_fingerprint c) of None \<Rightarrow> [] | Some gs \<Rightarrow> gs)
           | None \<Rightarrow> Some []))"

definition unknown_principal :: rpc_error where
  "unknown_principal = RpcForbidden
     ''unknown principal: no grants for this client identity (GetEnvironmentInfo only)''"

definition deny_unknown_principal :: "daemon_state \<Rightarrow> caller option \<Rightarrow> rpc_error + unit" where
  "deny_unknown_principal st caller =
     (case ds_grants st of
        None \<Rightarrow> Inr ()
      | Some table \<Rightarrow>
          let known = (case caller of
                         None \<Rightarrow> False
                       | Some c \<Rightarrow> grants_is_known table (ca_fingerprint c)) in
          if known then Inr () else Inl unknown_principal)"

fun fs_scope :: "fs_grant_kind \<Rightarrow> string" where
  "fs_scope GRead = ''filesystem.read''"
| "fs_scope GWrite = ''filesystem.write''"
| "fs_scope GList = ''filesystem.list''"

definition check_fs_grant ::
  "daemon_state \<Rightarrow> caller option \<Rightarrow> fs_grant_kind \<Rightarrow> string \<Rightarrow> rpc_error + unit" where
  "check_fs_grant st caller kind rel =
     (case effective_grants st caller of
        None \<Rightarrow> Inr ()
      | Some grants \<Rightarrow>
          if grants_allow_fs grants kind rel then Inr ()
          else Inl (RpcForbidden (fs_scope kind @ '' denied for '' @ quoted rel)))"

definition check_exec_grant :: "daemon_state \<Rightarrow> caller option \<Rightarrow> string \<Rightarrow> rpc_error + unit" where
  "check_exec_grant st caller program =
     (case effective_grants st caller of
        None \<Rightarrow> Inr ()
      | Some grants \<Rightarrow>
          let normalized = normalize_program_name program in
          if grants_allow_exec grants program then Inr ()
          else Inl (RpcForbidden (''process.execute denied for '' @ quoted normalized)))"

definition check_inspect_grant :: "daemon_state \<Rightarrow> caller option \<Rightarrow> rpc_error + unit" where
  "check_inspect_grant st caller =
     (case effective_grants st caller of
        None \<Rightarrow> Inr ()
      | Some grants \<Rightarrow>
          if grants_allow_inspect grants then Inr () else Inl (RpcForbidden ''process.inspect denied''))"

definition check_terminate_grant :: "daemon_state \<Rightarrow> caller option \<Rightarrow> rpc_error + unit" where
  "check_terminate_grant st caller =
     (case effective_grants st caller of
        None \<Rightarrow> Inr ()
      | Some grants \<Rightarrow>
          if grants_allow_terminate grants then Inr ()
          else Inl (RpcForbidden ''process.terminate denied''))"

definition fs_rel_for_grant :: "filesystem_config \<Rightarrow> string \<Rightarrow> bool \<Rightarrow> string handler" where
  "fs_rel_for_grant fs path follow_final =
     bindH (fsH (fs_error_to_rpc path)
              (if follow_final then fs_resolve fs path else fs_resolve_no_follow fs path))
       (\<lambda>canonical. resultH (ok_or
          (RpcInternalError ''filesystem escape blocked: path escapes allowed boundary'')
          (fs_relativize fs canonical)))"

section \<open>Backends\<close>

definition fs_missing :: rpc_error where
  "fs_missing = RpcInternalError ''filesystem backend not configured''"

definition require_fs :: "environment_id \<Rightarrow> filesystem_config handler" where
  "require_fs env = withH (\<lambda>st.
     if env \<noteq> ds_environment_id st then failH (wrong_environment env (ds_environment_id st))
     else resultH (ok_or fs_missing (ds_fs st)))"

text \<open>
  The managers are shared handles (\<open>Arc\<close>): asking for one only tells whether it is configured, and
  an operation acts on what the daemon holds at that moment.
\<close>

definition proc_missing :: rpc_error where
  "proc_missing = RpcInternalError ''process backend not configured''"

definition sessions_missing :: rpc_error where
  "sessions_missing = RpcInternalError ''session backend not configured''"

definition require_proc :: "environment_id \<Rightarrow> unit handler" where
  "require_proc env = withH (\<lambda>st.
     if env \<noteq> ds_environment_id st then failH (wrong_environment env (ds_environment_id st))
     else if ds_proc st = None then failH proc_missing else okH ())"

definition require_sessions :: "unit handler" where
  "require_sessions = withH (\<lambda>st.
     if ds_sessions st = None then failH sessions_missing else okH ())"

definition denyH :: "caller option \<Rightarrow> unit handler" where
  "denyH caller = withH (\<lambda>st. resultH (deny_unknown_principal st caller))"

definition grantH :: "caller option \<Rightarrow> fs_grant_kind \<Rightarrow> string \<Rightarrow> unit handler" where
  "grantH caller kind rel = withH (\<lambda>st. resultH (check_fs_grant st caller kind rel))"

text \<open>An operation of the session manager, and one of the process manager.\<close>

definition sessH :: "(session_manager \<Rightarrow> world \<Rightarrow> 'a \<times> session_manager \<times> world) \<Rightarrow> 'a handler" where
  "sessH f s =
     (case ds_sessions (fst s) of
        None \<Rightarrow> (Inl sessions_missing, s)
      | Some sm \<Rightarrow>
          (case f sm (snd s) of (r, sm', w') \<Rightarrow> (Inr r, (fst s)\<lparr> ds_sessions := Some sm' \<rparr>, w')))"

definition procH ::
  "(process_manager \<Rightarrow> world \<Rightarrow> (process_error + 'a) \<times> process_manager \<times> world) \<Rightarrow> 'a handler" where
  "procH f s =
     (case ds_proc (fst s) of
        None \<Rightarrow> (Inl proc_missing, s)
      | Some pm \<Rightarrow>
          (case f pm (snd s) of (r, pm', w') \<Rightarrow>
             (mapE process_error_to_rpc r, (fst s)\<lparr> ds_proc := Some pm' \<rparr>, w')))"

definition kill_session_best_effort :: "session_id \<Rightarrow> daemon_state \<Rightarrow> daemon_state" where
  "kill_session_best_effort sid st =
     (case ds_proc st of
        None \<Rightarrow> st
      | Some pm \<Rightarrow>
          st\<lparr> ds_proc := Some (snd (kill_session_processes pm (ds_environment_id st) sid)) \<rparr>)"

fun kill_purged_best_effort :: "session_id list \<Rightarrow> daemon_state \<Rightarrow> daemon_state" where
  "kill_purged_best_effort [] st = st"
| "kill_purged_best_effort (sid # sids) st =
     kill_purged_best_effort sids (kill_session_best_effort sid st)"

definition killH :: "session_id list \<Rightarrow> unit handler" where
  "killH purged s = (Inr (), kill_purged_best_effort purged (fst s), snd s)"

definition fp_of :: "caller option \<Rightarrow> string option" where
  "fp_of caller = map_option ca_fingerprint caller"

definition require_live_session :: "caller option \<Rightarrow> session_id \<Rightarrow> session_info handler" where
  "require_live_session caller sid =
     bindH require_sessions (\<lambda>_.
     bindH (sessH (\<lambda>sm w. touch_owned sm sid (fp_of caller) w)) (\<lambda>(result, purged).
     bindH (killH purged) (\<lambda>_.
     resultH (mapE session_error_to_rpc result))))"

section \<open>Environment information and files\<close>

definition CONSTS_OS :: string where
  "CONSTS_OS = ''linux''"

definition handle_get_environment_info ::
  "caller option \<Rightarrow> get_environment_info_request \<Rightarrow> get_environment_info_response handler" where
  "handle_get_environment_info caller req = withH (\<lambda>st.
     if gi_environment_id req \<noteq> ds_environment_id st
     then failH (wrong_environment (gi_environment_id req) (ds_environment_id st))
     else okH \<lparr> gir_environment_id = ds_environment_id st, gir_machine_name = ds_machine_name st,
                gir_operating_system = CONSTS_OS, gir_daemon_version = ds_daemon_version st,
                gir_advertised_capabilities = ds_advertised_capabilities st,
                gir_platform = ds_platform st, gir_caller_fingerprint = fp_of caller \<rparr>)"

definition handle_read_file ::
  "(bytes \<Rightarrow> string) \<Rightarrow> caller option \<Rightarrow> read_file_request \<Rightarrow> read_file_response handler" where
  "handle_read_file blake3_hex caller req =
     bindH (require_fs (rf_environment_id req)) (\<lambda>fs.
     bindH (denyH caller) (\<lambda>_.
     bindH (fs_rel_for_grant fs (rf_path req) True) (\<lambda>rel.
     bindH (grantH caller GRead rel) (\<lambda>_.
     bindH (fsH (fs_error_to_rpc (rf_path req)) (fs_read_file blake3_hex fs (rf_path req)))
       (\<lambda>(content, metadata). okH \<lparr> rr_content = content, rr_metadata = metadata \<rparr>)))))"

definition handle_list_directory ::
  "caller option \<Rightarrow> list_directory_request \<Rightarrow> list_directory_response handler" where
  "handle_list_directory caller req =
     bindH (require_fs (ld_environment_id req)) (\<lambda>fs.
     bindH (denyH caller) (\<lambda>_.
     bindH (fs_rel_for_grant fs (ld_path req) True) (\<lambda>rel.
     bindH (grantH caller GList rel) (\<lambda>_.
     bindH (fsH (fs_error_to_rpc (ld_path req)) (fs_list_directory fs (ld_path req)))
       (\<lambda>entries. okH \<lparr> ldr_entries = entries \<rparr>)))))"

definition handle_get_file_metadata ::
  "(bytes \<Rightarrow> string) \<Rightarrow> caller option \<Rightarrow> get_file_metadata_request
    \<Rightarrow> get_file_metadata_response handler" where
  "handle_get_file_metadata blake3_hex caller req =
     bindH (require_fs (gm_environment_id req)) (\<lambda>fs.
     bindH (denyH caller) (\<lambda>_.
     bindH (fs_rel_for_grant fs (gm_path req) True) (\<lambda>rel.
     bindH (grantH caller GRead rel) (\<lambda>_.
     bindH (fsH (fs_error_to_rpc (gm_path req)) (fs_file_metadata blake3_hex fs (gm_path req)))
       (\<lambda>metadata. okH \<lparr> gmr_metadata = metadata \<rparr>)))))"

definition validH :: "core_error + unit \<Rightarrow> unit handler" where
  "validH r = resultH (mapE core_to_rpc r)"

definition handle_write_file ::
  "(bytes \<Rightarrow> string) \<Rightarrow> caller option \<Rightarrow> write_file_request \<Rightarrow> write_file_response handler" where
  "handle_write_file blake3_hex caller req =
     bindH (validH (write_file_validate req)) (\<lambda>_.
     bindH (require_fs (wf_environment_id req)) (\<lambda>fs.
     bindH (denyH caller) (\<lambda>_.
     bindH (fs_rel_for_grant fs (wf_path req) True) (\<lambda>rel.
     bindH (grantH caller GWrite rel) (\<lambda>_.
     bindH (fsH (fs_error_to_rpc (wf_path req))
              (fs_write_file blake3_hex fs (wf_path req) (wf_content req) (wf_overwrite req)
                 (wf_expected_hash req)))
       (\<lambda>metadata. okH \<lparr> wr_metadata = metadata \<rparr>))))))"

definition handle_create_directory ::
  "caller option \<Rightarrow> create_directory_request \<Rightarrow> create_directory_response handler" where
  "handle_create_directory caller req =
     bindH (validH (create_directory_validate req)) (\<lambda>_.
     bindH (require_fs (cd_environment_id req)) (\<lambda>fs.
     bindH (denyH caller) (\<lambda>_.
     bindH (resultH (mapE (fs_error_to_rpc (cd_path req)) (fs_creation_rel fs (cd_path req)))) (\<lambda>rel.
     bindH (grantH caller GWrite rel) (\<lambda>_.
     bindH (fsH (fs_error_to_rpc (cd_path req)) (fs_create_directory fs (cd_path req)))
       (\<lambda>metadata. okH \<lparr> cdr_metadata = metadata \<rparr>))))))"

definition handle_rename ::
  "(bytes \<Rightarrow> string) \<Rightarrow> caller option \<Rightarrow> rename_request \<Rightarrow> rename_response handler" where
  "handle_rename blake3_hex caller req =
     bindH (validH (rename_validate req)) (\<lambda>_.
     bindH (require_fs (rn_environment_id req)) (\<lambda>fs.
     bindH (denyH caller) (\<lambda>_.
     bindH (fs_rel_for_grant fs (rn_src req) False) (\<lambda>rel_src.
     bindH (grantH caller GWrite rel_src) (\<lambda>_.
     bindH (fs_rel_for_grant fs (rn_dst req) False) (\<lambda>rel_dst.
     bindH (grantH caller GWrite rel_dst) (\<lambda>_.
     bindH (fsH (fs_error_to_rpc (rn_src req @ '' -> '' @ rn_dst req))
              (fs_rename_path blake3_hex fs (rn_src req) (rn_dst req)))
       (\<lambda>metadata. okH \<lparr> rnr_metadata = metadata \<rparr>))))))))"

definition handle_delete_file ::
  "caller option \<Rightarrow> delete_request \<Rightarrow> delete_response handler" where
  "handle_delete_file caller req =
     bindH (validH (delete_validate req)) (\<lambda>_.
     bindH (require_fs (dl_environment_id req)) (\<lambda>fs.
     bindH (denyH caller) (\<lambda>_.
     bindH (fs_rel_for_grant fs (dl_path req) False) (\<lambda>rel.
     bindH (grantH caller GWrite rel) (\<lambda>_.
     bindH (fsH (fs_error_to_rpc (dl_path req)) (fs_delete_path fs (dl_path req)))
       (\<lambda>_. okH \<lparr> dlr_deleted = True \<rparr>))))))"

section \<open>Processes\<close>

type_synonym polls = "(nat \<times> sup_event list) list"

definition live_in_environment ::
  "caller option \<Rightarrow> session_id \<Rightarrow> environment_id \<Rightarrow> rpc_error \<Rightarrow> session_info handler" where
  "live_in_environment caller sid env missing =
     bindH (require_live_session caller sid) (\<lambda>session.
     if si_environment_id session \<noteq> env then failH missing else okH session)"

definition handle_execute :: "caller option \<Rightarrow> execute_request \<Rightarrow> execute_response handler" where
  "handle_execute caller req =
     bindH (require_proc (ex_environment_id req)) (\<lambda>_.
     bindH (live_in_environment caller (ex_session_id req) (ex_environment_id req)
              (unknown_session_rpc (ex_session_id req))) (\<lambda>session.
     bindH (denyH caller) (\<lambda>_.
     bindH (validH (execute_validate req)) (\<lambda>_.
     bindH (procH (\<lambda>pm w. (check_policy (pm_config pm) (ex_program req), pm, w))) (\<lambda>_.
     bindH (withH (\<lambda>st. resultH (check_exec_grant st caller (ex_program req)))) (\<lambda>_.
     bindH (procH (\<lambda>pm w. start_process pm req session w))
       (\<lambda>pid. okH \<lparr> exr_process_id = pid \<rparr>)))))))"

definition handle_process_status ::
  "caller option \<Rightarrow> process_status_request \<Rightarrow> process_status_response handler" where
  "handle_process_status caller req =
     bindH (require_proc (ps_environment_id req)) (\<lambda>_.
     bindH (live_in_environment caller (ps_session_id req) (ps_environment_id req)
              (unknown_process_rpc (ps_process_id req))) (\<lambda>_.
     bindH (denyH caller) (\<lambda>_.
     bindH (withH (\<lambda>st. resultH (check_inspect_grant st caller))) (\<lambda>_.
     procH (\<lambda>pm w. (pm_status pm req, pm, w))))))"

definition handle_terminate_process ::
  "polls \<Rightarrow> caller option \<Rightarrow> terminate_process_request \<Rightarrow> terminate_process_response handler" where
  "handle_terminate_process polls caller req =
     bindH (require_proc (tp_environment_id req)) (\<lambda>_.
     bindH (live_in_environment caller (tp_session_id req) (tp_environment_id req)
              (unknown_process_rpc (tp_process_id req))) (\<lambda>_.
     bindH (denyH caller) (\<lambda>_.
     bindH (withH (\<lambda>st. resultH (check_terminate_grant st caller))) (\<lambda>_.
     procH (\<lambda>pm w. (case terminate_process pm req polls of (r, pm') \<Rightarrow> (r, pm', w)))))))"

definition handle_wait_process ::
  "polls \<Rightarrow> caller option \<Rightarrow> wait_process_request \<Rightarrow> wait_process_response handler" where
  "handle_wait_process polls caller req =
     bindH (require_proc (wp_environment_id req)) (\<lambda>_.
     bindH (live_in_environment caller (wp_session_id req) (wp_environment_id req)
              (unknown_process_rpc (wp_process_id req))) (\<lambda>_.
     bindH (denyH caller) (\<lambda>_.
     bindH (withH (\<lambda>st. resultH (check_terminate_grant st caller))) (\<lambda>_.
     procH (\<lambda>pm w. (case wait_process pm req polls of (r, pm') \<Rightarrow> (r, pm', w)))))))"

section \<open>Sessions\<close>

definition require_environment :: "environment_id \<Rightarrow> unit handler" where
  "require_environment env = withH (\<lambda>st.
     if env \<noteq> ds_environment_id st then failH (wrong_environment env (ds_environment_id st))
     else okH ())"

definition handle_create_session ::
  "caller option \<Rightarrow> create_session_request \<Rightarrow> create_session_response handler" where
  "handle_create_session caller req =
     bindH (require_environment (cs_environment_id req)) (\<lambda>_.
     bindH (denyH caller) (\<lambda>_.
     bindH require_sessions (\<lambda>_.
     bindH (sessH (\<lambda>sm w. create_owned sm req (fp_of caller) w)) (\<lambda>result.
     bindH (resultH (mapE session_error_to_rpc result)) (\<lambda>(session, purged).
     bindH (killH purged) (\<lambda>_.
     okH \<lparr> csr_session = session \<rparr>))))))"

definition handle_get_session ::
  "caller option \<Rightarrow> get_session_request \<Rightarrow> get_session_response handler" where
  "handle_get_session caller req =
     bindH (require_environment (gs_environment_id req)) (\<lambda>_.
     bindH (denyH caller) (\<lambda>_.
     bindH (live_in_environment caller (gs_session_id req) (gs_environment_id req)
              (unknown_session_rpc (gs_session_id req))) (\<lambda>session.
     okH \<lparr> gsr_session = session \<rparr>)))"

definition handle_list_sessions ::
  "caller option \<Rightarrow> list_sessions_request \<Rightarrow> list_sessions_response handler" where
  "handle_list_sessions caller req =
     bindH (require_environment (ls_environment_id req)) (\<lambda>_.
     bindH (denyH caller) (\<lambda>_.
     bindH require_sessions (\<lambda>_.
     bindH (sessH (\<lambda>sm w. list_owned sm (ls_environment_id req) (fp_of caller) w)) (\<lambda>(live, purged).
     bindH (killH purged) (\<lambda>_.
     okH \<lparr> lsr_sessions = live \<rparr>)))))"

definition mapH_err :: "(rpc_error \<Rightarrow> rpc_error) \<Rightarrow> 'a handler \<Rightarrow> 'a handler" where
  "mapH_err h m s = (case m s of (r, s') \<Rightarrow> (mapE h r, s'))"

fun kill_attempted :: "rpc_error \<Rightarrow> rpc_error" where
  "kill_attempted (RpcSessionExpired msg) =
     RpcSessionExpired (msg @ '' (session processes kill attempted despite expiry)'')"
| "kill_attempted e = e"

definition kill_countH :: "session_id \<Rightarrow> nat handler" where
  "kill_countH sid s =
     (case ds_proc (fst s) of
        None \<Rightarrow> (Inr 0, s)
      | Some pm \<Rightarrow>
          (case kill_session_processes pm (ds_environment_id (fst s)) sid of (n, pm') \<Rightarrow>
             (Inr n, (fst s)\<lparr> ds_proc := Some pm' \<rparr>, snd s)))"

definition handle_terminate_session ::
  "caller option \<Rightarrow> terminate_session_request \<Rightarrow> terminate_session_response handler" where
  "handle_terminate_session caller req =
     bindH (require_environment (ts_environment_id req)) (\<lambda>_.
     bindH (denyH caller) (\<lambda>_.
     bindH require_sessions (\<lambda>_.
     bindH (mapH_err kill_attempted (require_live_session caller (ts_session_id req))) (\<lambda>live.
     if si_environment_id live \<noteq> ts_environment_id req
     then failH (unknown_session_rpc (ts_session_id req))
     else
       bindH (kill_countH (ts_session_id req)) (\<lambda>terminated.
       bindH (sessH (\<lambda>sm w. terminate_owned sm (ts_session_id req) (fp_of caller) w)) (\<lambda>(result, purged).
       bindH (killH purged) (\<lambda>_.
       bindH (mapH_err kill_attempted (resultH (mapE session_error_to_rpc result))) (\<lambda>_.
       okH \<lparr> tsr_terminated_processes = terminated \<rparr>))))))))"

section \<open>Dispatch\<close>

definition respond :: "('a \<Rightarrow> rpc_payload) \<Rightarrow> 'a handler \<Rightarrow> rpc_payload handler" where
  "respond f m = bindH m (\<lambda>x. okH (f x))"

fun handle_as :: "(bytes \<Rightarrow> string) \<Rightarrow> polls \<Rightarrow> caller option \<Rightarrow> rpc_request \<Rightarrow> rpc_payload handler" where
  "handle_as b3 polls caller (GetEnvironmentInfo req) =
     respond GetEnvironmentInfoP (handle_get_environment_info caller req)"
| "handle_as b3 polls caller (ReadFile req) = respond ReadFileP (handle_read_file b3 caller req)"
| "handle_as b3 polls caller (ListDirectory req) =
     respond ListDirectoryP (handle_list_directory caller req)"
| "handle_as b3 polls caller (GetFileMetadata req) =
     respond GetFileMetadataP (handle_get_file_metadata b3 caller req)"
| "handle_as b3 polls caller (WriteFile req) = respond WriteFileP (handle_write_file b3 caller req)"
| "handle_as b3 polls caller (CreateDirectory req) =
     respond CreateDirectoryP (handle_create_directory caller req)"
| "handle_as b3 polls caller (RenameReq req) = respond RenameP (handle_rename b3 caller req)"
| "handle_as b3 polls caller (DeleteFile req) = respond DeleteFileP (handle_delete_file caller req)"
| "handle_as b3 polls caller (Execute req) = respond ExecuteP (handle_execute caller req)"
| "handle_as b3 polls caller (ProcessStatus req) =
     respond ProcessStatusP (handle_process_status caller req)"
| "handle_as b3 polls caller (TerminateProcess req) =
     respond TerminateProcessP (handle_terminate_process polls caller req)"
| "handle_as b3 polls caller (WaitProcess req) =
     respond WaitProcessP (handle_wait_process polls caller req)"
| "handle_as b3 polls caller (CreateSession req) =
     respond CreateSessionP (handle_create_session caller req)"
| "handle_as b3 polls caller (GetSession req) = respond GetSessionP (handle_get_session caller req)"
| "handle_as b3 polls caller (ListSessions req) =
     respond ListSessionsP (handle_list_sessions caller req)"
| "handle_as b3 polls caller (TerminateSession req) =
     respond TerminateSessionP (handle_terminate_session caller req)"

definition handle_legacy_test_only ::
  "(bytes \<Rightarrow> string) \<Rightarrow> polls \<Rightarrow> rpc_request \<Rightarrow> rpc_payload handler" where
  "handle_legacy_test_only b3 polls request = handle_as b3 polls None request"

end
