(* ===== verification/HandlerFacts.thy ===== *)
theory HandlerFacts
  imports Handler SessionFacts ProcInv FsOps
begin

text \<open>
  Running handlers, relations that every handler respects (a locale with one instance per relation),
  and what authorization and the session check establish before an operation runs.
\<close>

section \<open>Running handlers\<close>

lemma handler_run [simp]:
  "okH x s = (Inr x, s)" "failH e s = (Inl e, s)" "resultH r s = (r, s)"
  "withH f s = f (fst s) s"
  by (simp_all add: okH_def failH_def resultH_def withH_def)

lemma bindH_Inr:
  "bindH m f s = (Inr y, s') \<longleftrightarrow> (\<exists>x s1. m s = (Inr x, s1) \<and> f x s1 = (Inr y, s'))"
  by (auto simp: bindH_def split: prod.splits sum.splits)

lemma bindH_Inl:
  "bindH m f s = (Inl e, s') \<longleftrightarrow>
     m s = (Inl e, s') \<or> (\<exists>x s1. m s = (Inr x, s1) \<and> f x s1 = (Inl e, s'))"
  by (auto simp: bindH_def split: prod.splits sum.splits)

lemma bindH_run:
  "m s = (Inr x, s1) \<Longrightarrow> bindH m f s = f x s1"
  "m s = (Inl e, s1) \<Longrightarrow> bindH m f s = (Inl e, s1)"
  by (simp_all add: bindH_def)

lemma bindH_cases:
  assumes "bindH m f s = (r, s')"
  obtains (stop) e where "m s = (Inl e, s')" "r = Inl e"
  | (go) x s1 where "m s = (Inr x, s1)" "f x s1 = (r, s')"
  using assms by (auto simp: bindH_def split: prod.splits sum.splits)

lemma fsH_run: "fsH h m s = (r, s') \<longleftrightarrow>
    (\<exists>r0 w'. m (snd s) = (r0, w') \<and> r = mapE h r0 \<and> s' = (fst s, w'))"
  by (auto simp: fsH_def split: prod.splits)

lemma sessH_run: "sessH f s = (r, s') \<longleftrightarrow>
    ds_sessions (fst s) = None \<and> r = Inl sessions_missing \<and> s' = s \<or>
    (\<exists>sm x sm' w'. ds_sessions (fst s) = Some sm \<and> f sm (snd s) = (x, sm', w') \<and> r = Inr x \<and>
       s' = ((fst s)\<lparr> ds_sessions := Some sm' \<rparr>, w'))"
  by (auto simp: sessH_def split: prod.splits option.splits)

lemma procH_run: "procH f s = (r, s') \<longleftrightarrow>
    ds_proc (fst s) = None \<and> r = Inl proc_missing \<and> s' = s \<or>
    (\<exists>pm x pm' w'. ds_proc (fst s) = Some pm \<and> f pm (snd s) = (x, pm', w') \<and>
       r = mapE process_error_to_rpc x \<and> s' = ((fst s)\<lparr> ds_proc := Some pm' \<rparr>, w'))"
  by (auto simp: procH_def split: prod.splits option.splits)

section \<open>Relations every handler step respects\<close>

locale handler_relation =
  fixes R :: "daemon_state \<times> world \<Rightarrow> daemon_state \<times> world \<Rightarrow> bool"
  assumes R_refl: "R s s"
    and R_trans: "R s t \<Longrightarrow> R t u \<Longrightarrow> R s u"
begin

definition keeps :: "'a handler \<Rightarrow> bool" where
  "keeps m \<longleftrightarrow> (\<forall>s. R s (snd (m s)))"

lemma keepsD: "keeps m \<Longrightarrow> m s = (r, s') \<Longrightarrow> R s s'"
  unfolding keeps_def by (metis snd_conv)

lemma keepsI: "(\<And>s r s'. m s = (r, s') \<Longrightarrow> R s s') \<Longrightarrow> keeps m"
  unfolding keeps_def by (metis prod.collapse)

lemma keeps_ok: "keeps (okH x)"
  by (rule keepsI) (simp add: R_refl)

lemma keeps_fail: "keeps (failH e)"
  by (rule keepsI) (simp add: R_refl)

lemma keeps_result: "keeps (resultH r)"
  by (rule keepsI) (simp add: R_refl)

lemma keeps_bind:
  assumes "keeps m" and "\<And>x. keeps (f x)"
  shows "keeps (bindH m f)"
proof (rule keepsI)
  fix s r s' assume "bindH m f s = (r, s')"
  then show "R s s'"
  proof (cases rule: bindH_cases)
    case (stop e)
    then show ?thesis using keepsD [OF assms(1)] by blast
  next
    case (go x s1)
    then show ?thesis using keepsD [OF assms(1)] keepsD [OF assms(2)] R_trans by blast
  qed
qed

lemma keeps_with: "(\<And>st. keeps (f st)) \<Longrightarrow> keeps (withH f)"
  by (rule keepsI) (auto dest: keepsD)

lemma keeps_if: "keeps m \<Longrightarrow> keeps n \<Longrightarrow> keeps (if b then m else n)"
  by simp

lemma keeps_map_err: "keeps m \<Longrightarrow> keeps (mapH_err h m)"
  by (rule keepsI) (auto simp: mapH_err_def dest: keepsD split: prod.splits)

lemma keeps_require_env: "keeps (require_environment env)"
  unfolding require_environment_def by (intro keeps_with keeps_if keeps_fail keeps_ok)

lemma keeps_require_fs: "keeps (require_fs env)"
  unfolding require_fs_def by (intro keeps_with keeps_if keeps_fail keeps_result)

lemma keeps_require_proc: "keeps (require_proc env)"
  unfolding require_proc_def by (intro keeps_with keeps_if keeps_fail keeps_ok)

lemma keeps_require_sessions: "keeps require_sessions"
  unfolding require_sessions_def by (intro keeps_with keeps_if keeps_fail keeps_ok)

lemma keeps_deny: "keeps (denyH caller)"
  unfolding denyH_def by (intro keeps_with keeps_result)

lemma keeps_grant: "keeps (grantH caller kind rel)"
  unfolding grantH_def by (intro keeps_with keeps_result)

lemma keeps_valid: "keeps (validH r)"
  unfolding validH_def by (rule keeps_result)

lemma keeps_respond: "keeps m \<Longrightarrow> keeps (respond f m)"
  unfolding respond_def by (intro keeps_bind keeps_ok)

lemmas keeps_intros =
  keeps_ok keeps_fail keeps_result keeps_bind keeps_with keeps_if keeps_map_err keeps_require_env
  keeps_require_fs keeps_require_proc keeps_require_sessions keeps_deny keeps_grant keeps_valid

end

text \<open>The configuration of a daemon never changes.\<close>

definition same_config :: "daemon_state \<times> world \<Rightarrow> daemon_state \<times> world \<Rightarrow> bool" where
  "same_config s s' \<longleftrightarrow>
     ds_environment_id (fst s') = ds_environment_id (fst s) \<and> ds_fs (fst s') = ds_fs (fst s) \<and>
     ds_grants (fst s') = ds_grants (fst s) \<and>
     (ds_proc (fst s') = None \<longleftrightarrow> ds_proc (fst s) = None) \<and>
     (ds_sessions (fst s') = None \<longleftrightarrow> ds_sessions (fst s) = None)"

interpretation cfg: handler_relation same_config
  by unfold_locales (auto simp: same_config_def)

text \<open>Nothing happens to the file system, and no process starts.\<close>

definition no_effect :: "daemon_state \<times> world \<Rightarrow> daemon_state \<times> world \<Rightarrow> bool" where
  "no_effect s s' \<longleftrightarrow> same_config s s' \<and> same_tree (snd s) (snd s') \<and>
     map_option pm_processes (ds_proc (fst s')) = map_option pm_processes (ds_proc (fst s))"

interpretation quiet: handler_relation no_effect
proof
  show "no_effect s s" for s by (simp add: no_effect_def cfg.R_refl same_tree.R_refl)
  show "no_effect s u" if "no_effect s t" "no_effect t u" for s t u
    using that cfg.R_trans same_tree.R_trans unfolding no_effect_def by metis
qed

lemma kill_targets_table [simp]: "pm_processes (snd (kill_targets rs pm n)) = pm_processes pm"
  by (induction rs pm n rule: kill_targets.induct) simp_all

lemma kill_session_table [simp]:
  "pm_processes (snd (kill_session_processes pm env sid)) = pm_processes pm"
  by (simp add: kill_session_processes_def)

lemma kill_purged_same:
  "no_effect (st, w) (kill_purged_best_effort purged st, w)"
proof (induction purged st rule: kill_purged_best_effort.induct)
  case (2 sid sids st)
  have "no_effect (st, w) (kill_session_best_effort sid st, w)"
    by (auto simp: no_effect_def same_config_def kill_session_best_effort_def same_tree.R_refl
        split: option.splits)
  from quiet.R_trans [OF this 2] show ?case by simp
qed (simp add: quiet.R_refl)

lemma quiet_kill: "quiet.keeps (killH purged)"
  by (rule quiet.keepsI) (auto simp: killH_def intro: kill_purged_same)

lemma quiet_fs: "same_tree.obeys m \<Longrightarrow> quiet.keeps (fsH h m)"
  by (rule quiet.keepsI)
    (auto simp: fsH_run no_effect_def same_config_def dest: same_tree.obeysD)

lemma quiet_rel: "quiet.keeps (fs_rel_for_grant fs path follow)"
  unfolding fs_rel_for_grant_def
  by (intro quiet.keeps_intros quiet_fs) (simp add: obeys_resolve obeys_resolve_no_follow)

lemma quiet_sess:
  assumes "\<And>sm w r sm' w'. f sm w = (r, sm', w') \<Longrightarrow> same_tree w w'"
  shows "quiet.keeps (sessH f)"
  by (rule quiet.keepsI)
    (auto simp: sessH_run no_effect_def same_config_def same_tree.R_refl dest: assms)

end
