(* ===== verification/Targets.thy ===== *)
theory Targets
  imports FsOps
begin

text \<open>
  What a client path denotes, as a function of the tree alone (a refinement of the resolution code,
  whatever calls fail), and the effect of each file operation in terms of that denotation.  A check
  made on a path and the operation made later on the same tree therefore speak of the same entry.
\<close>

section \<open>The denotation of a path\<close>

definition root_target :: "tree \<Rightarrow> string \<Rightarrow> fpath \<Rightarrow> fpath option" where
  "root_target t path root =
     (let joined = root @ split_path path in
      case real_path t joined of
        Inr p \<Rightarrow> Some p
      | Inl e \<Rightarrow>
          if e \<noteq> ENOENT then None
          else (case abs_parent joined of
                  None \<Rightarrow> None
                | Some parent \<Rightarrow>
                    (case real_path t parent of
                       Inl _ \<Rightarrow> None
                     | Inr d \<Rightarrow> map_option (\<lambda>leaf. d @ [leaf]) (abs_file_name joined))))"

fun first_target :: "tree \<Rightarrow> string \<Rightarrow> fpath list \<Rightarrow> fpath option" where
  "first_target t path [] = None"
| "first_target t path (root # roots) =
     (case root_target t path root of None \<Rightarrow> first_target t path roots | Some p \<Rightarrow> Some p)"

definition follow_target :: "filesystem_config \<Rightarrow> tree \<Rightarrow> string \<Rightarrow> fpath option" where
  "follow_target cfg t path = first_target t path (fc_allowed_roots cfg)"

fun first_entry :: "tree \<Rightarrow> string list \<Rightarrow> string \<Rightarrow> fpath list \<Rightarrow> fpath option" where
  "first_entry t parent leaf [] = None"
| "first_entry t parent leaf (root # roots) =
     (case real_path t (if parent = [] then root else root @ parent) of
        Inr d \<Rightarrow> Some (d @ [leaf])
      | Inl _ \<Rightarrow> first_entry t parent leaf roots)"

definition entry_target :: "filesystem_config \<Rightarrow> tree \<Rightarrow> string \<Rightarrow> fpath option" where
  "entry_target cfg t path =
     (case rel_file_name (split_path path) of
        None \<Rightarrow> None
      | Some leaf \<Rightarrow>
          first_entry t (case rel_parent (split_path path) of None \<Rightarrow> [] | Some p \<Rightarrow> p) leaf
            (fc_allowed_roots cfg))"

definition target :: "bool \<Rightarrow> filesystem_config \<Rightarrow> tree \<Rightarrow> string \<Rightarrow> fpath option" where
  "target follow cfg t path = (if follow then follow_target cfg t path else entry_target cfg t path)"

section \<open>Resolution computes the denotation\<close>

lemma is_not_found_ENOENT: "is_not_found e \<longleftrightarrow> e = ENOENT"
  by (cases e) (simp_all add: is_not_found_def)

lemma resolve_missing_leaf_target:
  assumes run: "resolve_missing_leaf path root joined w = (r, w')"
    and gone: "real_path (w_fs w) joined = Inl ENOENT" and j: "joined = root @ split_path path"
  shows "r = Settled (Inr p) \<Longrightarrow> root_target (w_fs w) path root = Some p"
    and "r = ParentMissing \<Longrightarrow> root_target (w_fs w) path root = None"
proof -
  have rt: "root_target (w_fs w) path root = (case abs_parent joined of None \<Rightarrow> None
      | Some parent \<Rightarrow> (case real_path (w_fs w) parent of Inl _ \<Rightarrow> None
         | Inr d \<Rightarrow> map_option (\<lambda>leaf. d @ [leaf]) (abs_file_name joined)))"
    using gone unfolding root_target_def Let_def j by simp
  have "(\<forall>p. r = Settled (Inr p) \<longrightarrow> root_target (w_fs w) path root = Some p) \<and>
    (r = ParentMissing \<longrightarrow> root_target (w_fs w) path root = None)"
  proof (cases "abs_parent joined")
    case None
    then show ?thesis using run by (auto simp: resolve_missing_leaf_def)
  next
    case (Some parent)
    obtain r1 w1 where can: "sys_canonicalize parent w = (r1, w1)" by fastforce
    show ?thesis
    proof (cases r1)
      case (Inr d)
      have "real_path (w_fs w) parent = Inr d" using can Inr canonicalize_Inr by blast
      then show ?thesis using run Some can Inr rt
        by (auto simp: resolve_missing_leaf_def Let_def split: if_splits option.splits)
    next
      case (Inl e)
      show ?thesis
      proof (cases "is_not_found e")
        case True
        have "real_path (w_fs w) parent = Inl ENOENT" using canonicalize_Inl can Inl True by blast
        then show ?thesis using run Some can Inl rt
          by (auto simp: resolve_missing_leaf_def split: if_splits prod.splits missing_parent.splits)
      next
        case False
        then show ?thesis using run Some can Inl by (auto simp: resolve_missing_leaf_def)
      qed
    qed
  qed
  then show "r = Settled (Inr p) \<Longrightarrow> root_target (w_fs w) path root = Some p"
    and "r = ParentMissing \<Longrightarrow> root_target (w_fs w) path root = None" by auto
qed

lemma resolve_root_target:
  assumes run: "resolve_root path root w = (r, w')"
  shows "r = Settled (Inr p) \<Longrightarrow> root_target (w_fs w) path root = Some p"
    and "r = ParentMissing \<Longrightarrow> root_target (w_fs w) path root = None"
proof -
  let ?j = "root @ split_path path"
  obtain r1 w1 where can: "sys_canonicalize ?j w = (r1, w1)" by fastforce
  have fs1: "w_fs w1 = w_fs w" using canonicalize_same [OF can] by (rule same_treeD)
  have "(\<forall>p. r = Settled (Inr p) \<longrightarrow> root_target (w_fs w) path root = Some p) \<and>
    (r = ParentMissing \<longrightarrow> root_target (w_fs w) path root = None)"
  proof (cases r1)
    case (Inr c)
    have "real_path (w_fs w) ?j = Inr c" using can Inr canonicalize_Inr by blast
    then show ?thesis using run can Inr
      by (auto simp: resolve_root_def root_target_def Let_def split: if_splits)
  next
    case (Inl e)
    show ?thesis
    proof (cases "is_not_found e")
      case True
      have gone: "real_path (w_fs w1) ?j = Inl ENOENT"
        using canonicalize_Inl can Inl True fs1 by metis
      have "resolve_missing_leaf path root ?j w1 = (r, w')"
        using run can Inl True by (simp add: resolve_root_def Let_def)
      from resolve_missing_leaf_target [OF this gone refl] show ?thesis by (simp add: fs1)
    next
      case False
      then show ?thesis using run can Inl by (auto simp: resolve_root_def Let_def)
    qed
  qed
  then show "r = Settled (Inr p) \<Longrightarrow> root_target (w_fs w) path root = Some p"
    and "r = ParentMissing \<Longrightarrow> root_target (w_fs w) path root = None" by auto
qed

lemma resolve_roots_target:
  "resolve_roots path roots b w = (Inr p, w') \<Longrightarrow> first_target (w_fs w) path roots = Some p"
proof (induction path roots b w rule: resolve_roots.induct)
  case (2 path root roots b w)
  obtain o1 w1 where rr: "resolve_root path root w = (o1, w1)" by fastforce
  note tgt = resolve_root_target [OF rr]
  show ?case
  proof (cases o1)
    case (Settled r1)
    then show ?thesis using "2.prems" rr tgt(1) by simp
  next
    case ParentMissing
    have "w_fs w1 = w_fs w" using resolve_root_spec(1) [OF rr] by (rule same_treeD)
    then show ?thesis using "2.IH" [OF rr [symmetric] ParentMissing] "2.prems" rr ParentMissing tgt(2)
      by simp
  qed
qed (simp split: if_splits)

lemma resolve_parent_roots_target:
  "resolve_parent_roots path parent leaf roots b w = (Inr p, w') \<Longrightarrow>
     first_entry (w_fs w) parent leaf roots = Some p"
proof (induction path parent leaf roots b w rule: resolve_parent_roots.induct)
  case (2 path parent leaf root roots b w)
  let ?j = "if parent = [] then root else root @ parent"
  obtain r1 w1 where can: "sys_canonicalize ?j w = (r1, w1)" by fastforce
  have fs1: "w_fs w1 = w_fs w" using canonicalize_same [OF can] by (rule same_treeD)
  show ?case
  proof (cases r1)
    case (Inr d)
    have "real_path (w_fs w) ?j = Inr d" using can Inr canonicalize_Inr by blast
    then show ?thesis using "2.prems" can Inr by (auto simp: Let_def split: if_splits)
  next
    case (Inl e)
    have nf: "is_not_found e" using "2.prems" can Inl by (auto split: if_splits)
    have "real_path (w_fs w) ?j = Inl ENOENT" using canonicalize_Inl can Inl nf by blast
    moreover have "first_entry (w_fs w1) parent leaf roots = Some p"
      using "2.IH" [OF can [symmetric] Inl nf] "2.prems" can Inl nf by simp
    ultimately show ?thesis by (simp add: fs1)
  qed
qed (simp split: if_splits)

lemma resolve_target: "fs_resolve cfg path w = (Inr p, w') \<Longrightarrow> target True cfg (w_fs w) path = Some p"
  using resolve_roots_target by (auto simp: fs_resolve_def bindM_Inr target_def follow_target_def)

lemma resolve_no_follow_target:
  "fs_resolve_no_follow cfg path w = (Inr p, w') \<Longrightarrow> target False cfg (w_fs w) path = Some p"
  using resolve_parent_roots_target
  by (fastforce simp: fs_resolve_no_follow_def bindM_Inr target_def entry_target_def Let_def
      split: option.splits if_splits)

section \<open>Every operation only extends the history\<close>

lemma extends_tree_call: "extends.obeys (tree_call f)"
  unfolding tree_call_def
  by (rule extends.obeys_syscall) (auto simp: extends_def split: sum.splits)

lemma extends_write_all: "extends.obeys (sys_write_all p data)"
  by (rule extends.obeysI)
    (auto simp: sys_write_all_def Let_def extends_def split: option.splits)

lemma extends_calls:
  "extends.obeys (sys_mkdir raw)" "extends.obeys (sys_create_new raw)" "extends.obeys (sys_unlink raw)"
  "extends.obeys (sys_rmdir raw)" "extends.obeys (sys_rename src dst)"
  "extends.obeys (sys_renameat2_noreplace src dst)"
  by (simp_all add: extends_tree_call sys_mkdir_def sys_create_new_def sys_unlink_def sys_rmdir_def
      sys_rename_def sys_renameat2_noreplace_def)

lemma extends_io: "extends.obeys m \<Longrightarrow> extends.obeys (io m)"
  unfolding io_def by (rule extends.obeys_map_err)

lemmas extends_looking = obeys_looking [THEN extends.obeys_same]

lemma extends_rename_noreplace: "extends.obeys (rename_noreplace src dst)"
  unfolding rename_noreplace_def by (intro extends.obeys_intros extends_calls)

lemma extends_create_temp: "extends.obeys (create_temp d n)"
  by (induction n) (auto simp: Let_def simp del: okM_run failM_run
      intro!: extends.obeys_intros extends_calls extends_looking)

lemma extends_atomic_commit: "extends.obeys (atomic_commit d p content b)"
  unfolding atomic_commit_def write_and_rename_def
  by (intro extends.obeys_intros extends_create_temp extends_io extends_write_all extends_calls
      extends_looking extends_rename_noreplace)

lemma extends_write_file: "extends.obeys (fs_write_file bl cfg path content overwrite expected)"
  unfolding fs_write_file_def
  by (auto simp del: okM_run failM_run split: option.split
      intro!: extends.obeys_intros extends_atomic_commit extends_io extends_looking
        extends.obeys_same [OF obeys_resolve] extends.obeys_same [OF obeys_check_target])

lemma extends_rename_path: "extends.obeys (fs_rename_path bl cfg src dst)"
  unfolding fs_rename_path_def
  by (intro extends.obeys_intros extends_rename_noreplace extends_io extends_looking
      extends.obeys_same [OF obeys_resolve_no_follow] extends.obeys_same [OF obeys_hashed_metadata])

lemma extends_delete_path: "extends.obeys (fs_delete_path cfg path)"
  unfolding fs_delete_path_def
  by (intro extends.obeys_intros extends_calls extends_io extends_looking
      extends.obeys_same [OF obeys_resolve_no_follow])

lemma obeys_path_is_dir: "path_is_dir p w = (b, w') \<Longrightarrow> same_tree w w'"
  using same_tree.obeysD [OF obeys_stat] by (auto simp: path_is_dir_def split: prod.splits sum.splits)

lemma obeys_ensure_existing: "same_tree.obeys (ensure_existing path root fin cur meta)"
  unfolding ensure_existing_def
  by (intro same_tree.obeys_intros obeys_io obeys_looking)
    (auto intro!: same_tree.obeysI dest: obeys_path_is_dir split: prod.splits if_splits)

lemma extends_ensure_loop: "extends.obeys (ensure_loop path root cur names)"
  by (induction names arbitrary: cur)
    (auto simp: ensure_step_def ensure_missing_def simp del: okM_run failM_run
      intro!: extends.obeys_intros extends_calls extends_io extends_looking
        extends.obeys_same [OF obeys_ensure_existing])

lemma extends_create_directory: "extends.obeys (fs_create_directory cfg path)"
  unfolding fs_create_directory_def ensure_dir_under_root_def
  by (auto simp del: okM_run failM_run liftM_run split: list.split
      intro!: extends.obeys_intros extends_ensure_loop extends_io extends_looking)

section \<open>The effect of each operation\<close>

text \<open>
  Committing a file touches the target and fresh temporary names beside it.
\<close>

definition write_footprint :: "tree \<Rightarrow> fpath \<Rightarrow> fpath \<Rightarrow> bool" where
  "write_footprint t p q \<longleftrightarrow> q = p \<or> is_temp (butlast p) q \<and> hm_get t q = None"

lemma atomic_commit_footprint:
  assumes run: "atomic_commit d (d @ [c]) content b w = (r, w')"
    and good: "good {d} {} (w_fs w)" and c: "normal_name c"
  shows "confined (write_footprint (w_fs w) (d @ [c])) w w'"
  using atomic_commit_run [OF run good]
proof
  assume "\<exists>e. r = Inl e \<and> same_tree w w'"
  then show ?thesis using good confined_same by (auto simp: good_def)
next
  let ?A = "write_footprint (w_fs w) (d @ [c])"
  assume "\<exists>a w2 h. normal_name a \<and> is_temp d (d @ [a]) \<and> hm_get (w_fs w) (d @ [a]) = None \<and>
       w_hist w2 = w_hist w @ h \<and>
       (\<forall>t \<in> set (w_fs w2 # h). good {d} {d @ [a]} t \<and> agree_outside (\<lambda>q. q = d @ [a]) (w_fs w) t) \<and>
       ((\<exists>e. r = Inl e \<and> same_tree w2 w') \<or>
        (r = Inr () \<and> hm_get (w_fs w2) (d @ [a]) = Some (NFile content) \<and>
         t_rename b (d @ [a]) (d @ [c]) (w_fs w2) = Inr (w_fs w') \<and> w_hist w' = w_hist w2 @ [w_fs w']))"
  then obtain a w2 h where a: "normal_name a" and h: "w_hist w2 = w_hist w @ h"
    and A: "?A (d @ [a])"
    and ht: "\<forall>t \<in> set (w_fs w2 # h). good {d} {d @ [a]} t \<and> agree_outside (\<lambda>q. q = d @ [a]) (w_fs w) t"
    and out: "same_tree w2 w' \<or> (hm_get (w_fs w2) (d @ [a]) = Some (NFile content) \<and>
         t_rename b (d @ [a]) (d @ [c]) (w_fs w2) = Inr (w_fs w') \<and> w_hist w' = w_hist w2 @ [w_fs w'])"
    by (auto simp: write_footprint_def)
  have c2: "confined ?A w w2"
    using h ht A agree_mono [of "\<lambda>q. q = d @ [a]" "w_fs w" _ ?A]
    by (fastforce simp: confined_def good_def)
  have g2: "good {d} {d @ [a]} (w_fs w2)" using ht by simp
  have "confined ?A w2 w'"
    using out
  proof
    assume ok: "hm_get (w_fs w2) (d @ [a]) = Some (NFile content) \<and>
         t_rename b (d @ [a]) (d @ [c]) (w_fs w2) = Inr (w_fs w') \<and> w_hist w' = w_hist w2 @ [w_fs w']"
    have "wf_tree (w_fs w') \<and> agree_outside ?A (w_fs w2) (w_fs w')"
    proof (cases "a = c")
      case True
      then have "w_fs w' = w_fs w2" using ok by (auto simp: t_rename_Inr)
      then show ?thesis using g2 by (simp add: good_def agree_refl)
    next
      case False
      have "?A (d @ [c])" by (simp add: write_footprint_def)
      then have "q \<noteq> d @ [a] \<and> q \<noteq> d @ [c]" if "\<not> ?A q" for q using that A by blast
      then show ?thesis using commit_rename [OF g2 a c False, of content b "w_fs w'"] ok
        unfolding agree_outside_def by blast
    qed
    then show ?thesis using ok by (simp add: confined_def)
  qed (use confined_same g2 in \<open>auto simp: good_def\<close>)
  then show ?thesis using c2 confined_trans by blast
qed

lemma confined_wider:
  assumes "same_tree u v" and "confined A v w" and "wf_tree (w_fs u)"
  shows "confined A u w"
  using confined_trans [OF confined_same [OF assms(3,1)] assms(2)] .

lemma write_file_effect:
  assumes wf: "wf_tree (w_fs w)" and ok: "cfg_ok cfg"
    and run: "fs_write_file bl cfg path content overwrite expected w = (r, w')"
  shows "same_tree w w' \<or>
    (\<exists>p. target True cfg (w_fs w) path = Some p \<and> inside cfg p \<and>
       confined (write_footprint (w_fs w) p) w w')"
  using write_file_run [OF assms]
proof
  assume "\<exists>d c w1 w3. fs_resolve cfg path w = (Inr (d @ [c]), w1) \<and>
       length content \<le> fc_max_file_bytes cfg \<and> writable bl cfg (w_fs w) d c overwrite expected \<and>
       same_tree w w3 \<and> commit_stage bl d (d @ [c]) content (\<not> overwrite) w3 = (r, w')"
  then obtain d c w1 w3 where res: "fs_resolve cfg path w = (Inr (d @ [c]), w1)"
    and wr: "writable bl cfg (w_fs w) d c overwrite expected" and s: "same_tree w w3"
    and com: "commit_stage bl d (d @ [c]) content (\<not> overwrite) w3 = (r, w')" by blast
  have u: "under_roots cfg d" and nc: "normal_name c" and good: "good {d} {} (w_fs w3)"
    using wr wf same_treeD [OF s] by (auto simp: writable_def good_def)
  obtain g w4 where com4: "atomic_commit d (d @ [c]) content (\<not> overwrite) w3 = (g, w4)"
    and s4: "same_tree w4 w'"
    using commit_stage_run [OF com] by blast
  have "confined (write_footprint (w_fs w) (d @ [c])) w3 w4"
    using atomic_commit_footprint [OF com4 good nc] same_treeD [OF s] by simp
  moreover from this have "confined (write_footprint (w_fs w) (d @ [c])) w4 w'"
    using confined_same [OF _ s4] confined_wf by blast
  ultimately have "confined (write_footprint (w_fs w) (d @ [c])) w w'"
    using confined_wider [OF s _ wf] confined_trans by blast
  then show ?thesis using resolve_target [OF res] inside_entry [OF u] by blast
qed blast

lemma delete_effect:
  assumes wf: "wf_tree (w_fs w)" and run: "fs_delete_path cfg path w = (r, w')"
  shows "same_tree w w' \<or>
    (\<exists>p. target False cfg (w_fs w) path = Some p \<and> inside cfg p \<and> confined (\<lambda>q. q = p) w w')"
  using delete_run [OF assms]
proof
  assume "\<exists>p w1. r = Inr () \<and> fs_resolve_no_follow cfg path w = (Inr p, w1) \<and>
       entry_found cfg (w_fs w) p \<and> removed p w w'"
  then obtain p w1 where res: "fs_resolve_no_follow cfg path w = (Inr p, w1)"
    and ef: "entry_found cfg (w_fs w) p" and rm: "removed p w w'" by blast
  have "\<not> is_dir_node (w_fs w) p \<or> is_empty_dir (w_fs w) p"
    using rm by (auto simp: removed_def deletable_def is_dir_node_iff)
  then have "wf_tree (w_fs w')"
    using wf_tree_remove [OF wf, of p] rm ef by (auto simp: entry_found_def removed_def)
  then have "confined (\<lambda>q. q = p) w w'"
    using rm by (auto simp: confined_def removed_def agree_outside_def)
  moreover have "inside cfg p" using ef inside_entry by (auto simp: entry_found_def)
  ultimately show ?thesis using resolve_no_follow_target [OF res] by blast
qed blast

lemma rename_effect:
  assumes wf: "wf_tree (w_fs w)" and run: "fs_rename_path bl cfg src dst w = (r, w')"
  shows "same_tree w w' \<or>
    (\<exists>s d. target False cfg (w_fs w) src = Some s \<and> target False cfg (w_fs w) dst = Some d \<and>
       inside cfg s \<and> inside cfg d \<and> confined (\<lambda>q. prefix s q \<or> prefix d q) w w')"
  using rename_run [OF assms]
proof
  assume "\<exists>s d w1 w2 w3. fs_resolve_no_follow cfg src w = (Inr s, w1) \<and>
       fs_resolve_no_follow cfg dst w1 = (Inr d, w2) \<and> entry_found cfg (w_fs w) s \<and>
       renamed s d w w3 \<and> same_tree w3 w' \<and>
       (\<exists>e c. d = e @ [c] \<and> is_dir_node (w_fs w) e \<and> under_roots cfg e)"
  then obtain s d w1 w2 w3 where res: "fs_resolve_no_follow cfg src w = (Inr s, w1)"
    "fs_resolve_no_follow cfg dst w1 = (Inr d, w2)" and ef: "entry_found cfg (w_fs w) s"
    and rn: "renamed s d w w3" and s3: "same_tree w3 w'" and u: "\<exists>e c. d = e @ [c] \<and> under_roots cfg e"
    by blast
  have disj: "\<not> prefix d s" "\<not> prefix s d" using rn by (auto simp: renamed_def)
  have get: "hm_get (w_fs w3) q = hm_get (w_fs w) q" if "\<not> prefix s q" "\<not> prefix d q" for q
    using that move_tree_get_disjoint [OF wf_tree_ok [OF wf] disj] rn by (simp add: renamed_def)
  have "confined (\<lambda>q. prefix s q \<or> prefix d q) w w3"
    using rn get by (auto simp: confined_def renamed_def agree_outside_def)
  then have "confined (\<lambda>q. prefix s q \<or> prefix d q) w w'"
    using confined_same [OF _ s3] confined_wf confined_trans by blast
  moreover have "inside cfg s" "inside cfg d"
    using ef u inside_entry by (auto simp: entry_found_def)
  moreover have "target False cfg (w_fs w) dst = Some d"
    using resolve_no_follow_target [OF res(2)] same_treeD [OF resolve_no_follow_spec(1) [OF res(1)]] by simp
  ultimately show ?thesis using resolve_no_follow_target [OF res(1)] by blast
qed blast

lemma create_directory_effect:
  assumes wf: "wf_tree (w_fs w)" and roots: "fc_allowed_roots cfg = root # others"
    and dir: "is_dir_node (w_fs w) root" and run: "fs_create_directory cfg path w = (r, w')"
  shows "only_adds root w w'"
proof -
  obtain g w1 where en: "ensure_dir_under_root cfg path w = (g, w1)" by fastforce
  have "only_adds root w w1" using ensure_dir_spec [OF wf roots dir en] by blast
  moreover have "same_tree w1 w'"
    using run en same_tree.obeysD [OF obeys_io [OF obeys_stat]]
    by (cases g) (auto simp: fs_create_directory_def bindM_def same_tree.R_refl split: prod.splits sum.splits)
  ultimately show ?thesis using only_adds.R_trans only_adds.R_same by blast
qed

end
