(* ===== verification/HandlerEffects.thy ===== *)
theory HandlerEffects
  imports HandlerFacts Targets SessionProps ProcProps
begin

text \<open>
  What a request may do, as a specification over the grants and the denotation of paths, and the
  proof that the handlers do nothing else.
\<close>

section \<open>Handlers that only look\<close>

definition looks :: "daemon_state \<times> world \<Rightarrow> daemon_state \<times> world \<Rightarrow> bool" where
  "looks s s' \<longleftrightarrow> fst s' = fst s \<and> same_tree (snd s) (snd s')"

interpretation look: handler_relation looks
proof
  show "looks s s" for s by (simp add: looks_def same_tree.R_refl)
  show "looks s u" if "looks s t" "looks t u" for s t u
    using that same_tree.R_trans unfolding looks_def by metis
qed

lemma look_fs: "same_tree.obeys m \<Longrightarrow> look.keeps (fsH h m)"
  by (rule look.keepsI) (auto simp: fsH_run looks_def dest: same_tree.obeysD)

lemma look_rel: "look.keeps (fs_rel_for_grant fs path follow)"
  unfolding fs_rel_for_grant_def
  by (intro look.keeps_intros look_fs) (simp add: obeys_resolve obeys_resolve_no_follow)

lemma looks_quiet: "looks s s' \<Longrightarrow> no_effect s s'"
  by (auto simp: looks_def no_effect_def same_config_def)

lemma obeys_list_entries: "same_tree.obeys (list_entries path dir names entries)"
  by (induction names arbitrary: entries)
    (auto simp del: okM_run intro!: same_tree.obeys_intros obeys_io obeys_looking)

lemma obeys_readers:
  "same_tree.obeys (fs_read_file bl cfg path)"
  "same_tree.obeys (fs_list_directory cfg path)"
  "same_tree.obeys (fs_file_metadata bl cfg path)"
  unfolding fs_read_file_def fs_list_directory_def fs_file_metadata_def
  by (intro same_tree.obeys_intros obeys_io obeys_looking obeys_resolve obeys_list_entries
      obeys_hashed_metadata)+

text \<open>A stage that only looks, followed by the rest of the handler.\<close>

lemma guarded:
  assumes "look.keeps m" and "bindH m f s = (r, s')"
  obtains (stopped) "looks s s'" "\<exists>e. r = Inl e"
  | (passed) x s1 where "m s = (Inr x, s1)" "looks s s1" "f x s1 = (r, s')"
  using assms(2)
proof (cases rule: bindH_cases)
  case (stop e)
  then show ?thesis using stopped look.keepsD [OF assms(1)] by blast
next
  case (go x s1)
  then show ?thesis using passed look.keepsD [OF assms(1)] by blast
qed

section \<open>What the checks establish\<close>

definition has_grant :: "daemon_state \<Rightarrow> caller option \<Rightarrow> (grant list \<Rightarrow> bool) \<Rightarrow> bool" where
  "has_grant st caller P \<longleftrightarrow> ds_grants st = None \<or>
     (\<exists>table c gs. ds_grants st = Some table \<and> caller = Some c \<and>
        grants_for table (ca_fingerprint c) = Some gs \<and> P gs)"

lemma grant_lists_empty [simp]:
  "\<not> grants_allow_fs [] kind rel" "\<not> grants_allow_exec [] program"
  "\<not> grants_allow_inspect []" "\<not> grants_allow_terminate []"
  by (simp_all add: grants_allow_fs_def grants_allow_exec_def grants_allow_inspect_def
      grants_allow_terminate_def)

lemma grant_checks:
  "check_fs_grant st caller kind rel = Inr () \<longleftrightarrow>
     has_grant st caller (\<lambda>gs. grants_allow_fs gs kind rel)"
  "check_exec_grant st caller program = Inr () \<longleftrightarrow>
     has_grant st caller (\<lambda>gs. grants_allow_exec gs program)"
  "check_inspect_grant st caller = Inr () \<longleftrightarrow> has_grant st caller grants_allow_inspect"
  "check_terminate_grant st caller = Inr () \<longleftrightarrow> has_grant st caller grants_allow_terminate"
  by (auto simp: check_fs_grant_def check_exec_grant_def check_inspect_grant_def
      check_terminate_grant_def effective_grants_def has_grant_def Let_def split: option.splits)

definition known_principal :: "daemon_state \<Rightarrow> caller option \<Rightarrow> bool" where
  "known_principal st caller \<longleftrightarrow>
     (\<forall>table. ds_grants st = Some table \<longrightarrow>
        (\<exists>c. caller = Some c \<and> grants_is_known table (ca_fingerprint c)))"

lemma deny_iff: "deny_unknown_principal st caller =
    (if known_principal st caller then Inr () else Inl unknown_principal)"
  by (auto simp: deny_unknown_principal_def known_principal_def Let_def split: option.splits)

lemma stages_Inr:
  "validH v s = (Inr u, s1) \<longleftrightarrow> v = Inr () \<and> s1 = s"
  "require_fs env s = (Inr fs, s1) \<longleftrightarrow>
     env = ds_environment_id (fst s) \<and> ds_fs (fst s) = Some fs \<and> s1 = s"
  "denyH caller s = (Inr u, s1) \<longleftrightarrow> known_principal (fst s) caller \<and> s1 = s"
  "grantH caller kind rel s = (Inr u, s1) \<longleftrightarrow>
     has_grant (fst s) caller (\<lambda>gs. grants_allow_fs gs kind rel) \<and> s1 = s"
  by (auto simp: validH_def require_fs_def denyH_def grantH_def deny_iff grant_checks [symmetric]
      mapE_def ok_or_def split: sum.splits option.splits if_splits)

definition may :: "daemon_state \<Rightarrow> caller option \<Rightarrow> fs_grant_kind \<Rightarrow> filesystem_config \<Rightarrow> fpath \<Rightarrow> bool" where
  "may st caller kind fs p \<longleftrightarrow>
     (\<exists>rel. fs_relativize fs p = Some rel \<and> has_grant st caller (\<lambda>gs. grants_allow_fs gs kind rel))"

lemma rel_Inr:
  assumes "fs_rel_for_grant fs path follow s = (Inr rel, s1)"
  shows "looks s s1 \<and> (\<exists>p. target follow fs (w_fs (snd s)) path = Some p \<and> fs_relativize fs p = Some rel)"
proof -
  have "\<exists>p w1. (if follow then fs_resolve fs path else fs_resolve_no_follow fs path) (snd s) = (Inr p, w1) \<and>
      fs_relativize fs p = Some rel"
    using assms
    by (fastforce simp: fs_rel_for_grant_def bindH_Inr fsH_run ok_or_def split: option.splits if_splits
        dest!: sym [where s = "Inr _"])
  then show ?thesis
    using look.keepsD [OF look_rel assms] resolve_target resolve_no_follow_target
    by (auto split: if_splits)
qed

section \<open>What a request may do\<close>

text \<open>
  Every effect on the machine that the grants allow: nothing; a write of the file the path denotes;
  new directories below the primary root (authorized on the lexical path); moving an entry between
  two granted names; removing the entry the path denotes; and starting an allowed program for a
  session the caller may use.
\<close>

inductive permitted :: "daemon_state \<Rightarrow> caller option \<Rightarrow> rpc_request \<Rightarrow> world \<Rightarrow> world \<Rightarrow> bool"
  for st :: daemon_state and caller :: "caller option" where
  nothing: "same_tree w w' \<Longrightarrow> permitted st caller req w w'"
| change: "ds_fs st = Some fs \<Longrightarrow> target True fs (w_fs w) (wf_path q) = Some p \<Longrightarrow> inside fs p \<Longrightarrow>
     may st caller GWrite fs p \<Longrightarrow> confined (write_footprint (w_fs w) p) w w' \<Longrightarrow> extends w w' \<Longrightarrow>
     permitted st caller (WriteFile q) w w'"
| mkdir: "ds_fs st = Some fs \<Longrightarrow> fc_allowed_roots fs = root # others \<Longrightarrow>
     fs_creation_rel fs (cd_path q) = Inr rel \<Longrightarrow>
     has_grant st caller (\<lambda>gs. grants_allow_fs gs GWrite rel) \<Longrightarrow> only_adds root w w' \<Longrightarrow>
     extends w w' \<Longrightarrow> permitted st caller (CreateDirectory q) w w'"
| move: "ds_fs st = Some fs \<Longrightarrow> target False fs (w_fs w) (rn_src q) = Some s \<Longrightarrow>
     target False fs (w_fs w) (rn_dst q) = Some d \<Longrightarrow> inside fs s \<Longrightarrow> inside fs d \<Longrightarrow>
     may st caller GWrite fs s \<Longrightarrow> may st caller GWrite fs d \<Longrightarrow>
     confined (\<lambda>p. prefix s p \<or> prefix d p) w w' \<Longrightarrow> extends w w' \<Longrightarrow>
     permitted st caller (RenameReq q) w w'"
| remove: "ds_fs st = Some fs \<Longrightarrow> target False fs (w_fs w) (dl_path q) = Some p \<Longrightarrow> inside fs p \<Longrightarrow>
     may st caller GWrite fs p \<Longrightarrow> confined (\<lambda>x. x = p) w w' \<Longrightarrow> extends w w' \<Longrightarrow>
     permitted st caller (DeleteFile q) w w'"
| spawn: "ds_proc st = Some pm \<Longrightarrow> ds_sessions st = Some sm \<Longrightarrow>
     session_of sm (ex_session_id q) = Some info \<Longrightarrow> owner_permits (si_owner info) (fp_of caller) \<Longrightarrow>
     \<not> session_stale sm (ex_session_id q) w \<Longrightarrow>
     check_policy (pm_config pm) (ex_program q) = Inr () \<Longrightarrow>
     has_grant st caller (\<lambda>gs. grants_allow_exec gs (ex_program q)) \<Longrightarrow>
     w_fs w' = w_fs w \<Longrightarrow> w_hist w' = w_hist w \<Longrightarrow>
     w_spawned w' = w_spawned w @ [cmd] \<Longrightarrow> cmd_program cmd = ex_program q \<Longrightarrow>
     cmd_args cmd = ex_args q \<Longrightarrow>
     cmd_env cmd = merge_session_env (si_env_vars info) (ex_env_vars q) \<Longrightarrow>
     permitted st caller (Execute q) w w'"

text \<open>The configuration the daemon was started with.\<close>

definition fs_ready :: "daemon_state \<Rightarrow> world \<Rightarrow> bool" where
  "fs_ready st w \<longleftrightarrow> wf_tree (w_fs w) \<and>
     (\<forall>fs. ds_fs st = Some fs \<longrightarrow> cfg_ok fs \<and> (\<forall>root \<in> set (fc_allowed_roots fs). is_dir_node (w_fs w) root))"

lemma fs_tail:
  "bindH (fsH h m) (\<lambda>x. okH (f x)) s = (r, s') \<Longrightarrow> fst s' = fst s \<and> (\<exists>r0. m (snd s) = (r0, snd s'))"
  by (auto simp: bindH_def fsH_def split: prod.splits sum.splits)

lemma extends_wider: "same_tree u v \<Longrightarrow> extends v w \<Longrightarrow> extends u w"
  using extends.R_trans extends.R_same by blast

lemma looks_permitted: "looks s s' \<Longrightarrow> permitted st caller req (snd s) (snd s')"
  by (rule permitted.nothing) (simp add: looks_def)

lemma look_stages:
  "look.keeps (validH v)" "look.keeps (require_fs env)" "look.keeps (denyH caller)"
  "look.keeps (grantH caller kind rel)" "look.keeps (fs_rel_for_grant fs path follow)"
  by (intro look.keeps_intros look_rel)+

lemma rel_grant_prefix:
  assumes "bindH (fs_rel_for_grant fs path follow) (\<lambda>rel. bindH (grantH caller kind rel) (\<lambda>_. F)) s = (r, s')"
  shows "looks s s' \<or> (\<exists>p s1. looks s s1 \<and> target follow fs (w_fs (snd s)) path = Some p \<and>
      may (fst s) caller kind fs p \<and> F s1 = (r, s'))"
  using look_stages(5) assms
proof (cases rule: guarded)
  case (passed rel s1)
  note rel = rel_Inr [OF passed(1)]
  from look_stages(4) passed(3) show ?thesis
  proof (cases rule: guarded)
    case stopped
    then show ?thesis using passed(2) look.R_trans by blast
  next
    case again: (passed u s2)
    then have "s2 = s1" "has_grant (fst s1) caller (\<lambda>gs. grants_allow_fs gs kind rel)"
      by (simp_all add: stages_Inr)
    moreover have "fst s1 = fst s" using passed(2) by (simp add: looks_def)
    ultimately show ?thesis using rel again(3) unfolding may_def by metis
  qed
qed simp

lemma backend_prefix:
  assumes "bindH (require_fs env) (\<lambda>fs. bindH (denyH caller) (\<lambda>_. F fs)) s = (r, s')"
  shows "looks s s' \<or> (\<exists>fs. ds_fs (fst s) = Some fs \<and> known_principal (fst s) caller \<and> F fs s = (r, s'))"
  using look_stages(2) assms
proof (cases rule: guarded)
  case (passed fs s1)
  then have fs: "ds_fs (fst s) = Some fs" "s1 = s" by (simp_all add: stages_Inr)
  from look_stages(3) passed(3) show ?thesis
  proof (cases rule: guarded)
    case again: (passed u s2)
    then show ?thesis using fs by (auto simp: stages_Inr)
  qed (use fs in simp)
qed simp

lemma valid_prefix:
  assumes "bindH (validH v) (\<lambda>_. F) s = (r, s')"
  shows "looks s s' \<or> v = Inr () \<and> F s = (r, s')"
  using look_stages(1) assms by (cases rule: guarded) (auto simp: stages_Inr)

lemma grant_prefix:
  assumes "bindH (grantH caller kind rel) (\<lambda>_. F) s = (r, s')"
  shows "looks s s' \<or> has_grant (fst s) caller (\<lambda>gs. grants_allow_fs gs kind rel) \<and> F s = (r, s')"
  using look_stages(4) assms by (cases rule: guarded) (auto simp: stages_Inr)

lemma write_permitted:
  assumes run: "handle_write_file b3 caller q s = (r, s')" and ready: "fs_ready (fst s) (snd s)"
  shows "permitted (fst s) caller (WriteFile q) (snd s) (snd s')"
proof (cases "looks s s'")
  case False
  obtain fs p s1 where fs: "ds_fs (fst s) = Some fs" and l: "looks s s1"
    and p: "target True fs (w_fs (snd s)) (wf_path q) = Some p" "may (fst s) caller GWrite fs p"
    and op: "bindH (fsH (fs_error_to_rpc (wf_path q)) (fs_write_file b3 fs (wf_path q) (wf_content q)
       (wf_overwrite q) (wf_expected_hash q))) (\<lambda>metadata. okH \<lparr> wr_metadata = metadata \<rparr>) s1 = (r, s')"
    using run False unfolding handle_write_file_def
    by (auto dest!: valid_prefix backend_prefix rel_grant_prefix)
  obtain r0 where wr: "fs_write_file b3 fs (wf_path q) (wf_content q) (wf_overwrite q)
      (wf_expected_hash q) (snd s1) = (r0, snd s')"
    using fs_tail [OF op] by blast
  have st: "same_tree (snd s) (snd s1)" and tree: "w_fs (snd s1) = w_fs (snd s)"
    using l by (simp_all add: looks_def same_tree_def)
  have wf: "wf_tree (w_fs (snd s))" "cfg_ok fs" using ready fs by (auto simp: fs_ready_def)
  have wf1: "wf_tree (w_fs (snd s1))" using wf(1) tree by simp
  from write_file_effect [OF wf1 wf(2) wr] show ?thesis
  proof (elim disjE exE conjE)
    fix p0
    assume "target True fs (w_fs (snd s1)) (wf_path q) = Some p0" "inside fs p0"
      "confined (write_footprint (w_fs (snd s1)) p0) (snd s1) (snd s')"
    moreover have "extends (snd s) (snd s')"
      using extends_wider [OF st] extends.obeysD [OF extends_write_file wr] .
    ultimately show ?thesis
      using fs p tree confined_wider [OF st _ wf(1)] by (intro permitted.change [where fs = fs and p = p]) auto
  qed (use st same_tree.R_trans in \<open>auto intro: permitted.nothing\<close>)
qed (rule looks_permitted)

lemma delete_permitted:
  assumes run: "handle_delete_file caller q s = (r, s')" and ready: "fs_ready (fst s) (snd s)"
  shows "permitted (fst s) caller (DeleteFile q) (snd s) (snd s')"
proof (cases "looks s s'")
  case False
  obtain fs p s1 where fs: "ds_fs (fst s) = Some fs" and l: "looks s s1"
    and p: "target False fs (w_fs (snd s)) (dl_path q) = Some p" "may (fst s) caller GWrite fs p"
    and op: "bindH (fsH (fs_error_to_rpc (dl_path q)) (fs_delete_path fs (dl_path q)))
       (\<lambda>_. okH \<lparr> dlr_deleted = True \<rparr>) s1 = (r, s')"
    using run False unfolding handle_delete_file_def
    by (auto dest!: valid_prefix backend_prefix rel_grant_prefix)
  obtain r0 where del: "fs_delete_path fs (dl_path q) (snd s1) = (r0, snd s')"
    using fs_tail [OF op] by blast
  have st: "same_tree (snd s) (snd s1)" and tree: "w_fs (snd s1) = w_fs (snd s)"
    using l by (simp_all add: looks_def same_tree_def)
  have wf: "wf_tree (w_fs (snd s))" using ready by (simp add: fs_ready_def)
  then have wf1: "wf_tree (w_fs (snd s1))" using tree by simp
  from delete_effect [OF wf1 del] show ?thesis
  proof (elim disjE exE conjE)
    fix p0
    assume "target False fs (w_fs (snd s1)) (dl_path q) = Some p0" "inside fs p0"
      "confined (\<lambda>q. q = p0) (snd s1) (snd s')"
    moreover have "extends (snd s) (snd s')"
      using extends_wider [OF st] extends.obeysD [OF extends_delete_path del] .
    ultimately show ?thesis
      using fs p tree confined_wider [OF st _ wf] by (intro permitted.remove [where fs = fs and p = p]) auto
  qed (use st same_tree.R_trans in \<open>auto intro: permitted.nothing\<close>)
qed (rule looks_permitted)

lemma rename_permitted:
  assumes run: "handle_rename b3 caller q s = (r, s')" and ready: "fs_ready (fst s) (snd s)"
  shows "permitted (fst s) caller (RenameReq q) (snd s) (snd s')"
proof (cases "looks s s'")
  case False
  let ?op = "\<lambda>fs. bindH (fsH (fs_error_to_rpc (rn_src q @ '' -> '' @ rn_dst q))
       (fs_rename_path b3 fs (rn_src q) (rn_dst q))) (\<lambda>metadata. okH \<lparr> rnr_metadata = metadata \<rparr>)"
  obtain fs where fs: "ds_fs (fst s) = Some fs"
    and first: "bindH (fs_rel_for_grant fs (rn_src q) False) (\<lambda>rel. bindH (grantH caller GWrite rel) (\<lambda>_.
       bindH (fs_rel_for_grant fs (rn_dst q) False) (\<lambda>rel. bindH (grantH caller GWrite rel) (\<lambda>_. ?op fs)))) s = (r, s')"
    using run False unfolding handle_rename_def by (auto dest!: valid_prefix backend_prefix)
  obtain p s1 where l: "looks s s1"
    and p: "target False fs (w_fs (snd s)) (rn_src q) = Some p" "may (fst s) caller GWrite fs p"
    and rest: "bindH (fs_rel_for_grant fs (rn_dst q) False) (\<lambda>rel. bindH (grantH caller GWrite rel) (\<lambda>_. ?op fs)) s1 = (r, s')"
    using rel_grant_prefix [OF first] False by auto
  have same: "fst s1 = fst s" and tree1: "w_fs (snd s1) = w_fs (snd s)" and nl: "\<not> looks s1 s'"
    using l False look.R_trans by (auto simp: looks_def same_tree_def)
  obtain d s2 where l2: "looks s1 s2" and d: "target False fs (w_fs (snd s)) (rn_dst q) = Some d"
      "may (fst s) caller GWrite fs d" and op: "?op fs s2 = (r, s')"
    using rel_grant_prefix [OF rest] nl same tree1 by auto
  obtain r0 where ren: "fs_rename_path b3 fs (rn_src q) (rn_dst q) (snd s2) = (r0, snd s')"
    using fs_tail [OF op] fs by auto
  have st: "same_tree (snd s) (snd s2)" and tree: "w_fs (snd s2) = w_fs (snd s)"
    using look.R_trans [OF l l2] by (simp_all add: looks_def same_tree_def)
  have wf: "wf_tree (w_fs (snd s))" using ready by (simp add: fs_ready_def)
  then have wf2: "wf_tree (w_fs (snd s2))" using tree by simp
  from rename_effect [OF wf2 ren] show ?thesis
  proof (elim disjE exE conjE)
    fix s0 d0
    assume "target False fs (w_fs (snd s2)) (rn_src q) = Some s0" "target False fs (w_fs (snd s2)) (rn_dst q) = Some d0"
      "inside fs s0" "inside fs d0" "confined (\<lambda>q. prefix s0 q \<or> prefix d0 q) (snd s2) (snd s')"
    moreover have "extends (snd s) (snd s')"
      using extends_wider [OF st] extends.obeysD [OF extends_rename_path ren] .
    ultimately show ?thesis
      using fs p d tree confined_wider [OF st _ wf]
      by (intro permitted.move [where fs = fs and s = p and d = d]) auto
  qed (use st same_tree.R_trans in \<open>auto intro: permitted.nothing\<close>)
qed (rule looks_permitted)

lemma create_directory_permitted:
  assumes run: "handle_create_directory caller q s = (r, s')" and ready: "fs_ready (fst s) (snd s)"
  shows "permitted (fst s) caller (CreateDirectory q) (snd s) (snd s')"
proof (cases "looks s s'")
  case False
  obtain fs where fs: "ds_fs (fst s) = Some fs"
    and rest: "bindH (resultH (mapE (fs_error_to_rpc (cd_path q)) (fs_creation_rel fs (cd_path q))))
      (\<lambda>rel. bindH (grantH caller GWrite rel) (\<lambda>_.
       bindH (fsH (fs_error_to_rpc (cd_path q)) (fs_create_directory fs (cd_path q)))
         (\<lambda>metadata. okH \<lparr> cdr_metadata = metadata \<rparr>))) s = (r, s')"
    using run False unfolding handle_create_directory_def by (auto dest!: valid_prefix backend_prefix)
  obtain rel where rel: "fs_creation_rel fs (cd_path q) = Inr rel"
    using rest False by (cases "fs_creation_rel fs (cd_path q)") (auto simp: bindH_def looks_def same_tree.R_refl)
  have "bindH (grantH caller GWrite rel) (\<lambda>_.
       bindH (fsH (fs_error_to_rpc (cd_path q)) (fs_create_directory fs (cd_path q)))
         (\<lambda>metadata. okH \<lparr> cdr_metadata = metadata \<rparr>)) s = (r, s')"
    using rest rel by (simp add: bindH_run(1) [where x = rel])
  from grant_prefix [OF this] False have g: "has_grant (fst s) caller (\<lambda>gs. grants_allow_fs gs GWrite rel)"
    and op: "bindH (fsH (fs_error_to_rpc (cd_path q)) (fs_create_directory fs (cd_path q)))
         (\<lambda>metadata. okH \<lparr> cdr_metadata = metadata \<rparr>) s = (r, s')"
    by simp_all
  obtain r0 where mk: "fs_create_directory fs (cd_path q) (snd s) = (r0, snd s')"
    using fs_tail [OF op] by blast
  show ?thesis
  proof (cases "fc_allowed_roots fs")
    case Nil
    have "same_tree (snd s) (snd s')"
      using mk Nil by (auto simp: fs_create_directory_def ensure_dir_under_root_def bindM_def
          same_tree.R_refl split: sum.splits)
    then show ?thesis by (rule permitted.nothing)
  next
    case (Cons root others)
    have "wf_tree (w_fs (snd s))" "is_dir_node (w_fs (snd s)) root"
      using ready fs Cons by (auto simp: fs_ready_def)
    from create_directory_effect [OF this(1) Cons this(2) mk] show ?thesis
      using fs Cons rel g extends.obeysD [OF extends_create_directory mk] by (intro permitted.mkdir)
  qed
qed (rule looks_permitted)

section \<open>Starting a process\<close>

lemma clock_quiet: "system_time_now w = (t, w') \<Longrightarrow> same_tree w w'"
  by (auto simp: system_time_now_def same_tree_def)

lemma evict_expired_quiet:
  "evict_expired_terminal_entries heap table retention w = (t, w') \<Longrightarrow> same_tree w w'"
  by (auto simp: evict_expired_terminal_entries_def Let_def split: prod.splits dest: clock_quiet)

lemma make_room_quiet: "make_room_for_spawn heap config table w = (res, t, w') \<Longrightarrow> same_tree w w'"
  by (auto simp: make_room_for_spawn_def Let_def split: prod.splits if_splits dest: evict_expired_quiet)

lemma reserve_slot_quiet:
  assumes "reserve_slot pm env sid entry w = (res, t, w')"
  shows "same_tree w w'"
proof -
  let ?heap = "pm_entries pm" and ?config = "pm_config pm"
  obtain t1 w1 where e: "evict_expired_terminal_entries ?heap (pm_processes pm)
      (pc_retention_secs ?config) w = (t1, w1)" by fastforce
  obtain m t2 w2 where room: "make_room_for_spawn ?heap ?config t1 w1 = (m, t2, w2)"
    by (metis prod.collapse)
  obtain c w3 where draw: "fresh_id MAX_ID_ATTEMPTS alloc_process_id
      (\<lambda>c. hm_get t2 (env, sid, c) \<noteq> None) w2 = (c, w3)" by fastforce
  have 1: "same_tree w w1" using e by (rule evict_expired_quiet)
  have 2: "same_tree w w2" using 1 make_room_quiet [OF room] same_tree.R_trans by blast
  have 3: "same_tree w w3"
    using 2 same_tree.obeysD [OF proc_ids.fresh_quiet draw] same_tree.R_trans by blast
  note run = assms [unfolded reserve_slot_def Let_def e prod.case room draw]
  show ?thesis using run 1 2 3 by (auto split: if_splits sum.splits option.splits)
qed

lemma spawn_effect:
  assumes "sys_spawn cmd w = (res, w')"
  shows "same_tree w w' \<and> (\<exists>e. res = Inl e) \<or> res = Inr () \<and> w_spawned w' = w_spawned w @ [cmd] \<and>
    w_fs w' = w_fs w \<and> w_hist w' = w_hist w"
  using assms by (auto simp: sys_spawn_def syscall_def Let_def same_tree_def split: option.splits)

text \<open>A start that fails has no effect; one that succeeds has started exactly the command.\<close>

lemma start_process_effect:
  assumes run: "start_process pm req session w = (res, pm', w')"
  shows "same_tree w w' \<and> (\<exists>e. res = Inl e) \<or>
    (\<exists>pid dir. res = Inr pid \<and> w_fs w' = w_fs w \<and> w_hist w' = w_hist w \<and>
       w_spawned w' = w_spawned w @ [\<lparr> cmd_program = ex_program req, cmd_args = ex_args req,
         cmd_dir = dir, cmd_env = merge_session_env (si_env_vars session) (ex_env_vars req) \<rparr>])"
proof -
  obtain c w1 where checks: "start_checks pm req session w = (c, w1)" by fastforce
  have 1: "same_tree w w1" using same_tree.obeysD [OF start_checks_quiet checks] .
  show ?thesis
  proof (cases c)
    case (Inl e)
    then show ?thesis using run checks 1 by (auto simp: start_process_def)
  next
    case (Inr dir)
    obtain st w2 where clock: "system_time_now w1 = (st, w2)" by fastforce
    have 2: "same_tree w w2" using 1 clock_quiet [OF clock] same_tree.R_trans by blast
    let ?pm1 = "pm\<lparr> pm_entries := (pm_entries pm)(pm_next pm := new_entry (ex_program req) st),
      pm_next := Suc (pm_next pm) \<rparr>"
    let ?cmd = "\<lparr> cmd_program = ex_program req, cmd_args = ex_args req, cmd_dir = dir,
         cmd_env = merge_session_env (si_env_vars session) (ex_env_vars req) \<rparr>"
    obtain s table w3 where slot: "reserve_slot ?pm1 (ex_environment_id req) (ex_session_id req)
        (pm_next pm) w2 = (s, table, w3)" by (metis prod.collapse)
    have 3: "same_tree w w3" using 2 reserve_slot_quiet [OF slot] same_tree.R_trans by blast
    obtain g w4 where spawn: "sys_spawn ?cmd w3 = (g, w4)" by fastforce
    note run = run [unfolded start_process_def checks Inr prod.case sum.case clock Let_def slot spawn]
    have "(\<exists>e. res = Inl e) \<and> (w' = w2 \<or> w' = w3) \<or> w' = w4 \<and> (\<exists>e. res = Inl e) \<and> (\<exists>e. g = Inl e) \<or>
        w' = w4 \<and> (\<exists>pid. res = Inr pid) \<and> g = Inr ()"
      using run by (cases s; cases g) (auto split: if_splits)
    then show ?thesis using 2 3 spawn_effect [OF spawn] same_tree.R_trans [OF 3]
      by (elim disjE conjE exE) (auto simp: same_tree_def)
  qed
qed

section \<open>The session check\<close>

lemma get_owned_quiet: "get_owned sm sid fp w = (r, sm', w') \<Longrightarrow> same_tree w w'"
  using now_secs_quiet [of w] by (auto simp: get_owned_def split: prod.splits option.splits if_splits)

lemma list_owned_quiet: "list_owned sm env fp w = (r, sm', w') \<Longrightarrow> same_tree w w'"
  using now_secs_quiet [of w] by (auto simp: list_owned_def split: prod.splits if_splits)

lemma terminate_owned_quiet: "terminate_owned sm sid fp w = (r, sm', w') \<Longrightarrow> same_tree w w'"
  using now_secs_quiet [of w] by (auto simp: terminate_owned_def split: prod.splits option.splits if_splits)

lemma quiet_live: "quiet.keeps (require_live_session caller sid)"
  unfolding require_live_session_def split_beta
  by (intro quiet.keeps_intros quiet_kill quiet_sess) (auto simp: touch_owned_def dest: get_owned_quiet)

text \<open>The daemon after a successful check: the session's activity is bumped, nothing else changed.\<close>

definition touched :: "caller option \<Rightarrow> session_id \<Rightarrow> daemon_state \<times> world \<Rightarrow> session_info \<Rightarrow>
    daemon_state \<times> world \<Rightarrow> bool" where
  "touched caller sid s info' s1 \<longleftrightarrow>
     (\<exists>sm info. ds_sessions (fst s) = Some sm \<and> session_usable sm \<and> session_of sm sid = Some info \<and>
        owner_permits (si_owner info) (fp_of caller) \<and> \<not> session_stale sm sid (snd s) \<and>
        info' = info\<lparr> si_last_activity := fst (now_secs (snd s)) \<rparr> \<and>
        fst s1 = (fst s)\<lparr> ds_sessions := Some (bump_session sid info (fst (now_secs (snd s))) sm) \<rparr> \<and>
        same_tree (snd s) (snd s1))"

lemma live_Inr:
  assumes "require_live_session caller sid s = (Inr info', s1)"
  shows "touched caller sid s info' s1"
proof -
  obtain sm where sm: "ds_sessions (fst s) = Some sm"
    using assms by (cases "ds_sessions (fst s)")
      (auto simp: require_live_session_def bindH_Inr require_sessions_def)
  obtain rp sm' w' where run: "get_owned sm sid (fp_of caller) (snd s) = (rp, sm', w')"
    by (metis prod.collapse)
  obtain r p where rp: "rp = (r, p)" by fastforce
  have out: "r = Inr info'" "s1 = (kill_purged_best_effort p ((fst s)\<lparr> ds_sessions := Some sm' \<rparr>), w')"
    using assms sm run rp
    by (auto simp: require_live_session_def bindH_Inr require_sessions_def sessH_run touch_owned_def killH_def)
  from run [unfolded rp out(1)] show ?thesis
    by (cases rule: get_owned_cases)
      (use out sm get_owned_quiet [OF run] in \<open>auto simp: touched_def\<close>)
qed

section \<open>Handlers of processes\<close>

lemma quieted:
  assumes "quiet.keeps m" and "bindH m f s = (r, s')"
  obtains (stopped) "no_effect s s'" "\<exists>e. r = Inl e"
  | (passed) x s1 where "m s = (Inr x, s1)" "no_effect s s1" "f x s1 = (r, s')"
  using assms(2)
proof (cases rule: bindH_cases)
  case (stop e)
  then show ?thesis using stopped quiet.keepsD [OF assms(1)] by blast
next
  case (go x s1)
  then show ?thesis using passed quiet.keepsD [OF assms(1)] by blast
qed

lemma proc_prefix:
  assumes "bindH (require_proc env) (\<lambda>_. F) s = (r, s')"
  shows "looks s s' \<or> (\<exists>pm. ds_proc (fst s) = Some pm \<and> env = ds_environment_id (fst s) \<and> F s = (r, s'))"
  using assms look.R_refl
  by (auto simp: bindH_def require_proc_def split: if_splits)

lemma deny_prefix:
  assumes "bindH (denyH caller) (\<lambda>_. F) s = (r, s')"
  shows "looks s s' \<or> known_principal (fst s) caller \<and> F s = (r, s')"
  using look_stages(3) assms by (cases rule: guarded) (auto simp: stages_Inr)

lemma check_prefix:
  assumes "bindH (withH (\<lambda>st. resultH (c st))) (\<lambda>_. F) s = (r, s')"
  shows "looks s s' \<or> c (fst s) = Inr () \<and> F s = (r, s')"
  using assms look.R_refl by (auto simp: bindH_def split: sum.splits)

lemma policy_prefix:
  assumes "bindH (procH (\<lambda>pm w. (check_policy (pm_config pm) program, pm, w))) (\<lambda>_. F) s = (r, s')"
  shows "looks s s' \<or> (\<exists>pm. ds_proc (fst s) = Some pm \<and>
    check_policy (pm_config pm) program = Inr () \<and> F s = (r, s'))"
proof (cases "ds_proc (fst s)")
  case None
  then show ?thesis using assms look.R_refl by (auto simp: bindH_def procH_def)
next
  case (Some pm)
  then have same: "((fst s)\<lparr> ds_proc := Some pm \<rparr>, snd s) = s" by (cases s) simp
  show ?thesis
    using assms Some look.R_refl
    by (cases "check_policy (pm_config pm) program") (auto simp: bindH_def procH_def same)
qed

lemma live_prefix:
  assumes "bindH (live_in_environment caller sid env missing) F s = (r, s')"
  shows "no_effect s s' \<or> (\<exists>info' s1. touched caller sid s info' s1 \<and> si_environment_id info' = env \<and>
    F info' s1 = (r, s'))"
proof -
  have "quiet.keeps (live_in_environment caller sid env missing)"
    unfolding live_in_environment_def by (intro quiet.keeps_intros quiet_live)
  from this assms show ?thesis
  proof (cases rule: quieted)
    case (passed info' s1)
    then have "require_live_session caller sid s = (Inr info', s1) \<and> si_environment_id info' = env"
      by (auto simp: live_in_environment_def bindH_Inr split: if_splits)
    then show ?thesis using live_Inr passed(3) by blast
  qed simp
qed

lemma touched_quiet: "touched caller sid s info s1 \<Longrightarrow> no_effect s s1"
  by (auto simp: touched_def no_effect_def same_config_def)

lemma touched_fields:
  assumes "touched caller sid s info s1"
  shows "ds_proc (fst s1) = ds_proc (fst s)" "ds_grants (fst s1) = ds_grants (fst s)"
    "ds_environment_id (fst s1) = ds_environment_id (fst s)" "ds_fs (fst s1) = ds_fs (fst s)"
  using assms by (auto simp: touched_def)

lemma execute_run:
  assumes "handle_execute caller q s = (r, s')"
  shows "no_effect s s' \<or> (\<exists>pm info' s1. ds_proc (fst s) = Some pm \<and> ds_proc (fst s1) = Some pm \<and>
    ex_environment_id q = ds_environment_id (fst s) \<and>
    touched caller (ex_session_id q) s info' s1 \<and> si_environment_id info' = ex_environment_id q \<and>
    known_principal (fst s) caller \<and> execute_validate q = Inr () \<and>
    check_policy (pm_config pm) (ex_program q) = Inr () \<and>
    has_grant (fst s) caller (\<lambda>gs. grants_allow_exec gs (ex_program q)) \<and>
    bindH (procH (\<lambda>pm w. start_process pm q info' w)) (\<lambda>pid. okH \<lparr> exr_process_id = pid \<rparr>) s1 = (r, s'))"
proof (cases "no_effect s s'")
  case False
  have nl: "\<not> looks s s'" using False looks_quiet by blast
  let ?rest = "\<lambda>session. bindH (denyH caller) (\<lambda>_.
     bindH (validH (execute_validate q)) (\<lambda>_.
     bindH (procH (\<lambda>pm w. (check_policy (pm_config pm) (ex_program q), pm, w))) (\<lambda>_.
     bindH (withH (\<lambda>st. resultH (check_exec_grant st caller (ex_program q)))) (\<lambda>_.
     bindH (procH (\<lambda>pm w. start_process pm q session w)) (\<lambda>pid. okH \<lparr> exr_process_id = pid \<rparr>)))))"
  obtain pm where pm: "ds_proc (fst s) = Some pm" "ex_environment_id q = ds_environment_id (fst s)"
    and run: "bindH (live_in_environment caller (ex_session_id q) (ex_environment_id q)
       (unknown_session_rpc (ex_session_id q))) ?rest s = (r, s')"
    using proc_prefix [OF assms [unfolded handle_execute_def]] nl by blast
  obtain info' s1 where t: "touched caller (ex_session_id q) s info' s1"
    and e: "si_environment_id info' = ex_environment_id q" and rest: "?rest info' s1 = (r, s')"
    using live_prefix [OF run] False by blast
  have "\<not> looks s1 s'" using touched_quiet [OF t] False looks_quiet quiet.R_trans by blast
  then have "known_principal (fst s1) caller \<and> execute_validate q = Inr () \<and>
    (\<exists>pm. ds_proc (fst s1) = Some pm \<and> check_policy (pm_config pm) (ex_program q) = Inr ()) \<and>
    check_exec_grant (fst s1) caller (ex_program q) = Inr () \<and>
    bindH (procH (\<lambda>pm w. start_process pm q info' w)) (\<lambda>pid. okH \<lparr> exr_process_id = pid \<rparr>) s1 = (r, s')"
    using rest by (auto dest!: deny_prefix valid_prefix policy_prefix check_prefix)
  then have "known_principal (fst s) caller \<and> execute_validate q = Inr () \<and>
    check_policy (pm_config pm) (ex_program q) = Inr () \<and>
    has_grant (fst s) caller (\<lambda>gs. grants_allow_exec gs (ex_program q)) \<and>
    bindH (procH (\<lambda>pm w. start_process pm q info' w)) (\<lambda>pid. okH \<lparr> exr_process_id = pid \<rparr>) s1 = (r, s')"
    using pm touched_fields [OF t] by (simp add: grant_checks known_principal_def has_grant_def)
  then show ?thesis using pm t e touched_fields(1) [OF t]
    by (intro disjI2 exI [of _ pm] exI [of _ info'] exI [of _ s1]) simp
qed simp

lemma execute_permitted:
  assumes run: "handle_execute caller q s = (r, s')"
  shows "permitted (fst s) caller (Execute q) (snd s) (snd s')"
  using execute_run [OF run]
proof (elim disjE exE conjE)
  fix pm info' s1
  assume pm: "ds_proc (fst s) = Some pm" "ds_proc (fst s1) = Some pm"
    and t: "touched caller (ex_session_id q) s info' s1"
    and pol: "check_policy (pm_config pm) (ex_program q) = Inr ()"
    and g: "has_grant (fst s) caller (\<lambda>gs. grants_allow_exec gs (ex_program q))"
    and op: "bindH (procH (\<lambda>pm w. start_process pm q info' w)) (\<lambda>pid. okH \<lparr> exr_process_id = pid \<rparr>) s1 = (r, s')"
  obtain res pm' w' where st: "start_process pm q info' (snd s1) = (res, pm', w')" by (metis prod.collapse)
  have w': "snd s' = w'" using op st pm(2) by (cases res) (auto simp: bindH_def procH_def)
  obtain sm info where sess: "ds_sessions (fst s) = Some sm" "session_of sm (ex_session_id q) = Some info"
    "owner_permits (si_owner info) (fp_of caller)" "\<not> session_stale sm (ex_session_id q) (snd s)"
    and env: "si_env_vars info' = si_env_vars info" and l: "same_tree (snd s) (snd s1)"
    using t by (auto simp: touched_def)
  from start_process_effect [OF st] show ?thesis
  proof (elim disjE exE conjE)
    assume "same_tree (snd s1) w'"
    then show ?thesis using l w' same_tree.R_trans by (intro permitted.nothing) blast
  next
    fix pid dir
    assume "w_fs w' = w_fs (snd s1)" "w_hist w' = w_hist (snd s1)"
      "w_spawned w' = w_spawned (snd s1) @ [\<lparr> cmd_program = ex_program q, cmd_args = ex_args q,
         cmd_dir = dir, cmd_env = merge_session_env (si_env_vars info') (ex_env_vars q) \<rparr>]"
    then show ?thesis using l w' env
      by (intro permitted.spawn [OF pm(1) sess pol g]) (auto simp: same_tree_def)
  qed
qed (auto simp: no_effect_def intro: permitted.nothing)

section \<open>Handlers that leave the machine alone\<close>

definition still :: "daemon_state \<times> world \<Rightarrow> daemon_state \<times> world \<Rightarrow> bool" where
  "still s s' \<longleftrightarrow> same_tree (snd s) (snd s')"

interpretation calm: handler_relation still
  by unfold_locales (auto simp: still_def same_tree.R_refl intro: same_tree.R_trans)

lemma quiet_calm: "quiet.keeps m \<Longrightarrow> calm.keeps m"
  by (rule calm.keepsI) (auto simp: still_def no_effect_def dest: quiet.keepsD)

lemma calm_proc:
  assumes "\<And>pm w r pm' w'. f pm w = (r, pm', w') \<Longrightarrow> same_tree w w'"
  shows "calm.keeps (procH f)"
  by (rule calm.keepsI) (auto simp: procH_run still_def same_tree.R_refl dest: assms)

lemma calm_kill: "calm.keeps (kill_countH sid)"
  by (rule calm.keepsI)
    (auto simp: kill_countH_def still_def same_tree.R_refl split: option.splits prod.splits)

lemma quiet_live_in: "quiet.keeps (live_in_environment caller sid env missing)"
  unfolding live_in_environment_def by (intro quiet.keeps_intros quiet_live)

lemma calm_processes:
  "calm.keeps (handle_process_status caller ps)"
  "calm.keeps (handle_terminate_process polls caller tp)"
  "calm.keeps (handle_wait_process polls caller wp)"
  unfolding handle_process_status_def handle_terminate_process_def handle_wait_process_def
  by (intro calm.keeps_intros quiet_calm [OF quiet_live_in] calm_proc;
      auto simp: same_tree.R_refl split: prod.splits)+

lemma calm_sessions:
  "calm.keeps (handle_create_session caller cs)"
  "calm.keeps (handle_get_session caller gs)"
  "calm.keeps (handle_list_sessions caller ls)"
  "calm.keeps (handle_terminate_session caller ts)"
  unfolding handle_create_session_def handle_get_session_def handle_list_sessions_def
    handle_terminate_session_def split_beta
  by (intro calm.keeps_intros quiet_calm [OF quiet_live_in] quiet_calm [OF quiet_live]
      quiet_calm [OF quiet_kill] quiet_calm [OF quiet_sess] calm_kill;
      auto dest: create_owned_quiet list_owned_quiet terminate_owned_quiet)+

lemma look_info: "look.keeps (handle_get_environment_info caller q)"
  unfolding handle_get_environment_info_def by (intro look.keeps_intros)

lemma look_readers:
  "look.keeps (handle_read_file b3 caller rf)"
  "look.keeps (handle_list_directory caller ld)"
  "look.keeps (handle_get_file_metadata b3 caller gm)"
  unfolding handle_read_file_def handle_list_directory_def handle_get_file_metadata_def split_beta
  by (intro look.keeps_intros look_rel look_fs obeys_readers)+

lemma respond_run: "respond f m s = (r, s') \<Longrightarrow> \<exists>r0. m s = (r0, s')"
  by (auto simp: respond_def bindH_def split: prod.splits sum.splits)

lemma handle_permitted:
  assumes "handle_as b3 polls caller req s = (r, s')" and "fs_ready (fst s) (snd s)"
  shows "permitted (fst s) caller req (snd s) (snd s')"
  using assms(1)
  by (cases req)
    (auto dest!: respond_run intro: write_permitted [OF _ assms(2)] delete_permitted [OF _ assms(2)]
        rename_permitted [OF _ assms(2)] create_directory_permitted [OF _ assms(2)] execute_permitted
        dest: look.keepsD [OF look_info] look.keepsD [OF look_readers(1)] look.keepsD [OF look_readers(2)]
          look.keepsD [OF look_readers(3)] calm.keepsD [OF calm_processes(1)]
          calm.keepsD [OF calm_processes(2)] calm.keepsD [OF calm_processes(3)]
          calm.keepsD [OF calm_sessions(1)] calm.keepsD [OF calm_sessions(2)]
          calm.keepsD [OF calm_sessions(3)] calm.keepsD [OF calm_sessions(4)]
        simp: looks_permitted still_def permitted.nothing)


definition sample_grants :: grants_table where
  "sample_grants = \<lparr> gt_principals = [(''alice'', [GFilesystemWrite ''''])] \<rparr>"

definition alice :: caller where
  "alice = caller_new ''alice''"

definition sample_daemon :: daemon_state where
  "sample_daemon = with_grants sample_grants
     (daemon_state_with_fs sample_env ''host'' ''1.0'' cs_empty Debian sample_cfg)"

definition sample_write :: rpc_request where
  "sample_write = WriteFile \<lparr> wf_environment_id = sample_env, wf_path = ''b'', wf_content = [5],
     wf_overwrite = False, wf_expected_hash = None \<rparr>"

definition sample_run :: "(rpc_error + rpc_payload) \<times> daemon_state \<times> world" where
  "sample_run = handle_as (\<lambda>_. []) [] (Some alice) sample_write (sample_daemon, sample_world)"

lemma sample_run_writes: "hm_get (w_fs (snd (snd sample_run))) [''srv'', ''b''] = Some (NFile [5])"
  by code_simp

lemma sample_daemon_ready: "fs_ready sample_daemon sample_world"
proof -
  have "is_dir_node (w_fs sample_world) [''srv'']" by code_simp
  then show ?thesis using sample_tree_wf sample_cfg_ok
    by (auto simp: fs_ready_def sample_daemon_def with_grants_def daemon_state_with_fs_def
        sample_world_def sample_cfg_def)
qed


end
