(* ===== verification/HandlerAccess.thy ===== *)
theory HandlerAccess
  imports HandlerEffects
begin

text \<open>
  What callers are told: answers have the type of the request, unknown principals get nothing,
  refusals have no effect, and sessions of others are indistinguishable from unknown ones.
\<close>

section \<open>Answers\<close>

datatype rpc_kind =
    AskGetEnvironmentInfo | AskReadFile | AskListDirectory | AskGetFileMetadata
  | AskWriteFile | AskCreateDirectory | AskRename | AskDeleteFile
  | AskExecute | AskProcessStatus | AskTerminateProcess | AskWaitProcess
  | AskCreateSession | AskGetSession | AskListSessions | AskTerminateSession

fun request_kind :: "rpc_request \<Rightarrow> rpc_kind" where
  "request_kind (GetEnvironmentInfo _) = AskGetEnvironmentInfo"
| "request_kind (ReadFile _) = AskReadFile"
| "request_kind (ListDirectory _) = AskListDirectory"
| "request_kind (GetFileMetadata _) = AskGetFileMetadata"
| "request_kind (WriteFile _) = AskWriteFile"
| "request_kind (CreateDirectory _) = AskCreateDirectory"
| "request_kind (RenameReq _) = AskRename"
| "request_kind (DeleteFile _) = AskDeleteFile"
| "request_kind (Execute _) = AskExecute"
| "request_kind (ProcessStatus _) = AskProcessStatus"
| "request_kind (TerminateProcess _) = AskTerminateProcess"
| "request_kind (WaitProcess _) = AskWaitProcess"
| "request_kind (CreateSession _) = AskCreateSession"
| "request_kind (GetSession _) = AskGetSession"
| "request_kind (ListSessions _) = AskListSessions"
| "request_kind (TerminateSession _) = AskTerminateSession"

fun payload_kind :: "rpc_payload \<Rightarrow> rpc_kind" where
  "payload_kind (GetEnvironmentInfoP _) = AskGetEnvironmentInfo"
| "payload_kind (ReadFileP _) = AskReadFile"
| "payload_kind (ListDirectoryP _) = AskListDirectory"
| "payload_kind (GetFileMetadataP _) = AskGetFileMetadata"
| "payload_kind (WriteFileP _) = AskWriteFile"
| "payload_kind (CreateDirectoryP _) = AskCreateDirectory"
| "payload_kind (RenameP _) = AskRename"
| "payload_kind (DeleteFileP _) = AskDeleteFile"
| "payload_kind (ExecuteP _) = AskExecute"
| "payload_kind (ProcessStatusP _) = AskProcessStatus"
| "payload_kind (TerminateProcessP _) = AskTerminateProcess"
| "payload_kind (WaitProcessP _) = AskWaitProcess"
| "payload_kind (CreateSessionP _) = AskCreateSession"
| "payload_kind (GetSessionP _) = AskGetSession"
| "payload_kind (ListSessionsP _) = AskListSessions"
| "payload_kind (TerminateSessionP _) = AskTerminateSession"

definition answers :: "rpc_request \<Rightarrow> rpc_payload \<Rightarrow> bool" where
  "answers req payload \<longleftrightarrow> payload_kind payload = request_kind req"

lemma respond_Inr: "respond f m s = (Inr y, s') \<longleftrightarrow> (\<exists>x. m s = (Inr x, s') \<and> y = f x)"
  by (cases s') (auto simp: respond_def bindH_Inr)

lemma handler_answers: "handle_as b3 polls caller req s = (Inr payload, s') \<Longrightarrow> answers req payload"
  by (cases req) (auto simp: respond_Inr answers_def)


section \<open>Unknown principals\<close>

fun process_request :: "rpc_request \<Rightarrow> bool" where
  "process_request (Execute _) = True"
| "process_request (ProcessStatus _) = True"
| "process_request (TerminateProcess _) = True"
| "process_request (WaitProcess _) = True"
| "process_request _ = False"

lemma unknown_file:
  assumes "bindH (require_fs env) (\<lambda>fs. bindH (denyH caller) (\<lambda>_. F fs)) s = (r, s')"
    and "\<not> known_principal (fst s) caller"
  shows "s' = s \<and> (\<exists>e. r = Inl e)"
  using assms by (auto simp: bindH_def require_fs_def denyH_def deny_iff split: sum.splits if_splits)

lemma unknown_valid:
  assumes "bindH (validH v) (\<lambda>_. bindH (require_fs env) (\<lambda>fs. bindH (denyH caller) (\<lambda>_. F fs))) s = (r, s')"
    and "\<not> known_principal (fst s) caller"
  shows "s' = s \<and> (\<exists>e. r = Inl e)"
  using assms(1)
proof (cases rule: bindH_cases)
  case (stop e)
  then show ?thesis by (auto simp: validH_def)
next
  case (go x s1)
  then have "s1 = s" by (simp add: stages_Inr)
  then show ?thesis using unknown_file [OF _ assms(2)] go(2) by blast
qed

lemma unknown_session:
  assumes "bindH (require_environment env) (\<lambda>_. bindH (denyH caller) (\<lambda>_. F)) s = (r, s')"
    and "\<not> known_principal (fst s) caller"
  shows "s' = s \<and> (\<exists>e. r = Inl e)"
  using assms by (auto simp: bindH_def require_environment_def denyH_def deny_iff split: if_splits)

lemma unknown_process:
  assumes "bindH (require_proc env) (\<lambda>_. bindH (live_in_environment caller sid env m) (\<lambda>x.
      bindH (denyH caller) (\<lambda>_. F x))) s = (r, s')"
    and "\<not> known_principal (fst s) caller"
  shows "no_effect s s' \<and> (\<exists>e. r = Inl e)"
proof -
  have "quiet.keeps (require_proc env)" by (rule quiet.keeps_require_proc)
  from this assms(1) show ?thesis
  proof (cases rule: quieted)
    case (passed u s1)
    then have s1: "s1 = s" by (auto simp: require_proc_def split: if_splits)
    from quiet_live_in passed(3) show ?thesis
    proof (cases rule: quieted)
      case again: (passed x s2)
      have "ds_grants (fst s2) = ds_grants (fst s)"
        using again(2) s1 by (simp add: no_effect_def same_config_def)
      then have "\<not> known_principal (fst s2) caller" using assms(2) by (simp add: known_principal_def)
      then show ?thesis using again(2,3) s1 by (auto simp: bindH_def denyH_def deny_iff)
    qed (use s1 in simp)
  qed simp
qed

lemma respond_refused:
  assumes "respond f m s = (r, s')" and "\<And>r0. m s = (r0, s') \<Longrightarrow> P \<and> (\<exists>e. r0 = Inl e)"
  shows "P \<and> (\<exists>e. r = Inl e)"
proof -
  obtain r0 s1 where m: "m s = (r0, s1)" by (metis prod.collapse)
  then have "s1 = s'" "(\<exists>e. r0 = Inl e) \<Longrightarrow> (\<exists>e. r = Inl e)"
    using assms(1) by (cases r0; auto simp: respond_def bindH_def)+
  then show ?thesis using assms(2) m by blast
qed


definition bob :: caller where
  "bob = caller_new ''bob''"

definition sample_read :: rpc_request where
  "sample_read = ReadFile \<lparr> rf_environment_id = sample_env, rf_path = ''a'' \<rparr>"


section \<open>Refusals\<close>

text \<open>A handler is clean when a refusal by a grant leaves everything as it was.\<close>

definition clean :: "'a handler \<Rightarrow> bool" where
  "clean m \<longleftrightarrow> (\<forall>s msg s'. m s = (Inl (RpcForbidden msg), s') \<longrightarrow> no_effect s s')"

lemma cleanI: "(\<And>s msg s'. m s = (Inl (RpcForbidden msg), s') \<Longrightarrow> no_effect s s') \<Longrightarrow> clean m"
  unfolding clean_def by blast

lemma cleanD: "clean m \<Longrightarrow> m s = (Inl (RpcForbidden msg), s') \<Longrightarrow> no_effect s s'"
  unfolding clean_def by blast

lemma clean_quiet: "quiet.keeps m \<Longrightarrow> clean m"
  by (rule cleanI) (rule quiet.keepsD)

lemma clean_bind:
  assumes "quiet.keeps m" and "\<And>x. clean (f x)"
  shows "clean (bindH m f)"
proof (rule cleanI)
  fix s msg s' assume "bindH m f s = (Inl (RpcForbidden msg), s')"
  with assms(1) show "no_effect s s'"
  proof (cases rule: quieted)
    case (passed x s1)
    then show ?thesis using cleanD [OF assms(2)] quiet.R_trans by blast
  qed
qed

lemma clean_last: "clean m \<Longrightarrow> clean (bindH m (\<lambda>x. okH (g x)))"
  by (rule cleanI) (auto simp: bindH_Inl dest: cleanD)

lemma clean_respond: "clean m \<Longrightarrow> clean (respond g m)"
  unfolding respond_def by (rule clean_last)

lemma no_forbidden:
  "Inl (RpcForbidden msg) \<noteq> mapE (fs_error_to_rpc path) r"
  "Inl (RpcForbidden msg) \<noteq> mapE process_error_to_rpc rp"
proof -
  have "fs_error_to_rpc path e \<noteq> RpcForbidden msg" for e by (cases e) simp_all
  then show "Inl (RpcForbidden msg) \<noteq> mapE (fs_error_to_rpc path) r"
    by (cases r) (simp_all add: eq_commute)
  have "process_error_to_rpc e \<noteq> RpcForbidden msg" for e by (cases e) simp_all
  then show "Inl (RpcForbidden msg) \<noteq> mapE process_error_to_rpc rp"
    by (cases rp) (simp_all add: eq_commute)
qed

lemma clean_fs: "clean (fsH (fs_error_to_rpc path) m)"
  by (rule cleanI) (auto simp: fsH_run no_forbidden)

lemma clean_proc: "clean (procH f)"
  by (rule cleanI) (auto simp: procH_run no_forbidden proc_missing_def)

lemma look_quiet: "look.keeps m \<Longrightarrow> quiet.keeps m"
  by (rule quiet.keepsI) (auto dest: look.keepsD looks_quiet)

lemma kill_result_table:
  "kill_session_processes pm env sid = (n, pm') \<Longrightarrow> pm_processes pm' = pm_processes pm"
  using kill_session_table [of pm env sid] by simp

lemma quiet_kill_count: "quiet.keeps (kill_countH sid)"
  by (rule quiet.keepsI)
    (auto simp: kill_countH_def no_effect_def same_config_def same_tree.R_refl
      split: option.splits prod.splits dest: kill_result_table)

lemma quiet_stages:
  "quiet.keeps (fs_rel_for_grant fs path follow)"
  "quiet.keeps (procH (\<lambda>pm w. (check_policy (pm_config pm) program, pm, w)))"
proof -
  show "quiet.keeps (fs_rel_for_grant fs path follow)" by (rule quiet_rel)
  show "quiet.keeps (procH (\<lambda>pm w. (check_policy (pm_config pm) program, pm, w)))"
    by (rule quiet.keepsI) (auto simp: procH_run no_effect_def same_config_def same_tree.R_refl)
qed

lemma clean_files:
  "clean (handle_write_file b3 caller wq)" "clean (handle_create_directory caller cd)"
  "clean (handle_rename b3 caller rn)" "clean (handle_delete_file caller dl)"
  unfolding handle_write_file_def handle_create_directory_def handle_rename_def handle_delete_file_def
  by (intro clean_bind quiet.keeps_intros quiet_stages clean_last clean_fs)+

lemma clean_processes:
  "clean (handle_execute caller ex)" "clean (handle_process_status caller ps)"
  "clean (handle_terminate_process polls caller tp)" "clean (handle_wait_process polls caller wp)"
  unfolding handle_execute_def handle_process_status_def handle_terminate_process_def
    handle_wait_process_def
  by (intro clean_bind quiet.keeps_intros quiet_stages quiet_live_in clean_last clean_proc)+

lemma quiet_sessions:
  "quiet.keeps (handle_create_session caller cs)" "quiet.keeps (handle_get_session caller gs)"
  "quiet.keeps (handle_list_sessions caller ls)" "quiet.keeps (handle_terminate_session caller ts)"
  unfolding handle_create_session_def handle_get_session_def handle_list_sessions_def
    handle_terminate_session_def split_beta
  by (intro quiet.keeps_intros quiet_live_in quiet_live quiet_kill quiet_sess quiet_kill_count;
      auto dest: create_owned_quiet list_owned_quiet terminate_owned_quiet)+

text \<open>
  Claim C19.  A refusal for lack of authority has no effect: when the answer is \<open>Forbidden\<close>, no file
  was touched, no program was started, and no entry of the process table was added or evicted.
\<close>

theorem forbidden_has_no_effect:
  assumes "handle_as b3 polls caller req s = (Inl (RpcForbidden msg), s')"
  shows "no_effect s s'"
proof -
  note quiet = look_quiet [OF look_info] look_readers [THEN look_quiet] quiet_sessions
  have "clean (handle_as b3 polls caller req)"
    by (cases req) (auto intro!: clean_respond clean_files clean_processes quiet [THEN clean_quiet])
  then show ?thesis using assms by (rule cleanD)
qed

theorem forbidden_has_no_effect_witness:
  "no_effect (sample_daemon, sample_world)
     (snd (handle_as (\<lambda>_. []) [] (Some alice) sample_read (sample_daemon, sample_world)))"
proof -
  have "fst (handle_as (\<lambda>_. []) [] (Some alice) sample_read (sample_daemon, sample_world)) =
      Inl (RpcForbidden (''filesystem.read denied for '' @ quoted ''a''))"
    by code_simp
  then show ?thesis
    using forbidden_has_no_effect [of "\<lambda>_. []" "[]" "Some alice" sample_read "(sample_daemon, sample_world)"]
    by (metis prod.collapse)
qed

section \<open>Sessions of others\<close>

fun request_session :: "rpc_request \<Rightarrow> session_id option" where
  "request_session (Execute q) = Some (ex_session_id q)"
| "request_session (ProcessStatus q) = Some (ps_session_id q)"
| "request_session (TerminateProcess q) = Some (tp_session_id q)"
| "request_session (WaitProcess q) = Some (wp_session_id q)"
| "request_session (GetSession q) = Some (gs_session_id q)"
| "request_session (TerminateSession q) = Some (ts_session_id q)"
| "request_session _ = None"

text \<open>
  The caller may not see the session: there is none under the identifier, or it belongs to another
  principal.
\<close>

definition hidden_session :: "daemon_state \<Rightarrow> caller option \<Rightarrow> session_id \<Rightarrow> bool" where
  "hidden_session st caller sid \<longleftrightarrow>
     (\<exists>sm. ds_sessions st = Some sm \<and> session_usable sm \<and> fetch.hidden sm sid (fp_of caller))"

definition alike :: "daemon_state \<Rightarrow> daemon_state \<Rightarrow> bool" where
  "alike st st' \<longleftrightarrow> ds_environment_id st' = ds_environment_id st \<and> ds_grants st' = ds_grants st \<and>
     (ds_proc st' = None \<longleftrightarrow> ds_proc st = None)"

lemma hidden_live:
  assumes "hidden_session (fst s) caller sid"
  shows "fst (require_live_session caller sid s) = Inl (session_error_to_rpc (unknown_session sid))"
proof -
  obtain sm where sm: "ds_sessions (fst s) = Some sm" "session_usable sm"
    and h: "fetch.hidden sm sid (fp_of caller)"
    using assms by (auto simp: hidden_session_def)
  obtain r p sm' w' where run: "get_owned sm sid (fp_of caller) (snd s) = ((r, p), sm', w')"
    by (metis prod.collapse)
  have "r = Inl (unknown_session sid)" by (rule fetch.hidden_reply [OF sm(2) h run])
  then show ?thesis
    using sm run by (simp add: require_live_session_def bindH_def require_sessions_def sessH_def
        touch_owned_def killH_def)
qed

lemma fst_bindH_Inl: "fst (m s) = Inl e \<Longrightarrow> fst (bindH m f s) = Inl e"
  by (cases "m s") (simp add: bindH_def)

definition no_session :: "session_id \<Rightarrow> rpc_error" where
  "no_session sid = RpcSessionNotFound (''unknown session id '' @ quoted (sess_str sid))"

lemma fst_mapH_err: "fst (mapH_err h m s) = mapE h (fst (m s))"
  by (simp add: mapH_err_def split: prod.split)

lemma hidden_steps:
  assumes "hidden_session (fst s) caller sid"
  shows "fst (bindH (mapH_err kill_attempted (require_live_session caller sid)) f s) = Inl (no_session sid)"
    and "fst (bindH (live_in_environment caller sid env m) g s) = Inl (no_session sid)"
proof -
  have l: "fst (require_live_session caller sid s) = Inl (no_session sid)"
    using hidden_live [OF assms] by (simp add: unknown_session_def no_session_def)
  have "fst (mapH_err kill_attempted (require_live_session caller sid) s) = Inl (no_session sid)"
    using l by (simp add: fst_mapH_err no_session_def)
  then show "fst (bindH (mapH_err kill_attempted (require_live_session caller sid)) f s) = Inl (no_session sid)"
    by (rule fst_bindH_Inl)
  show "fst (bindH (live_in_environment caller sid env m) g s) = Inl (no_session sid)"
    unfolding live_in_environment_def by (intro fst_bindH_Inl l)
qed

lemma stage_replies:
  "fst (bindH (require_proc env) F s) =
     (if env \<noteq> ds_environment_id (fst s) then Inl (wrong_environment env (ds_environment_id (fst s)))
      else if ds_proc (fst s) = None then Inl proc_missing else fst (F () s))"
  "fst (bindH (require_environment env) G s) =
     (if env \<noteq> ds_environment_id (fst s) then Inl (wrong_environment env (ds_environment_id (fst s)))
      else fst (G () s))"
  "fst (bindH (denyH caller) G s) =
     (if known_principal (fst s) caller then fst (G () s) else Inl unknown_principal)"
  "fst (bindH require_sessions G s) =
     (if ds_sessions (fst s) = None then Inl sessions_missing else fst (G () s))"
  by (simp_all add: bindH_def require_proc_def require_environment_def denyH_def deny_iff
      require_sessions_def)

definition process_refusal :: "environment_id \<Rightarrow> session_id \<Rightarrow> daemon_state \<Rightarrow> rpc_error" where
  "process_refusal env sid st =
     (if env \<noteq> ds_environment_id st then wrong_environment env (ds_environment_id st)
      else if ds_proc st = None then proc_missing else no_session sid)"

definition session_refusal :: "environment_id \<Rightarrow> session_id \<Rightarrow> caller option \<Rightarrow> daemon_state \<Rightarrow> rpc_error" where
  "session_refusal env sid caller st =
     (if env \<noteq> ds_environment_id st then wrong_environment env (ds_environment_id st)
      else if \<not> known_principal st caller then unknown_principal else no_session sid)"

lemma hidden_process_handlers:
  "hidden_session (fst s) caller (ex_session_id ex) \<Longrightarrow>
     fst (handle_execute caller ex s) = Inl (process_refusal (ex_environment_id ex) (ex_session_id ex) (fst s))"
  "hidden_session (fst s) caller (ps_session_id ps) \<Longrightarrow>
     fst (handle_process_status caller ps s) = Inl (process_refusal (ps_environment_id ps) (ps_session_id ps) (fst s))"
  "hidden_session (fst s) caller (tp_session_id tp) \<Longrightarrow>
     fst (handle_terminate_process polls caller tp s) = Inl (process_refusal (tp_environment_id tp) (tp_session_id tp) (fst s))"
  "hidden_session (fst s) caller (wp_session_id wp) \<Longrightarrow>
     fst (handle_wait_process polls caller wp s) = Inl (process_refusal (wp_environment_id wp) (wp_session_id wp) (fst s))"
  unfolding handle_execute_def handle_process_status_def handle_terminate_process_def
    handle_wait_process_def process_refusal_def
  by (simp_all add: stage_replies(1) hidden_steps(2))

lemma hidden_session_handlers:
  "hidden_session (fst s) caller (gs_session_id gs) \<Longrightarrow>
     fst (handle_get_session caller gs s) = Inl (session_refusal (gs_environment_id gs) (gs_session_id gs) caller (fst s))"
  "hidden_session (fst s) caller (ts_session_id ts) \<Longrightarrow>
     fst (handle_terminate_session caller ts s) = Inl (session_refusal (ts_environment_id ts) (ts_session_id ts) caller (fst s))"
  unfolding handle_get_session_def handle_terminate_session_def session_refusal_def
  by (auto simp: stage_replies hidden_steps hidden_session_def [of _ caller "ts_session_id ts"])

lemma respond_reply: "fst (m s) = Inl e \<Longrightarrow> fst (respond f m s) = Inl e"
  unfolding respond_def by (rule fst_bindH_Inl)

text \<open>
  Claim C17.  Sessions are no oracle on the wire: two daemons with the same configuration give the
  same answer to a request for a session that the caller may not see, whether the session belongs to
  someone else (live or expired) or never existed, and whatever else the tables and the machine
  contain.
\<close>

theorem hidden_sessions_indistinguishable:
  assumes "alike (fst s) (fst t)" and "request_session req = Some sid"
    and "hidden_session (fst s) caller sid" and "hidden_session (fst t) caller sid"
  shows "fst (handle_as b3 polls caller req s) = fst (handle_as b3' polls' caller req t)"
proof -
  have same: "process_refusal env sid (fst t) = process_refusal env sid (fst s)"
    "session_refusal env sid caller (fst t) = session_refusal env sid caller (fst s)" for env
    using assms(1) by (simp_all add: alike_def process_refusal_def session_refusal_def known_principal_def)
  show ?thesis
    using assms(2-4) same
    by (cases req) (simp_all add: respond_reply [OF hidden_process_handlers(1)]
      respond_reply [OF hidden_process_handlers(2)] respond_reply [OF hidden_process_handlers(3)]
      respond_reply [OF hidden_process_handlers(4)] respond_reply [OF hidden_session_handlers(1)]
      respond_reply [OF hidden_session_handlers(2)])
qed

definition sample_get :: rpc_request where
  "sample_get = GetSession \<lparr> gs_environment_id = sample_env, gs_session_id = sample_id 0 \<rparr>"

definition with_sessions :: "session_manager \<Rightarrow> daemon_state" where
  "with_sessions sm = with_sess sm sample_daemon"

theorem hidden_sessions_indistinguishable_witness:
  "fst (handle_as (\<lambda>_. []) [] (Some bob) sample_get (with_sessions sample_live, sample_world)) =
   fst (handle_as (\<lambda>_. []) [] (Some bob) sample_get (with_sessions sample_manager, sample_world))"
proof -
  have "session_usable sample_live" "session_usable sample_manager"
    by (simp_all add: session_usable_def sample_live_def sample_manager_def session_manager_new_def)
  moreover have "session_of sample_live (sample_id 0) = Some sample_session"
    "session_of sample_manager (sample_id 0) = None"
    by (simp_all add: session_of_def sample_live_def sample_manager_def session_manager_new_def hm_get_def)
  moreover have "\<not> owner_permits (si_owner sample_session) (fp_of (Some bob))"
    by (simp add: sample_session_def fp_of_def bob_def caller_new_def)
  ultimately have "hidden_session (with_sessions sm) (Some bob) (sample_id 0)"
    if "sm = sample_live \<or> sm = sample_manager" for sm
    using that by (auto simp: hidden_session_def fetch.hidden_def with_sessions_def with_sess_def)
  then show ?thesis
    by (intro hidden_sessions_indistinguishable [where sid = "sample_id 0"])
      (simp_all add: alike_def with_sessions_def with_sess_def sample_get_def)
qed

definition sample_ask :: rpc_request where
  "sample_ask = GetEnvironmentInfo \<lparr> gi_environment_id = sample_env \<rparr>"


end
