(* ===== verification/DaemonInv.thy ===== *)
theory DaemonInv
  imports HandlerAccess WaitProps
begin

text \<open>
  The invariant that ties the two tables of the daemon together: a child that is running and has not
  been asked to die belongs to a session in the session table.  The operations of the process
  manager only settle children; removing a session leaves children behind only until the cascade.
\<close>

section \<open>Settling\<close>

definition alive :: "process_manager \<Rightarrow> entry_ref \<Rightarrow> bool" where
  "alive pm r \<longleftrightarrow> entry_running pm r \<and> \<not> pe_kill_requested (pm_entries pm r)"

definition settles :: "process_manager \<Rightarrow> process_manager \<Rightarrow> bool" where
  "settles pm pm' \<longleftrightarrow> pm_poisoned pm' = pm_poisoned pm \<and>
     (\<forall>key r. hm_get (pm_processes pm') key = Some r \<longrightarrow> alive pm' r \<longrightarrow>
        hm_get (pm_processes pm) key = Some r \<and> alive pm r)"

lemma settles_refl: "settles pm pm"
  by (simp add: settles_def)

lemma settles_trans: "settles pm pm' \<Longrightarrow> settles pm' pm'' \<Longrightarrow> settles pm pm''"
  unfolding settles_def by metis

lemma settlesI:
  assumes "pm_poisoned pm' = pm_poisoned pm" and "pm_processes pm' = pm_processes pm"
    and "\<And>r. alive pm' r \<Longrightarrow> alive pm r"
  shows "settles pm pm'"
  using assms unfolding settles_def by metis

lemma alive_iff: "alive pm r \<longleftrightarrow> \<not> pe_poisoned (pm_entries pm r) \<and>
    ms_status (pe_state (pm_entries pm r)) = Running \<and> \<not> pe_kill_requested (pm_entries pm r)"
  by (simp add: alive_def entry_running_def Let_def)

lemma settles_request_kill: "settles pm (request_kill r pm)"
  by (rule settlesI) (auto simp: alive_iff request_kill_def split: if_splits)

lemma settles_kill_targets: "settles pm (snd (kill_targets rs pm n))"
  by (induction rs pm n rule: kill_targets.induct)
    (auto intro: settles_refl settles_trans [OF settles_request_kill])

lemma settles_kill_session: "settles pm (snd (kill_session_processes pm env sid))"
  unfolding kill_session_processes_def by (rule settles_kill_targets)

lemma step_settles:
  "task_step cap es es' \<Longrightarrow> task_ok cap es \<Longrightarrow>
     pe_poisoned (fst es') = pe_poisoned (fst es) \<and>
     pe_kill_requested (fst es') = pe_kill_requested (fst es) \<and>
     (ms_status (pe_state (fst es')) = Running \<longrightarrow> ms_status (pe_state (fst es)) = Running)"
proof (induction rule: task_step.induct)
  case (publish sv status e' e t)
  then show ?case by (simp add: task_ok_def Let_def)
qed simp_all

lemma settles_event:
  assumes "pm_ok env config pm"
  shows "settles pm (run_event ev pm)"
proof (cases rule: run_event_refines [of ev pm])
  case idle
  then show ?thesis by (simp add: settles_refl)
next
  case (stepped sv es)
  have "tasks_ok config pm" "pm_config pm = config" using assms by (simp_all add: pm_ok_def)
  then have "task_ok (pc_max_output_bytes (pm_config pm)) (pm_entries pm (event_ref ev), sv)"
    using tasks_okD(2) stepped(1) by simp
  from step_settles [OF stepped(2) this] show ?thesis
    unfolding stepped(3) by (intro settlesI) (auto simp: alive_iff split: if_splits)
qed

text \<open>The operations of the manager.\<close>

lemma settles_events:
  assumes "pm_ok env config pm"
  shows "settles pm (run_events evs pm)"
proof -
  have "pm_ok env config (run_events evs pm) \<and> settles pm (run_events evs pm)"
    by (rule run_events_induct [where P = "\<lambda>q. pm_ok env config q \<and> settles pm q"])
      (use assms settles_refl pm_ok_event settles_event settles_trans in blast)+
  then show ?thesis by simp
qed

lemma settles_wait_loop: "pm_ok env config pm \<Longrightarrow> settles pm (snd (wait_loop polls r timeout pm))"
  by (induction polls r timeout pm rule: wait_loop.induct)
    (auto split: option.splits simp: settles_refl
      intro: settles_trans [OF settles_events] pm_ok_events)

lemma settles_grace_loop: "pm_ok env config pm \<Longrightarrow> settles pm (grace_loop polls r pm)"
  by (induction polls r pm rule: grace_loop.induct)
    (auto simp: Let_def settles_refl intro: settles_trans [OF settles_events] pm_ok_events)

lemma settles_wait: "pm_ok env config pm \<Longrightarrow> settles pm (snd (wait_process pm req polls))"
  by (auto simp: wait_process_def settles_refl settles_wait_loop split: sum.splits)

lemma settles_terminate: "pm_ok env config pm \<Longrightarrow> settles pm (snd (terminate_process pm req polls))"
  by (auto simp: terminate_process_def settles_refl split: sum.splits
      intro: settles_trans [OF settles_request_kill] settles_grace_loop pm_ok_request_kill)

text \<open>A start adds at most one child, under the session of the request.\<close>

lemma start_process_alive:
  assumes ok: "pm_ok env config pm" and run: "start_process pm req session w = (res, pm', w')"
  shows "pm_poisoned pm' = pm_poisoned pm \<and>
    (\<forall>e s p r. hm_get (pm_processes pm') (e, s, p) = Some r \<longrightarrow> alive pm' r \<longrightarrow>
       hm_get (pm_processes pm) (e, s, p) = Some r \<and> alive pm r \<or> s = si_session_id session)"
proof -
  have tok: "table_ok env config pm" and kok: "tasks_ok config pm" using ok by (simp_all add: pm_ok_def)
  have old: "r \<noteq> pm_next pm" if "hm_get (pm_processes pm) key = Some r" for key r
    using that table_okD(4) [OF tok] tasks_okD(1) [OF kok] by (cases key) fastforce
  have keep: "hm_get (pm_processes pm) key = Some r" if "shrinks heap (pm_processes pm) t" "hm_get t key = Some r"
    for heap t key r
    using shrinks_get [OF that(1) table_okD(1) [OF tok] that(2)] .
  from table_okD(1) [OF tok] run show ?thesis
  proof (cases rule: start_process_cases)
    case (failed e started table)
    then show ?thesis using keep [OF failed(3)] old by (fastforce simp: alive_iff)
  next
    case (started pid st t workdir w1 w3)
    then show ?thesis using keep [OF started(3)] old start_checks_Ok(3) [OF started(2)]
      by (fastforce simp: alive_iff split: if_splits)
  qed simp
qed

section \<open>Children and their sessions\<close>

text \<open>
  Every child that is alive has its session in the table, except for the sessions in \<open>X\<close>.
\<close>

definition in_table :: "daemon_state \<Rightarrow> session_id \<Rightarrow> bool" where
  "in_table st sid \<longleftrightarrow> (\<exists>sm. ds_sessions st = Some sm \<and> sid \<in> session_ids sm)"

definition covered :: "session_id set \<Rightarrow> daemon_state \<Rightarrow> bool" where
  "covered X st \<longleftrightarrow> (\<forall>pm. ds_proc st = Some pm \<longrightarrow> \<not> pm_poisoned pm \<and>
     (\<forall>e s p r. hm_get (pm_processes pm) (e, s, p) = Some r \<longrightarrow> alive pm r \<longrightarrow> s \<in> X \<or> in_table st s))"

definition daemon_ok :: "process_config \<Rightarrow> session_config \<Rightarrow> session_id set \<Rightarrow> daemon_state \<Rightarrow> bool" where
  "daemon_ok pconf sconf X st \<longleftrightarrow>
     (\<forall>pm. ds_proc st = Some pm \<longrightarrow> pm_ok (ds_environment_id st) pconf pm) \<and>
     (\<forall>sm. ds_sessions st = Some sm \<longrightarrow> sm_ok (ds_environment_id st) sconf sm) \<and> covered X st"

lemma covered_mono: "covered X st \<Longrightarrow> X \<subseteq> Y \<Longrightarrow> covered Y st"
  unfolding covered_def by (metis subsetD)

lemma daemon_ok_mono: "daemon_ok pconf sconf X st \<Longrightarrow> X \<subseteq> Y \<Longrightarrow> daemon_ok pconf sconf Y st"
  unfolding daemon_ok_def using covered_mono by blast

lemma daemon_ok_proc:
  assumes "daemon_ok pconf sconf X st" and "ds_proc st = Some pm"
    and "pm_ok (ds_environment_id st) pconf pm'" and "settles pm pm'"
  shows "daemon_ok pconf sconf X (st\<lparr> ds_proc := Some pm' \<rparr>)"
proof -
  have "in_table (st\<lparr> ds_proc := Some pm' \<rparr>) sid = in_table st sid" for sid by (simp add: in_table_def)
  then show ?thesis using assms unfolding daemon_ok_def covered_def settles_def by simp metis
qed

lemma daemon_ok_sessions:
  assumes "daemon_ok pconf sconf X st" and "ds_sessions st = Some sm"
    and "sm_ok (ds_environment_id st) sconf sm'" and "session_ids sm \<subseteq> session_ids sm' \<union> Y"
  shows "daemon_ok pconf sconf (X \<union> Y) (st\<lparr> ds_sessions := Some sm' \<rparr>)"
proof -
  have "in_table st sid \<Longrightarrow> sid \<in> Y \<or> in_table (st\<lparr> ds_sessions := Some sm' \<rparr>) sid" for sid
    using assms(2,4) by (auto simp: in_table_def)
  then show ?thesis using assms unfolding daemon_ok_def covered_def by simp blast
qed

lemma kill_targets_marks:
  "r \<in> set rs \<Longrightarrow> \<not> alive (snd (kill_targets rs pm n)) r"
proof (induction rs pm n rule: kill_targets.induct)
  case (2 q rs pm count)
  have stay: "\<not> alive pm' r \<Longrightarrow> \<not> alive (snd (kill_targets rs pm' k)) r" for pm' k
    by (induction rs pm' k rule: kill_targets.induct)
      (auto simp: alive_iff request_kill_def)
  have "\<not> alive (request_kill q pm) q" by (simp add: alive_iff request_kill_def)
  moreover have "\<not> entry_running pm q \<Longrightarrow> \<not> alive pm q" by (simp add: alive_def)
  ultimately show ?case using 2 stay by (cases "r = q") auto
qed simp

lemma kill_session_alive:
  assumes "\<not> pm_poisoned pm" and "hm_ok (pm_processes pm)"
    and "hm_get (pm_processes pm) (env, sid, p) = Some r"
  shows "\<not> alive (snd (kill_session_processes pm env sid)) r"
proof -
  have "r \<in> set (session_refs pm env sid)"
    using hm_in_set_get [OF assms(2)] assms(3) by (force simp: session_refs_def image_iff)
  then show ?thesis using kill_targets_marks assms(1) by (simp add: kill_session_processes_def)
qed

text \<open>No child of the session is alive.\<close>

definition childless :: "session_id \<Rightarrow> daemon_state \<Rightarrow> bool" where
  "childless sid st \<longleftrightarrow> (\<forall>pm e p r. ds_proc st = Some pm \<longrightarrow>
     hm_get (pm_processes pm) (e, sid, p) = Some r \<longrightarrow> \<not> alive pm r)"

lemma daemon_ok_childless:
  "daemon_ok pconf sconf X st \<Longrightarrow> childless sid st \<Longrightarrow> daemon_ok pconf sconf (X - {sid}) st"
  unfolding daemon_ok_def covered_def childless_def by blast

lemma kill_session_daemon:
  assumes ok: "daemon_ok pconf sconf X st"
  shows "daemon_ok pconf sconf X (kill_session_best_effort sid st)"
    and "childless sid (kill_session_best_effort sid st)"
proof -
  have "daemon_ok pconf sconf X (kill_session_best_effort sid st) \<and>
    childless sid (kill_session_best_effort sid st)"
  proof (cases "ds_proc st")
    case None
    then show ?thesis using ok by (simp add: childless_def kill_session_best_effort_def)
  next
    case (Some pm)
    let ?pm = "snd (kill_session_processes pm (ds_environment_id st) sid)"
    have pok: "pm_ok (ds_environment_id st) pconf pm" and np: "\<not> pm_poisoned pm"
      using ok Some by (simp_all add: daemon_ok_def covered_def)
    then have tok: "table_ok (ds_environment_id st) pconf pm" by (simp add: pm_ok_def)
    have "\<not> alive ?pm r" if g: "hm_get (pm_processes ?pm) (e, sid, p) = Some r" for e p r
    proof -
      have g': "hm_get (pm_processes pm) (e, sid, p) = Some r" using g by simp
      then have "e = ds_environment_id st" using table_okD(4) [OF tok] by blast
      then show ?thesis using kill_session_alive [OF np table_okD(1) [OF tok]] g' by blast
    qed
    moreover have "daemon_ok pconf sconf X (st\<lparr> ds_proc := Some ?pm \<rparr>)"
      by (rule daemon_ok_proc [OF ok Some pm_ok_kill_session [OF pok] settles_kill_session])
    ultimately show ?thesis using Some by (simp add: childless_def kill_session_best_effort_def)
  qed
  then show "daemon_ok pconf sconf X (kill_session_best_effort sid st)"
    and "childless sid (kill_session_best_effort sid st)" by simp_all
qed

lemma daemon_ok_kill:
  "daemon_ok pconf sconf X st \<Longrightarrow> daemon_ok pconf sconf (X - {sid}) (kill_session_best_effort sid st)"
  by (rule daemon_ok_childless [OF kill_session_daemon])

lemma daemon_ok_purged:
  "daemon_ok pconf sconf (X \<union> set purged) st \<Longrightarrow>
     daemon_ok pconf sconf X (kill_purged_best_effort purged st)"
proof (induction purged arbitrary: st)
  case (Cons sid sids)
  have "daemon_ok pconf sconf (X \<union> set (sid # sids) - {sid}) (kill_session_best_effort sid st)"
    by (rule daemon_ok_kill [OF Cons.prems])
  then have "daemon_ok pconf sconf (X \<union> set sids) (kill_session_best_effort sid st)"
    by (rule daemon_ok_mono) auto
  then show ?case using Cons.IH by simp
qed simp

section \<open>Handlers keep the invariant\<close>

definition safe :: "process_config \<Rightarrow> session_config \<Rightarrow> daemon_state \<times> world \<Rightarrow> daemon_state \<times> world \<Rightarrow> bool" where
  "safe pconf sconf s s' \<longleftrightarrow>
     (daemon_ok pconf sconf {} (fst s) \<longrightarrow> daemon_ok pconf sconf {} (fst s'))"

interpretation safe: handler_relation "safe pconf sconf" for pconf sconf
  by unfold_locales (auto simp: safe_def)

lemma safe_same: "(\<And>s. fst (snd (m s)) = fst s) \<Longrightarrow> safe.keeps pconf sconf m"
  by (auto simp: safe.keeps_def safe_def)

lemma safe_look: "look.keeps m \<Longrightarrow> safe.keeps pconf sconf m"
  by (rule safe_same) (auto simp: look.keeps_def looks_def)

lemma safe_fs: "safe.keeps pconf sconf (fsH h m)"
  by (rule safe_same) (simp add: fsH_def split: prod.split)

lemma safe_proc:
  assumes "\<And>env pm w r pm' w'. pm_ok env pconf pm \<Longrightarrow> f pm w = (r, pm', w') \<Longrightarrow>
      pm_ok env pconf pm' \<and> settles pm pm'"
  shows "safe.keeps pconf sconf (procH f)"
proof (rule safe.keepsI)
  fix s r s' assume run: "procH f s = (r, s')"
  show "safe pconf sconf s s'"
  proof (cases "ds_proc (fst s)")
    case None
    then show ?thesis using run by (auto simp: procH_run safe_def)
  next
    case (Some pm)
    obtain x pm' w' where f: "f pm (snd s) = (x, pm', w')" by (metis prod.collapse)
    then have s': "fst s' = (fst s)\<lparr> ds_proc := Some pm' \<rparr>" using run Some by (auto simp: procH_def)
    have "daemon_ok pconf sconf {} (fst s')" if ok: "daemon_ok pconf sconf {} (fst s)"
    proof -
      have "pm_ok (ds_environment_id (fst s)) pconf pm" using ok Some by (simp add: daemon_ok_def)
      then show ?thesis using daemon_ok_proc [OF ok Some] assms [OF _ f] s' by simp
    qed
    then show ?thesis by (simp add: safe_def)
  qed
qed

text \<open>A session operation followed by the cascade over the sessions it removed.\<close>

lemma safe_cascade:
  assumes "\<And>env sm w r sm' w'. sm_ok env sconf sm \<Longrightarrow> f sm w = (r, sm', w') \<Longrightarrow>
      sm_ok env sconf sm' \<and> session_ids sm \<subseteq> session_ids sm' \<union> set (P r)"
    and "\<And>r. safe.keeps pconf sconf (g r)"
  shows "safe.keeps pconf sconf (bindH (sessH f) (\<lambda>r. bindH (killH (P r)) (\<lambda>_. g r)))"
proof (rule safe.keepsI)
  fix s r s' assume run: "bindH (sessH f) (\<lambda>r. bindH (killH (P r)) (\<lambda>_. g r)) s = (r, s')"
  show "safe pconf sconf s s'"
  proof (cases "ds_sessions (fst s)")
    case None
    then show ?thesis using run by (auto simp: bindH_def sessH_def safe_def)
  next
    case (Some sm)
    obtain x sm' w' where f: "f sm (snd s) = (x, sm', w')" by (metis prod.collapse)
    let ?st = "kill_purged_best_effort (P x) ((fst s)\<lparr> ds_sessions := Some sm' \<rparr>)"
    have g: "g x (?st, w') = (r, s')"
      using run Some f by (simp add: bindH_def sessH_def killH_def)
    have "daemon_ok pconf sconf {} ?st" if ok: "daemon_ok pconf sconf {} (fst s)"
    proof -
      have "sm_ok (ds_environment_id (fst s)) sconf sm" using ok Some by (simp add: daemon_ok_def)
      from assms(1) [OF this f] have "daemon_ok pconf sconf ({} \<union> set (P x)) ((fst s)\<lparr> ds_sessions := Some sm' \<rparr>)"
        by (intro daemon_ok_sessions [OF ok Some]) auto
      then show ?thesis by (rule daemon_ok_purged)
    qed
    then show ?thesis using safe.keepsD [OF assms(2) g] by (simp add: safe_def)
  qed
qed

lemma get_owned_ids:
  "get_owned sm sid fp w = (r, sm', w') \<Longrightarrow> session_ids sm \<subseteq> session_ids sm' \<union> set (snd r)"
  by (cases r) (auto elim!: get_owned_cases simp: session_ids_iff split: if_splits)

lemma list_owned_ids:
  assumes "sm_ok env config sm" and "list_owned sm e fp w = (r, sm', w')"
  shows "session_ids sm \<subseteq> session_ids sm' \<union> set (snd r)"
proof (cases "sm_poisoned sm")
  case True
  then show ?thesis using assms(2) by (auto simp: list_owned_def split: prod.splits)
next
  case False
  have ok: "hm_ok (sm_sessions sm)" using assms(1) by (simp add: sm_ok_def)
  let ?now = "fst (now_secs w)"
  obtain table ids where purge: "purge_expired_locked (sm_sessions sm) (sm_config sm) ?now = (table, ids)"
    by fastforce
  have "sm' = sm\<lparr> sm_sessions := table \<rparr>" "snd r = ids"
    using assms(2) False purge by (auto simp: list_owned_def split: prod.splits)
  then show ?thesis using purge_spec(3,4) [OF ok purge]
    by (auto simp: session_ids_iff unexpired_def expired_ids_def split: option.splits if_splits)
qed

lemma safe_live: "safe.keeps pconf sconf (require_live_session caller sid)"
proof -
  have "safe.keeps pconf sconf (bindH (sessH (\<lambda>sm w. touch_owned sm sid (fp_of caller) w))
      (\<lambda>r. bindH (killH (snd r)) (\<lambda>_. resultH (mapE session_error_to_rpc (fst r)))))"
    by (intro safe_cascade safe.keeps_result) (auto simp: touch_owned_def sm_ok_fetch dest: get_owned_ids)
  then show ?thesis
    unfolding require_live_session_def split_beta by (rule safe.keeps_bind [OF safe.keeps_require_sessions])
qed

lemma safe_live_in: "safe.keeps pconf sconf (live_in_environment caller sid env missing)"
  unfolding live_in_environment_def by (intro safe.keeps_intros safe_live)

lemma safe_files:
  "safe.keeps pconf sconf (handle_write_file b3 caller wq)"
  "safe.keeps pconf sconf (handle_create_directory caller cd)"
  "safe.keeps pconf sconf (handle_rename b3 caller rn)"
  "safe.keeps pconf sconf (handle_delete_file caller dl)"
  unfolding handle_write_file_def handle_create_directory_def handle_rename_def handle_delete_file_def
  by (intro safe.keeps_intros safe_fs safe_look [OF look_rel])+

lemma safe_proc_ops:
  "safe.keeps pconf sconf (procH (\<lambda>pm w. (h pm, pm, w)))"
  "safe.keeps pconf sconf (procH (\<lambda>pm w. (case terminate_process pm tp polls of (r, pm') \<Rightarrow> (r, pm', w))))"
  "safe.keeps pconf sconf (procH (\<lambda>pm w. (case wait_process pm wp polls of (r, pm') \<Rightarrow> (r, pm', w))))"
proof -
  show "safe.keeps pconf sconf (procH (\<lambda>pm w. (h pm, pm, w)))"
    by (rule safe_proc) (auto simp: settles_refl)
  have "pm_ok env pconf pm' \<and> settles pm pm'"
    if "pm_ok env pconf pm" "(case terminate_process pm tp polls of (r, pm') \<Rightarrow> (r, pm', w)) = (r, pm', w')"
    for env pm w r pm' w'
    using that(2) pm_ok_terminate [OF that(1), of tp polls] settles_terminate [OF that(1), of tp polls]
    by (auto split: prod.splits)
  then show "safe.keeps pconf sconf (procH (\<lambda>pm w. (case terminate_process pm tp polls of (r, pm') \<Rightarrow> (r, pm', w))))"
    by (rule safe_proc)
  have "pm_ok env pconf pm' \<and> settles pm pm'"
    if "pm_ok env pconf pm" "(case wait_process pm wp polls of (r, pm') \<Rightarrow> (r, pm', w)) = (r, pm', w')"
    for env pm w r pm' w'
    using that(2) pm_ok_wait [OF that(1), of wp polls] settles_wait [OF that(1), of wp polls]
    by (auto split: prod.splits)
  then show "safe.keeps pconf sconf (procH (\<lambda>pm w. (case wait_process pm wp polls of (r, pm') \<Rightarrow> (r, pm', w))))"
    by (rule safe_proc)
qed

lemma safe_processes:
  "safe.keeps pconf sconf (handle_process_status caller ps)"
  "safe.keeps pconf sconf (handle_terminate_process polls caller tp)"
  "safe.keeps pconf sconf (handle_wait_process polls caller wp)"
  unfolding handle_process_status_def handle_terminate_process_def handle_wait_process_def
  by (intro safe.keeps_intros safe_live_in safe_proc_ops)+

lemma safe_get_list:
  "safe.keeps pconf sconf (handle_get_session caller gs)"
  "safe.keeps pconf sconf (handle_list_sessions caller ls)"
proof -
  show "safe.keeps pconf sconf (handle_get_session caller gs)"
    unfolding handle_get_session_def by (intro safe.keeps_intros safe_live_in)
  have "safe.keeps pconf sconf (bindH (sessH (\<lambda>sm w. list_owned sm (ls_environment_id ls) (fp_of caller) w))
      (\<lambda>r. bindH (killH (snd r)) (\<lambda>_. okH \<lparr> lsr_sessions = fst r \<rparr>)))"
    by (intro safe_cascade safe.keeps_ok) (auto simp: sm_ok_list_owned dest: list_owned_ids)
  then show "safe.keeps pconf sconf (handle_list_sessions caller ls)"
    unfolding handle_list_sessions_def split_beta
    by (rule safe.keeps_bind [OF safe.keeps_require_env safe.keeps_bind [OF safe.keeps_deny
        safe.keeps_bind [OF safe.keeps_require_sessions]]])
qed

lemma touched_ok:
  assumes "touched caller sid s info s1" and "daemon_ok pconf sconf {} (fst s)"
  shows "daemon_ok pconf sconf {} (fst s1) \<and> in_table (fst s1) sid"
proof -
  obtain sm old now where sm: "ds_sessions (fst s) = Some sm" "session_of sm sid = Some old"
    and s1: "fst s1 = (fst s)\<lparr> ds_sessions := Some (bump_session sid old now sm) \<rparr>"
    using assms(1) by (auto simp: touched_def)
  have "sm_ok (ds_environment_id (fst s)) sconf sm" using assms(2) sm(1) by (simp add: daemon_ok_def)
  from sm_ok_bump [OF this sm(2)] have "daemon_ok pconf sconf ({} \<union> {}) (fst s1)"
    unfolding s1 by (intro daemon_ok_sessions [OF assms(2) sm(1)]) (auto simp: session_ids_iff)
  moreover have "in_table (fst s1) sid"
    using sm(2) by (auto simp: in_table_def s1 session_ids_iff)
  ultimately show ?thesis by simp
qed

lemma safe_start:
  assumes ok: "daemon_ok pconf sconf {} (fst s)" and sid: "in_table (fst s) (si_session_id session)"
    and run: "bindH (procH (\<lambda>pm w. start_process pm req session w)) (\<lambda>pid. okH (f pid)) s = (r, s')"
  shows "daemon_ok pconf sconf {} (fst s')"
proof (cases "ds_proc (fst s)")
  case None
  then show ?thesis using run ok by (auto simp: bindH_def procH_def)
next
  case (Some pm)
  obtain x pm' w' where st: "start_process pm req session (snd s) = (x, pm', w')" by (metis prod.collapse)
  have s': "fst s' = (fst s)\<lparr> ds_proc := Some pm' \<rparr>"
    using run Some st by (cases x) (auto simp: bindH_def procH_def)
  have pok: "pm_ok (ds_environment_id (fst s)) pconf pm" and np: "\<not> pm_poisoned pm"
    and cov: "\<And>e s0 p r. hm_get (pm_processes pm) (e, s0, p) = Some r \<Longrightarrow> alive pm r \<Longrightarrow> in_table (fst s) s0"
    using ok Some unfolding daemon_ok_def covered_def by blast+
  note new = start_process_alive [OF pok st]
  have "in_table (fst s') sid = in_table (fst s) sid" for sid by (simp add: in_table_def s')
  then have "covered {} (fst s')"
    unfolding covered_def using new np cov sid by (simp add: s') metis
  then show ?thesis using ok pm_ok_start [OF pok st] by (simp add: daemon_ok_def s')
qed

lemma safe_execute: "safe.keeps pconf sconf (handle_execute caller q)"
proof (rule safe.keepsI)
  fix s r s' assume run: "handle_execute caller q s = (r, s')"
  let ?rest = "\<lambda>session. bindH (denyH caller) (\<lambda>_.
     bindH (validH (execute_validate q)) (\<lambda>_.
     bindH (procH (\<lambda>pm w. (check_policy (pm_config pm) (ex_program q), pm, w))) (\<lambda>_.
     bindH (withH (\<lambda>st. resultH (check_exec_grant st caller (ex_program q)))) (\<lambda>_.
     bindH (procH (\<lambda>pm w. start_process pm q session w)) (\<lambda>pid. okH \<lparr> exr_process_id = pid \<rparr>)))))"
  consider (same) "fst s' = fst s"
    | (go) "bindH (live_in_environment caller (ex_session_id q) (ex_environment_id q)
       (unknown_session_rpc (ex_session_id q))) ?rest s = (r, s')"
    using proc_prefix [OF run [unfolded handle_execute_def]] by (auto simp: looks_def)
  then show "safe pconf sconf s s'"
  proof cases
    case go
    from go show ?thesis
    proof (cases rule: bindH_cases)
      case (stop e)
      then show ?thesis using safe.keepsD [OF safe_live_in] by blast
    next
      case step: (go info s1)
      then have "require_live_session caller (ex_session_id q) s = (Inr info, s1)"
        by (auto simp: live_in_environment_def bindH_Inr split: if_splits)
      then have t: "touched caller (ex_session_id q) s info s1" by (rule live_Inr)
      have "fst s' = fst s1 \<or> (si_session_id info = ex_session_id q \<and>
          bindH (procH (\<lambda>pm w. start_process pm q info w)) (\<lambda>pid. okH \<lparr> exr_process_id = pid \<rparr>) s1 = (r, s')) \<or>
          si_session_id info \<noteq> ex_session_id q"
        using step(2) by (auto simp: looks_def dest!: deny_prefix valid_prefix policy_prefix check_prefix)
      moreover have "si_session_id info = ex_session_id q" if "daemon_ok pconf sconf {} (fst s)"
        using that t by (auto simp: touched_def daemon_ok_def sm_ok_def stored_ok_def)
      ultimately show ?thesis
        using touched_ok [OF t] safe_start unfolding safe_def by metis
    qed
  qed (simp add: safe_def)
qed

lemma create_owned_ids:
  assumes ok: "sm_ok env config sm" and run: "create_owned sm req owner w = (r, sm', w')"
    and rep: "\<And>msg. r \<noteq> Inl (SInternal msg)"
  shows "session_ids sm \<subseteq> session_ids sm' \<union> (case r of Inl _ \<Rightarrow> {} | Inr x \<Rightarrow> set (snd x))"
  using run
proof (cases rule: create_owned_cases)
  case (purged rel w1 now table ids w2)
  have okt: "hm_ok (sm_sessions sm)" "length (sm_sessions sm) \<le> sc_max_sessions (sm_config sm)"
    using ok by (auto simp: sm_ok_def)
  note spec = purge_spec [OF okt(1) purged(4)]
  have kept: "\<exists>z. unexpired sm now sid = Some z" if "session_of sm sid = Some y" "sid \<notin> set ids" for sid y
    using that spec(4) by (auto simp: unexpired_def expired_ids_def session_ids_iff split: option.splits if_splits)
  from purged(5) show ?thesis
  proof (cases rule: create_entry_cases)
    case full
    then have "length table = length (sm_sessions sm)" using okt(2) spec(2) by simp
    moreover have "table = filter (\<lambda>(sid, entry). \<not> session_is_expired (sr_info entry) (sm_config sm) now) (sm_sessions sm)"
      using purge_keeps [OF okt(1)] purged(4) by (metis fst_conv)
    ultimately have "table = sm_sessions sm"
      by (metis filter_id_conv length_filter_less order_less_irrefl)
    then show ?thesis using full by (auto simp: session_ids_iff session_of_def)
  next
    case (failed msg)
    then show ?thesis using rep by blast
  next
    case (created info)
    have "session_of sm' = (unexpired sm now)(si_session_id info \<mapsto> info)"
      using created spec(3) by (auto simp: session_of_def fun_eq_iff)
    then show ?thesis using created(1) kept by (auto simp: session_ids_iff)
  qed
qed (auto simp: session_ids_iff)

lemma environment_prefix:
  "bindH (require_environment env) (\<lambda>_. F) s = (r, s') \<Longrightarrow>
     looks s s' \<or> env = ds_environment_id (fst s) \<and> F s = (r, s')"
  using look.R_refl by (auto simp: bindH_def require_environment_def split: if_splits)

lemma sessions_prefix:
  "bindH require_sessions (\<lambda>_. F) s = (r, s') \<Longrightarrow>
     looks s s' \<or> (\<exists>sm. ds_sessions (fst s) = Some sm) \<and> F s = (r, s')"
  using look.R_refl by (auto simp: bindH_def require_sessions_def split: if_splits)

lemma safe_create:
  assumes run: "handle_create_session caller q s = (r, s')" and req: "hm_ok (cs_env_vars q)"
    and rep: "\<And>msg. r \<noteq> Inl (RpcInternalError msg)"
  shows "safe pconf sconf s s'"
proof -
  let ?rest = "bindH (sessH (\<lambda>sm w. create_owned sm q (fp_of caller) w)) (\<lambda>result.
     bindH (resultH (mapE session_error_to_rpc result)) (\<lambda>(session, purged).
     bindH (killH purged) (\<lambda>_. okH \<lparr> csr_session = session \<rparr>)))"
  have "fst s' = fst s \<or> (\<exists>sm. ds_sessions (fst s) = Some sm \<and> ?rest s = (r, s'))"
    using run unfolding handle_create_session_def
    by (auto simp: looks_def dest!: environment_prefix deny_prefix sessions_prefix)
  then show ?thesis
  proof (elim disjE exE conjE)
    fix sm assume sm: "ds_sessions (fst s) = Some sm" and rest: "?rest s = (r, s')"
    obtain x sm' w' where c: "create_owned sm q (fp_of caller) (snd s) = (x, sm', w')" by (metis prod.collapse)
    let ?ids = "case x of Inl _ \<Rightarrow> [] | Inr y \<Rightarrow> snd y"
    have s': "fst s' = kill_purged_best_effort ?ids ((fst s)\<lparr> ds_sessions := Some sm' \<rparr>)"
      and rx: "\<And>e. x = Inl e \<Longrightarrow> r = Inl (session_error_to_rpc e)"
      using rest sm c by (auto simp: bindH_def sessH_def killH_def split: sum.splits)
    have rep': "x \<noteq> Inl (SInternal msg)" for msg using rx rep by auto
    have "daemon_ok pconf sconf {} (fst s')" if ok: "daemon_ok pconf sconf {} (fst s)"
    proof -
      have smo: "sm_ok (ds_environment_id (fst s)) sconf sm" using ok sm by (simp add: daemon_ok_def)
      have "session_ids sm \<subseteq> session_ids sm' \<union> set ?ids"
        using create_owned_ids [OF smo c rep'] by (auto split: sum.splits)
      from daemon_ok_sessions [OF ok sm sm_ok_create [OF smo req c] this]
      show ?thesis unfolding s' by (rule daemon_ok_purged)
    qed
    then show ?thesis by (simp add: safe_def)
  qed (simp add: safe_def)
qed

lemma kill_countH_run: "snd (kill_countH sid s) = (kill_session_best_effort sid (fst s), snd s)"
  by (cases s) (auto simp: kill_countH_def kill_session_best_effort_def split: option.splits prod.splits)

lemma terminate_owned_ids:
  "terminate_owned sm sid fp w = ((r, p), sm', w') \<Longrightarrow> session_ids sm \<subseteq> session_ids sm' \<union> ({sid} \<union> set p)"
  by (auto elim!: terminate_owned_cases simp: session_ids_iff split: if_splits)

lemma fst_kill_count: "\<exists>n. kill_countH sid s = (Inr n, (kill_session_best_effort sid (fst s), snd s))"
  using kill_countH_run [of sid s]
  by (cases "kill_countH sid s") (auto simp: kill_countH_def split: option.splits prod.splits)

lemma safe_drop:
  assumes run: "bindH (kill_countH sid) (\<lambda>n. bindH (sessH (\<lambda>sm w. terminate_owned sm sid fp w))
      (\<lambda>(result, purged). bindH (killH purged) (\<lambda>_. g n result))) s = (r, s')"
    and g: "\<And>n result s r s'. g n result s = (r, s') \<Longrightarrow> s' = s"
  shows "safe pconf sconf s s'"
proof -
  obtain n where k: "kill_countH sid s = (Inr n, (kill_session_best_effort sid (fst s), snd s))"
    using fst_kill_count by blast
  let ?st = "kill_session_best_effort sid (fst s)"
  note rest = run [unfolded bindH_run(1) [where m = "kill_countH sid" and s = s, OF k]]
  have "daemon_ok pconf sconf {} (fst s')" if ok0: "daemon_ok pconf sconf {} (fst s)"
  proof -
    have ok: "daemon_ok pconf sconf {} ?st" and cl: "childless sid ?st"
      using kill_session_daemon [OF ok0] by simp_all
    show ?thesis
    proof (cases "ds_sessions ?st")
      case None
      then show ?thesis using rest ok by (auto simp: bindH_def sessH_def)
    next
      case (Some sm)
      obtain x p sm' w' where t: "terminate_owned sm sid fp (snd s) = ((x, p), sm', w')" by (metis prod.collapse)
      have s': "fst s' = kill_purged_best_effort p (?st\<lparr> ds_sessions := Some sm' \<rparr>)"
        using rest Some t g [of n x "(kill_purged_best_effort p (?st\<lparr> ds_sessions := Some sm' \<rparr>), w')" r s']
        by (auto simp: bindH_def sessH_def killH_def)
      have smo: "sm_ok (ds_environment_id ?st) sconf sm" using ok Some by (simp add: daemon_ok_def)
      have "daemon_ok pconf sconf ({} \<union> ({sid} \<union> set p)) (?st\<lparr> ds_sessions := Some sm' \<rparr>)"
        by (rule daemon_ok_sessions [OF ok Some sm_ok_terminate [OF smo t] terminate_owned_ids [OF t]])
      moreover have "childless sid (?st\<lparr> ds_sessions := Some sm' \<rparr>)" using cl by (simp add: childless_def)
      ultimately have "daemon_ok pconf sconf ({} \<union> set p) (?st\<lparr> ds_sessions := Some sm' \<rparr>)"
        using daemon_ok_childless by (fastforce elim: daemon_ok_mono)
      then show ?thesis unfolding s' by (rule daemon_ok_purged)
    qed
  qed
  then show ?thesis by (simp add: safe_def)
qed

lemma safe_terminate: "safe.keeps pconf sconf (handle_terminate_session caller q)"
proof -
  have tail: "safe.keeps pconf sconf (bindH (kill_countH (ts_session_id q)) (\<lambda>terminated.
       bindH (sessH (\<lambda>sm w. terminate_owned sm (ts_session_id q) (fp_of caller) w)) (\<lambda>(result, purged).
       bindH (killH purged) (\<lambda>_.
       bindH (mapH_err kill_attempted (resultH (mapE session_error_to_rpc result))) (\<lambda>_.
       okH \<lparr> tsr_terminated_processes = terminated \<rparr>)))))"
    by (rule safe.keepsI, erule safe_drop)
      (auto simp: bindH_def mapH_err_def split: sum.splits)
  show ?thesis
    unfolding handle_terminate_session_def
    by (rule safe.keeps_bind [OF safe.keeps_require_env safe.keeps_bind [OF safe.keeps_deny
        safe.keeps_bind [OF safe.keeps_require_sessions safe.keeps_bind [OF safe.keeps_map_err [OF safe_live]
          safe.keeps_if [OF safe.keeps_fail tail]]]]])
qed

section \<open>Histories of the daemon\<close>

text \<open>
  A request is well formed (its maps have no duplicate keys), and the daemon did not fail internally
  while creating a session.
\<close>

definition orderly :: "rpc_request \<Rightarrow> rpc_error + rpc_payload \<Rightarrow> bool" where
  "orderly req r \<longleftrightarrow> (\<forall>q. req = CreateSession q \<longrightarrow>
     hm_ok (cs_env_vars q) \<and> (\<forall>msg. r \<noteq> Inl (RpcInternalError msg)))"

inductive daemon_step :: "daemon_state \<Rightarrow> daemon_state \<Rightarrow> bool" where
  step_request: "handle_as b3 polls caller req (st, w) = (r, (st', w')) \<Longrightarrow> orderly req r \<Longrightarrow>
     daemon_step st st'"
| step_child: "ds_proc st = Some pm \<Longrightarrow> daemon_step st (st\<lparr> ds_proc := Some (run_event ev pm) \<rparr>)"

inductive_cases daemon_stepE: "daemon_step st st'"

lemma respond_safe:
  assumes "respond f m s = (r, s')" and "\<And>r0. m s = (r0, s') \<Longrightarrow> safe pconf sconf s s'"
  shows "safe pconf sconf s s'"
  using respond_run [OF assms(1)] assms(2) by blast

lemma safe_handle:
  assumes "handle_as b3 polls caller req s = (r, s')" and "orderly req r"
  shows "safe pconf sconf s s'"
proof (cases "\<exists>q. req = CreateSession q")
  case True
  then obtain q where q: "req = CreateSession q" by blast
  then obtain r0 where h: "handle_create_session caller q s = (r0, s')" and
    "\<And>e. r0 = Inl e \<Longrightarrow> r = Inl e"
    using assms(1) by (auto simp: respond_def bindH_def split: prod.splits sum.splits)
  then show ?thesis using assms(2) q by (intro safe_create [OF h]) (auto simp: orderly_def)
next
  case False
  have "safe.keeps pconf sconf (handle_as b3 polls caller req)"
    using False
    by (cases req) (auto intro!: safe.keeps_respond safe_look [OF look_info] safe_files safe_execute
        safe_processes safe_get_list safe_terminate
        safe_look [OF look_readers(1)] safe_look [OF look_readers(2)] safe_look [OF look_readers(3)])
  then show ?thesis using safe.keepsD assms(1) by blast
qed

lemma daemon_ok_step:
  "daemon_step st st' \<Longrightarrow> daemon_ok pconf sconf {} st \<Longrightarrow> daemon_ok pconf sconf {} st'"
proof (induction rule: daemon_step.induct)
  case (step_request b3 polls caller req st w r st' w')
  from safe_handle [OF this(1,2)] this(3) show ?case by (auto simp: safe_def)
next
  case (step_child st pm ev)
  then have "pm_ok (ds_environment_id st) pconf pm" by (simp add: daemon_ok_def)
  then show ?case
    using daemon_ok_proc [OF step_child(2,1)] pm_ok_event settles_event by blast
qed

lemma daemon_ok_reachable:
  "daemon_step\<^sup>*\<^sup>* st st' \<Longrightarrow> daemon_ok pconf sconf {} st \<Longrightarrow> daemon_ok pconf sconf {} st'"
  by (induction rule: rtranclp_induct) (auto intro: daemon_ok_step)


definition started_daemon :: daemon_state where
  "started_daemon = with_sess sample_manager (with_proc sample_pm
     (daemon_state_new sample_env ''host'' ''1.0'' cs_empty Debian))"

definition session_run :: "(rpc_error + rpc_payload) \<times> daemon_state \<times> world" where
  "session_run = handle_as (\<lambda>_. []) [] None (CreateSession sample_create) (started_daemon, sample_world)"

definition busy_run :: "(rpc_error + rpc_payload) \<times> daemon_state \<times> world" where
  "busy_run = handle_as (\<lambda>_. []) [] None (Execute (sample_exec\<lparr> ex_session_id := sample_id 0 \<rparr>)) (snd session_run)"

lemma sample_create_ok: "orderly (CreateSession sample_create) (fst session_run)"
proof -
  have "\<not> isl (fst session_run)" by code_simp
  then show ?thesis by (auto simp: orderly_def sample_create_def hm_ok_def)
qed

fun has_live_child :: "(rpc_error + rpc_payload) \<times> daemon_state \<times> world \<Rightarrow> bool" where
  "has_live_child (r, st, w) \<longleftrightarrow>
     (case ds_proc st of
        None \<Rightarrow> False
      | Some pm \<Rightarrow>
          pm_processes pm = [((sample_env, sample_id 0, ProcessId (''proc-'' @ hex_of (replicate 16 1))), 0)] \<and>
          entry_running pm 0 \<and> \<not> pe_kill_requested (pm_entries pm 0))"

lemma busy_run_child: "has_live_child busy_run"
  by code_simp


end
