(* ===== verification/WriteRead.thy ===== *)
theory WriteRead
  imports Targets
begin

text \<open>
  What is written is what is read: resolving the path of a successful write again, on the tree the
  write left behind, reaches the file that was written.
\<close>

section \<open>Walks after an entry has become a file\<close>

definition leaf_node :: "node option \<Rightarrow> bool" where
  "leaf_node n \<longleftrightarrow> (\<exists>k. n = Some k \<and> k \<noteq> NDir \<and> (\<forall>s. k \<noteq> NSymlink s))"


lemma leaf_not_dir: "leaf_node (hm_get t p) \<Longrightarrow> \<not> is_dir_node t p"
  by (auto simp: leaf_node_def is_dir_node_iff)

lemma agree_dir:
  assumes "agree_outside (\<lambda>q. q = p) t t'" and "\<not> is_dir_node t p" and "\<not> is_dir_node t' p"
  shows "is_dir_node t' q = is_dir_node t q"
  using assms by (cases "q = p") (auto simp: agree_outside_def is_dir_node_iff)

lemma walk_leaf_swap:
  assumes "agree_outside (\<lambda>q. q = p) t t'" and "leaf_node (hm_get t p)" and "leaf_node (hm_get t' p)"
  shows "walk t' b f cur todo = walk t b f cur todo"
  using assms
proof (induction t b f cur todo rule: walk.induct)
  case (2 t b f cur c rest)
  note dir = agree_dir [OF "2.prems"(1) leaf_not_dir [OF "2.prems"(2)] leaf_not_dir [OF "2.prems"(3)]]
  show ?case
  proof (cases "is_dir_node t cur \<and> c \<noteq> ''.'' \<and> c \<noteq> ''..''")
    case plain: True
    show ?thesis
    proof (cases "cur @ [c] = p")
      case True
      obtain k k' where k: "hm_get t (cur @ [c]) = Some k" "hm_get t' (cur @ [c]) = Some k'"
        "k \<noteq> NDir" "k' \<noteq> NDir" "\<And>s. k \<noteq> NSymlink s" "\<And>s. k' \<noteq> NSymlink s"
        using "2.prems" True by (auto simp: leaf_node_def)
      have "walk t' b f (cur @ [c]) rest = walk t b f (cur @ [c]) rest"
        using "2.IH" "2.prems" plain k by (cases k) auto
      then show ?thesis using k plain dir by (cases k; cases k') auto
    next
      case False
      then have same: "hm_get t' (cur @ [c]) = hm_get t (cur @ [c])"
        using "2.prems"(1) by (simp add: agree_outside_def)
      show ?thesis
      proof (cases "hm_get t (cur @ [c])")
        case (Some n)
        then show ?thesis using "2.IH" "2.prems" plain same dir by (cases n; cases b) auto
      qed (use same plain dir in simp)
    qed
  qed (use "2.IH" "2.prems" dir in auto)
qed simp

lemma walk_new_leaf:
  assumes "agree_outside (\<lambda>q. q = p) t t'" and "hm_get t p = None" and "leaf_node (hm_get t' p)"
    and "walk t b f cur todo = Inr x"
  shows "walk t' b f cur todo = Inr x"
  using assms
proof (induction t b f cur todo rule: walk.induct)
  case (2 t b f cur c rest)
  have "\<not> is_dir_node t p" using "2.prems"(2) by (simp add: is_dir_node_iff)
  note dir = agree_dir [OF "2.prems"(1) this leaf_not_dir [OF "2.prems"(3)]]
  show ?case
  proof (cases "is_dir_node t cur \<and> c \<noteq> ''.'' \<and> c \<noteq> ''..''")
    case plain: True
    then obtain n where n: "hm_get t (cur @ [c]) = Some n"
      using "2.prems"(4) by (cases "hm_get t (cur @ [c])") auto
    then have "cur @ [c] \<noteq> p" using "2.prems"(2) by auto
    then have n': "hm_get t' (cur @ [c]) = Some n" using "2.prems"(1) n by (simp add: agree_outside_def)
    show ?thesis
    proof (cases "\<exists>s. n = NSymlink s \<and> \<not> (rest = [] \<and> \<not> f)")
      case True
      then obtain s k where s: "n = NSymlink s" "\<not> (rest = [] \<and> \<not> f)" "s \<noteq> []" "b = Suc k"
        using "2.prems"(4) plain n by (auto split: if_splits nat.splits)
      then show ?thesis using "2.IH" "2.prems" plain n n' dir by (auto split del: if_split)
    next
      case False
      then consider (leaf) "\<forall>s. n \<noteq> NSymlink s" | (kept) s where "n = NSymlink s" "rest = [] \<and> \<not> f"
        by (cases n) auto
      then show ?thesis
      proof cases
        case leaf
        then have "walk t' b f (cur @ [c]) rest = Inr x"
          using "2.IH" "2.prems" plain n by (cases n) simp_all
        then show ?thesis using leaf plain n' dir by (cases n) simp_all
      qed (use "2.prems"(4) plain n n' dir in simp)
    qed
  qed (use "2.IH" "2.prems" dir in \<open>auto split: if_splits\<close>)
qed simp

lemma trim_dots_split: "\<exists>n. raw = trim_dots raw @ replicate n ''.''"
proof (induction raw rule: rev_induct)
  case (snoc x xs)
  then obtain n where "xs = trim_dots xs @ replicate n ''.''" ..
  then have "xs @ [''.''] = trim_dots xs @ replicate (Suc n) ''.''"
    by (metis append_assoc replicate_Suc replicate_append_same)
  moreover have "trim_dots (xs @ [x]) = (if x = ''.'' then trim_dots xs else xs @ [x])"
    by (simp add: trim_dots_def)
  ultimately show ?case by (cases "x = ''.''") (metis, metis append_Nil2 replicate_0)
qed (simp add: trim_dots_def)

lemma file_name_shape:
  assumes "abs_parent raw = Some parent" and "abs_file_name raw = Some leaf"
  obtains m n where "raw = parent @ replicate m ''.'' @ [leaf] @ replicate n ''.''"
    and "leaf \<noteq> ''.''" and "leaf \<noteq> ''..''" and "last raw \<noteq> ''.'' \<Longrightarrow> n = 0"
proof -
  obtain t where t: "trim_dots raw = t" "t \<noteq> []" "leaf = last t" "leaf \<noteq> ''..''"
    "parent = trim_dots (butlast t)"
    using assms by (auto simp: abs_parent_def abs_file_name_def Let_def split: if_splits)
  obtain n where n: "raw = t @ replicate n ''.''" using trim_dots_split [of raw] t(1) by auto
  obtain m where m: "butlast t = parent @ replicate m ''.''" using trim_dots_split [of "butlast t"] t(5) by auto
  have "t = butlast t @ [leaf]" using t(2,3) by simp
  then have "raw = parent @ replicate m ''.'' @ [leaf] @ replicate n ''.''"
    using n m by (metis append_assoc)
  moreover have "leaf \<noteq> ''.''" using trim_dots_last [of raw] t(1-3) by simp
  moreover have "n = 0" if "last raw \<noteq> ''.''" using that n by (cases "n = 0") simp_all
  ultimately show ?thesis using that t(4) by blast
qed

lemma walk_skip_dots:
  "is_dir_node t d \<Longrightarrow> walk t b True d (replicate m ''.'' @ rest) = walk t b True d rest"
  by (induction m) auto

lemma walk_to_file:
  assumes "is_dir_node t d" and "leaf \<noteq> ''.''" and "leaf \<noteq> ''..''" and "hm_get t (d @ [leaf]) = Some (NFile c)"
  shows "walk t b True d (replicate m ''.'' @ [leaf] @ replicate n ''.'') =
    (if n = 0 then Inr (d @ [leaf]) else Inl ENOTDIR)"
  using assms by (cases n) (auto simp: walk_skip_dots is_dir_node_iff)

lemma root_target_written:
  assumes wf: "wf_tree t" "wf_tree t'" and agree: "agree_outside (\<lambda>q. q = p) t t'"
    and new: "hm_get t' p = Some (NFile c)" and old: "hm_get t p = None \<or> leaf_node (hm_get t p)"
    and tgt: "root_target t path root = Some p"
  shows "root_target t' path root = Some q \<Longrightarrow> q = p"
    and "last (root @ split_path path) \<noteq> ''.'' \<Longrightarrow> real_path t' (root @ split_path path) = Inr p"
proof -
  let ?j = "root @ split_path path"
  have leaf': "leaf_node (hm_get t' p)" using new by (simp add: leaf_node_def)
  have keeps: "real_path t raw = Inr x \<Longrightarrow> real_path t' raw = Inr x" for raw x
    using old walk_new_leaf [OF agree _ leaf'] walk_leaf_swap [OF agree _ leaf']
    by (metis real_path_def)
  have "(root_target t' path root = Some q \<longrightarrow> q = p) \<and>
    (last ?j \<noteq> ''.'' \<longrightarrow> real_path t' ?j = Inr p)"
  proof (cases "real_path t ?j")
    case (Inr x)
    then have "real_path t' ?j = Inr p" using tgt keeps by (simp add: root_target_def)
    then show ?thesis by (simp add: root_target_def)
  next
    case (Inl e)
    then obtain parent d leaf where par: "abs_parent ?j = Some parent" "real_path t parent = Inr d"
      "abs_file_name ?j = Some leaf" and p: "p = d @ [leaf]"
      using tgt by (auto simp: root_target_def Let_def split: sum.splits option.splits if_splits)
    obtain m n where j: "?j = parent @ replicate m ''.'' @ [leaf] @ replicate n ''.''"
      and names: "leaf \<noteq> ''.''" "leaf \<noteq> ''..''" and last0: "last ?j \<noteq> ''.'' \<Longrightarrow> n = 0"
      using file_name_shape [OF par(1,3)] by metis
    have dir: "is_dir_node t' d" using wf_tree_parent(1) [OF wf(2)] new p by blast
    obtain b where "\<And>ys. real_path t' (parent @ ys) = walk t' b True d ys"
      using walk_append [of t' SYMLINK_LIMIT "[]" parent d] keeps [OF par(2)] by (auto simp: real_path_def)
    then have "real_path t' ?j = (if n = 0 then Inr p else Inl ENOTDIR)"
      using walk_to_file [OF dir names] new p unfolding j by simp
    then show ?thesis using last0 by (auto simp: root_target_def Let_def)
  qed
  then show "root_target t' path root = Some q \<Longrightarrow> q = p"
    and "last ?j \<noteq> ''.'' \<Longrightarrow> real_path t' ?j = Inr p" by auto
qed

section \<open>Reading what was written\<close>

lemma target_single:
  "fc_allowed_roots cfg = [root] \<Longrightarrow> target True cfg t path = Some q \<longleftrightarrow> root_target t path root = Some q"
  by (simp add: target_def follow_target_def split: option.split)

lemma write_file_done:
  assumes wf: "wf_tree (w_fs w)" and ok: "cfg_ok cfg"
    and run: "fs_write_file bl cfg path content overwrite expected w = (Inr md, w')"
    and tgt: "target True cfg (w_fs w) path = Some p" and nt: "\<not> prefix temp_prefix (last p)"
  shows "wf_tree (w_fs w') \<and> hm_get (w_fs w') p = Some (NFile content) \<and>
    agree_outside (\<lambda>q. q = p) (w_fs w) (w_fs w') \<and> \<not> is_dir_node (w_fs w) p \<and>
    fm_hash md = Some (bl content) \<and> fm_size md = length content \<and>
    length content \<le> fc_max_file_bytes cfg \<and>
    (\<exists>w1. fs_resolve cfg path w = (Inr p, w1)) \<and> under_roots cfg p \<and>
    target_ok bl cfg (w_fs w) p overwrite expected"
  using write_file_run [OF wf ok run]
proof
  assume "\<exists>d c w1 w3. fs_resolve cfg path w = (Inr (d @ [c]), w1) \<and>
       length content \<le> fc_max_file_bytes cfg \<and> writable bl cfg (w_fs w) d c overwrite expected \<and>
       same_tree w w3 \<and> commit_stage bl d (d @ [c]) content (\<not> overwrite) w3 = (Inr md, w')"
  then obtain d c w1 w3 where res: "fs_resolve cfg path w = (Inr (d @ [c]), w1)"
    and small: "length content \<le> fc_max_file_bytes cfg"
    and wr: "writable bl cfg (w_fs w) d c overwrite expected" and s: "same_tree w w3"
    and com: "commit_stage bl d (d @ [c]) content (\<not> overwrite) w3 = (Inr md, w')" by blast
  have p: "p = d @ [c]" using resolve_target [OF res] tgt by simp
  have fs: "w_fs w3 = w_fs w" using s by (rule same_treeD)
  have nc: "normal_name c" and good: "good {d} {} (w_fs w3)"
    using wr wf fs by (auto simp: writable_def good_def)
  have temp: "\<not> is_temp d (d @ [c])" using nt p by (simp add: is_temp_def)
  have "committed d p content (w_fs w) (w_fs w') \<and> fm_hash md = Some (bl content) \<and>
    fm_size md = length content"
    using commit_stage_spec [OF com good nc temp] fs p by auto
  moreover have "under_roots cfg p"
    using resolve_Ok_resolved [OF wf ok res] p by (simp add: resolved_def)
  moreover have "target_ok bl cfg (w_fs w) p overwrite expected" using wr p by (simp add: writable_def)
  ultimately show ?thesis using small res p by (auto simp: committed_def)
qed blast

lemma read_file_result:
  assumes "fs_read_file bl cfg path w = (Inr (got, md), w')"
  obtains q w1 meta w2 where "fs_resolve cfg path w = (Inr q, w1)" and "sys_stat q w1 = (Inr meta, w2)"
    and "sys_read q w2 = (Inr got, w')" and "md = with_content_hash bl (make_metadata meta) got"
  using assms
  by (auto simp: fs_read_file_def io_def bindM_Inr split: if_splits)

lemma faultless: "w_fault w = (\<lambda>_. None) \<Longrightarrow> syscall op w = op (w\<lparr> w_sys := Suc (w_sys w) \<rparr>)"
  by (simp add: syscall_def)

lemma resolve_calm:
  assumes "w_fault w = (\<lambda>_. None)" and "fc_allowed_roots cfg = [root]" and "check_path_shape path = Inr ()"
    and "real_path (w_fs w) (root @ split_path path) = Inr p" and "prefix root p"
  shows "fs_resolve cfg path w = (Inr p, w\<lparr> w_sys := Suc (w_sys w) \<rparr>)"
  using assms
  by (simp add: fs_resolve_def bindM_def liftM_def resolve_root_def sys_canonicalize_def faultless)

lemma read_file_succeeds:
  assumes calm: "w_fault w = (\<lambda>_. None)" and wf: "wf_tree (w_fs w)" and single: "fc_allowed_roots cfg = [root]"
    and shape: "check_path_shape path = Inr ()" and real: "real_path (w_fs w) (root @ split_path path) = Inr p"
    and under: "prefix root p" and entry: "hm_get (w_fs w) p = Some (NFile content)"
    and small: "length content \<le> fc_max_file_bytes cfg"
  shows "\<exists>md w'. fs_read_file bl cfg path w = (Inr (content, md), w')"
proof -
  let ?w = "\<lambda>n. w\<lparr> w_sys := n \<rparr>"
  have self: "real_path (w_fs w) p = Inr p" using real_path_canonical [OF wf entry] by simp
  have "sys_stat p (?w n) = (metadata_of (?w (Suc n)) p, ?w (Suc n))"
    "sys_read p (?w n) = (Inr content, ?w (Suc n))" for n
    using calm self entry by (simp_all add: sys_stat_def sys_read_def faultless node_content_def)
  then show ?thesis
    using resolve_calm [OF calm single shape real under] entry small
    by (simp add: fs_read_file_def bindM_def io_def mapM_err_def metadata_of_def okM_def)
qed

lemma written_target:
  assumes "wf_tree (w_fs w)" and "cfg_ok cfg" and single: "fc_allowed_roots cfg = [root]"
    and "fs_write_file bl cfg path content overwrite expected w = (Inr md, w1)"
    and tgt: "target True cfg (w_fs w) path = Some p"
    and plain: "\<not> is_symlink_node (w_fs w) p" and "\<not> prefix temp_prefix (last p)"
  shows "target True cfg (w_fs w1) path = Some q \<Longrightarrow> q = p"
    and "last (root @ split_path path) \<noteq> ''.'' \<Longrightarrow> real_path (w_fs w1) (root @ split_path path) = Inr p"
proof -
  note run = write_file_done [OF assms(1,2,4,5,7)]
  have "hm_get (w_fs w) p = None \<or> leaf_node (hm_get (w_fs w) p)"
    using run plain by (auto simp: leaf_node_def is_dir_node_iff is_symlink_node_def split: option.splits)
  moreover have "root_target (w_fs w) path root = Some p" using target_single [OF single] tgt by simp
  ultimately show "target True cfg (w_fs w1) path = Some q \<Longrightarrow> q = p"
    and "last (root @ split_path path) \<noteq> ''.'' \<Longrightarrow> real_path (w_fs w1) (root @ split_path path) = Inr p"
    using root_target_written [of "w_fs w" "w_fs w1" p content] run assms(1) target_single [OF single] by auto
qed

lemma reads_written:
  assumes "wf_tree (w_fs w)" and "cfg_ok cfg" and "fc_allowed_roots cfg = [root]"
    and "fs_write_file bl cfg path content overwrite expected w = (Inr md, w1)"
    and "target True cfg (w_fs w) path = Some p"
    and "\<not> is_symlink_node (w_fs w) p" and "\<not> prefix temp_prefix (last p)"
    and same: "w_fs w2 = w_fs w1" and read: "fs_read_file bl' cfg path w2 = (Inr (got, md'), w3)"
  shows "got = content \<and> fm_hash md' = Some (bl' content)"
  using read
proof (rule read_file_result)
  fix q u meta v
  assume res: "fs_resolve cfg path w2 = (Inr q, u)" and st: "sys_stat q u = (Inr meta, v)"
    and rd: "sys_read q v = (Inr got, w3)" and md': "md' = with_content_hash bl' (make_metadata meta) got"
  have new: "hm_get (w_fs w1) p = Some (NFile content)" and wf1: "wf_tree (w_fs w1)"
    using write_file_done [OF assms(1,2,4,5,7)] by simp_all
  have self: "real_path (w_fs w1) p = Inr p" using real_path_canonical [OF wf1 new] by simp
  have q: "q = p" using written_target(1) [OF assms(1-7)] resolve_target [OF res] same by simp
  have "same_tree w2 u" by (rule resolve_same [OF res])
  moreover have "same_tree u v" by (rule same_tree.obeysD [OF obeys_stat st])
  ultimately have fs: "w_fs u = w_fs w1" "w_fs v = w_fs w1" using same by (simp_all add: same_tree_def)
  have "got = content" using rd fs q self new by (auto simp: sys_read_def syscall_Inr node_content_def)
  moreover have "md_kind meta = KFile"
    using st fs q self new by (auto simp: sys_stat_def syscall_Inr metadata_of_def)
  ultimately show ?thesis
    using md' by (simp add: with_content_hash_def make_metadata_def hash_bytes_def)
qed



end
