(* ===== verification/RenameFallback.thy ===== *)
theory RenameFallback
  imports FsOps
begin

text \<open>
  The variant of \<open>rename_noreplace\<close> of \<open>are-daemon/src/fs.rs\<close> for systems other than Linux: a test
  and then a rename.  What other programs do to the machine between the two calls is a parameter.
\<close>

definition rename_noreplace_fallback ::
  "(world \<Rightarrow> world) \<Rightarrow> fpath \<Rightarrow> fpath \<Rightarrow> (fs_error, unit) comp" where
  "rename_noreplace_fallback between src dst =
     matchM (sys_lstat dst)
       (\<lambda>_. failM (FConflict ''destination exists''))
       (\<lambda>e. if is_not_found e
            then (\<lambda>w. io (sys_rename src dst) (between w))
            else failM (fs_error_from_io e))"

text \<open>An entry below a directory that \<open>lstat\<close> does not find does not exist.\<close>

lemma lstat_not_found:
  assumes wf: "wf_tree (w_fs w)" and d: "is_dir_node (w_fs w) d" and c: "normal_name c"
    and st: "sys_lstat (d @ [c]) w = (Inl e, w')" and e: "is_not_found e"
  shows "hm_get (w_fs w) (d @ [c]) = None \<and> w_fault w (w_sys w) = None"
proof -
  have "real_path_no_follow (w_fs w) (d @ [c]) = walk (w_fs w) SYMLINK_LIMIT False d [c]"
    using walk_through_dir [OF wf, of "[]" d] d by (simp add: real_path_no_follow_def)
  then show ?thesis
    using st e d c
    by (auto simp: sys_lstat_def syscall_def Let_def metadata_of_def normal_name_def is_not_found_def
        split: option.splits node.splits elim: fault_errno.elims)
qed

lemma rename_free:
  "entry_path t dst = Inr d \<Longrightarrow> hm_get t d = None \<Longrightarrow> t_rename True src dst t = t_rename False src dst t"
  by (auto simp: t_rename_def intro!: bindE_cong split: option.split)

text \<open>
  Undisturbed, the test and the rename do what the atomic call of Linux does: the rename goes through
  exactly where the call would, with the same tree, and a destination that exists is a conflict.
\<close>

theorem fallback_is_noreplace:
  assumes wf: "wf_tree (w_fs w)" and d: "is_dir_node (w_fs w) d" and c: "normal_name c"
    and run: "rename_noreplace_fallback (\<lambda>w. w) src (d @ [c]) w = (r, w')"
  shows "(r = Inr () \<longrightarrow> t_rename True src (d @ [c]) (w_fs w) = Inr (w_fs w')) \<and>
    (r \<noteq> Inr () \<longrightarrow> same_tree w w')"
proof -
  obtain g w1 where st: "sys_lstat (d @ [c]) w = (g, w1)" by fastforce
  then have w1: "w_fs w1 = w_fs w" "same_tree w w1"
    by (auto simp: sys_lstat_def syscall_def Let_def same_tree_def split: option.splits)
  show ?thesis
  proof (cases "\<exists>e. g = Inl e \<and> is_not_found e")
    case True
    then have free: "hm_get (w_fs w) (d @ [c]) = None" using lstat_not_found [OF wf d c] st by blast
    have "io (sys_rename src (d @ [c])) w1 = (r, w')"
      using run st True by (auto simp: rename_noreplace_fallback_def matchM_def)
    then obtain g2 where mv: "tree_call (t_rename False src (d @ [c])) w1 = (g2, w')" "r = mapE fs_error_from_io g2"
      by (auto simp: io_def mapM_err_def sys_rename_def split: prod.splits)
    show ?thesis
    proof (cases g2)
      case (Inl e)
      then have "same_tree w1 w'"
        using mv(1) by (auto simp: tree_call_def syscall_def Let_def same_tree_def split: option.splits sum.splits)
      then show ?thesis using Inl mv(2) w1(2) same_tree.R_trans by auto
    next
      case (Inr u)
      then show ?thesis
        using tree_call_Inr(1) [OF mv(1) [unfolded Inr]] rename_free [OF entry_path_real [OF wf d c] free] w1(1) mv(2)
        by simp
    qed
  next
    case False
    then show ?thesis
      using run st w1(2) by (auto simp: rename_noreplace_fallback_def matchM_def failM_def split: sum.splits if_splits)
  qed
qed

theorem fallback_is_noreplace_example:
  "t_rename True [''srv'', ''a''] [''srv'', ''b''] (w_fs sample_world) =
     Inr (w_fs (snd (rename_noreplace_fallback (\<lambda>w. w) [''srv'', ''a''] [''srv'', ''b''] sample_world)))"
proof -
  let ?run = "rename_noreplace_fallback (\<lambda>w. w) [''srv'', ''a''] ([''srv''] @ [''b'']) sample_world"
  have "fst ?run = Inr ()" by code_simp
  moreover have "is_dir_node sample_tree [''srv'']" by code_simp
  moreover have "w_fs sample_world = sample_tree" by (simp add: sample_world_def)
  ultimately show ?thesis
    using fallback_is_noreplace [of sample_world "[''srv'']" "''b''" "[''srv'', ''a'']" "fst ?run" "snd ?run"]
      sample_tree_wf by (simp add: prod_eq_iff normal_name_def slash_def nul_def)
qed

text \<open>
  Disturbed, it replaces what another program has just created: the window that the comment of the
  source names.
\<close>

definition racer :: "world \<Rightarrow> world" where
  "racer w = set_tree (hm_insert [''srv'', ''b''] (NFile [9]) (w_fs w)) w"

theorem fallback_race_replaces:
  "fst (rename_noreplace_fallback racer [''srv'', ''a''] [''srv'', ''b''] sample_world) = Inr () \<and>
   hm_get (w_fs (snd (rename_noreplace_fallback racer [''srv'', ''a''] [''srv'', ''b''] sample_world)))
     [''srv'', ''b''] = Some (NFile [1, 2]) \<and>
   t_rename True [''srv'', ''a''] [''srv'', ''b''] (w_fs (racer sample_world)) = Inl EEXIST"
proof (intro conjI)
  show "fst (rename_noreplace_fallback racer [''srv'', ''a''] [''srv'', ''b''] sample_world) = Inr ()"
    by code_simp
  show "hm_get (w_fs (snd (rename_noreplace_fallback racer [''srv'', ''a''] [''srv'', ''b''] sample_world)))
     [''srv'', ''b''] = Some (NFile [1, 2])" by code_simp
  show "t_rename True [''srv'', ''a''] [''srv'', ''b''] (w_fs (racer sample_world)) = Inl EEXIST"
    by code_simp
qed

end
