(* ===== verification/Framing.thy ===== *)
theory Framing
  imports Prelude
begin

text \<open>
  The wire format: a message is its JSON bytes behind a big-endian 32-bit length, in the two
  implementations of the code, \<open>are-daemon/src/framing.rs\<close> (with a limit on what it sends) and
  \<open>are-client/src/framing.rs\<close> (without one).  \<open>serde_json::to_vec\<close> and \<open>from_slice\<close> are the parameters
  \<open>ser\<close> and \<open>de\<close>.  A reader is the bytes that will still arrive and how the connection ends; a writer
  is the bytes it has handed to the connection and the point where the connection breaks.
\<close>

section \<open>Connections\<close>

datatype stream_error = SUnexpectedEof | SInvalidData string | SOther string

record byte_reader =
  rd_data :: bytes
  rd_end :: "string option"

record byte_writer =
  wr_sent :: bytes
  wr_limit :: "(nat \<times> string) option"
  wr_flush :: "string option"

definition read_exact :: "nat \<Rightarrow> byte_reader \<Rightarrow> (stream_error + bytes) \<times> byte_reader" where
  "read_exact n rd =
     (if n \<le> length (rd_data rd)
      then (Inr (take n (rd_data rd)), rd\<lparr> rd_data := drop n (rd_data rd) \<rparr>)
      else (Inl (case rd_end rd of None \<Rightarrow> SUnexpectedEof | Some e \<Rightarrow> SOther e),
            rd\<lparr> rd_data := [] \<rparr>))"

definition write_all :: "bytes \<Rightarrow> byte_writer \<Rightarrow> (stream_error + unit) \<times> byte_writer" where
  "write_all bs w =
     (case wr_limit w of
        None \<Rightarrow> (Inr (), w\<lparr> wr_sent := wr_sent w @ bs \<rparr>)
      | Some (n, e) \<Rightarrow>
          if length bs \<le> n
          then (Inr (), w\<lparr> wr_sent := wr_sent w @ bs, wr_limit := Some (n - length bs, e) \<rparr>)
          else (Inl (SOther e), w\<lparr> wr_sent := wr_sent w @ take n bs, wr_limit := Some (0, e) \<rparr>))"

definition flush :: "byte_writer \<Rightarrow> (stream_error + unit) \<times> byte_writer" where
  "flush w = (case wr_flush w of None \<Rightarrow> (Inr (), w) | Some e \<Rightarrow> (Inl (SOther e), w))"

definition new_writer :: byte_writer where
  "new_writer = \<lparr> wr_sent = [], wr_limit = None, wr_flush = None \<rparr>"

definition open_writer :: "byte_writer \<Rightarrow> bool" where
  "open_writer w \<longleftrightarrow> wr_limit w = None \<and> wr_flush w = None"

section \<open>The length prefix\<close>

definition DEFAULT_MAX_PAYLOAD :: nat where
  "DEFAULT_MAX_PAYLOAD = 16 * 1024 * 1024"

definition LEN_PREFIX_SIZE :: nat where
  "LEN_PREFIX_SIZE = 4"

definition u32_try_from :: "nat \<Rightarrow> 32 word option" where
  "u32_try_from n = (if n < 2 ^ 32 then Some (word_of_nat n) else None)"

definition to_be_bytes :: "32 word \<Rightarrow> bytes" where
  "to_be_bytes x = map (\<lambda>k. ucast (drop_bit k x)) [24, 16, 8, 0]"

definition from_be_bytes :: "bytes \<Rightarrow> 32 word" where
  "from_be_bytes bs = foldl (\<lambda>acc b. or (push_bit 8 acc) (ucast b)) 0 bs"

section \<open>The daemon side\<close>

datatype framing_error =
    ResponseTooLarge nat nat
  | Serialization string
  | FramingIo stream_error

definition send_frame :: "bytes \<Rightarrow> byte_writer \<Rightarrow> (stream_error + unit) \<times> byte_writer" where
  "send_frame json w =
     (case u32_try_from (length json) of
        None \<Rightarrow> (Inl (SInvalidData ''payload exceeds 4 GiB''), w)
      | Some len \<Rightarrow>
          (case write_all (to_be_bytes len) w of
             (Inl e, w1) \<Rightarrow> (Inl e, w1)
           | (Inr _, w1) \<Rightarrow>
               (case write_all json w1 of
                  (Inl e, w2) \<Rightarrow> (Inl e, w2)
                | (Inr _, w2) \<Rightarrow> flush w2)))"

definition write_message_sized ::
  "('a \<Rightarrow> string + bytes) \<Rightarrow> nat \<Rightarrow> 'a \<Rightarrow> byte_writer \<Rightarrow> (framing_error + unit) \<times> byte_writer" where
  "write_message_sized ser max_payload payload w =
     (case ser payload of
        Inl e \<Rightarrow> (Inl (Serialization e), w)
      | Inr json \<Rightarrow>
          if length json > max_payload
          then (Inl (ResponseTooLarge (length json) max_payload), w)
          else (case send_frame json w of (r, w') \<Rightarrow> (mapE FramingIo r, w')))"

definition write_message ::
  "('a \<Rightarrow> string + bytes) \<Rightarrow> 'a \<Rightarrow> byte_writer \<Rightarrow> (framing_error + unit) \<times> byte_writer" where
  "write_message ser payload w = write_message_sized ser DEFAULT_MAX_PAYLOAD payload w"

definition read_message_sized ::
  "(bytes \<Rightarrow> string + 'a) \<Rightarrow> nat \<Rightarrow> byte_reader \<Rightarrow> (stream_error + 'a) \<times> byte_reader" where
  "read_message_sized de max_payload rd =
     (case read_exact LEN_PREFIX_SIZE rd of
        (Inl e, rd1) \<Rightarrow> (Inl e, rd1)
      | (Inr len_buf, rd1) \<Rightarrow>
          let len = unat (from_be_bytes len_buf) in
          if len > max_payload
          then (Inl (SInvalidData (''payload size '' @ nat_str len @ '' exceeds maximum ''
                 @ nat_str max_payload)), rd1)
          else (case read_exact len rd1 of
                  (Inl e, rd2) \<Rightarrow> (Inl e, rd2)
                | (Inr buf, rd2) \<Rightarrow> (mapE SInvalidData (de buf), rd2)))"

definition read_message :: "(bytes \<Rightarrow> string + 'a) \<Rightarrow> byte_reader \<Rightarrow> (stream_error + 'a) \<times> byte_reader" where
  "read_message de rd = read_message_sized de DEFAULT_MAX_PAYLOAD rd"

section \<open>The client side\<close>

definition CLIENT_MAX_PAYLOAD :: nat where
  "CLIENT_MAX_PAYLOAD = 16 * 1024 * 1024"

definition client_write_message ::
  "('a \<Rightarrow> string + bytes) \<Rightarrow> 'a \<Rightarrow> byte_writer \<Rightarrow> (stream_error + unit) \<times> byte_writer" where
  "client_write_message ser payload w =
     (case ser payload of
        Inl e \<Rightarrow> (Inl (SInvalidData e), w)
      | Inr json \<Rightarrow> send_frame json w)"

definition client_read_message_sized ::
  "(bytes \<Rightarrow> string + 'a) \<Rightarrow> nat \<Rightarrow> byte_reader \<Rightarrow> (stream_error + 'a) \<times> byte_reader" where
  "client_read_message_sized de max_payload rd =
     (case read_exact 4 rd of
        (Inl e, rd1) \<Rightarrow> (Inl e, rd1)
      | (Inr len_buf, rd1) \<Rightarrow>
          let len = unat (from_be_bytes len_buf) in
          if len > max_payload
          then (Inl (SInvalidData (''payload size '' @ nat_str len @ '' exceeds maximum ''
                 @ nat_str max_payload)), rd1)
          else (case read_exact len rd1 of
                  (Inl e, rd2) \<Rightarrow> (Inl e, rd2)
                | (Inr buf, rd2) \<Rightarrow> (mapE SInvalidData (de buf), rd2)))"

definition client_read_message ::
  "(bytes \<Rightarrow> string + 'a) \<Rightarrow> byte_reader \<Rightarrow> (stream_error + 'a) \<times> byte_reader" where
  "client_read_message de rd = client_read_message_sized de CLIENT_MAX_PAYLOAD rd"

section \<open>Frames\<close>

definition frame :: "bytes \<Rightarrow> bytes" where
  "frame json = to_be_bytes (word_of_nat (length json)) @ json"

lemma length_to_be_bytes [simp]: "length (to_be_bytes x) = LEN_PREFIX_SIZE"
  by (simp add: to_be_bytes_def LEN_PREFIX_SIZE_def)

lemma from_to_be_bytes [simp]: "from_be_bytes (to_be_bytes x) = x"
proof (rule bit_word_eqI)
  fix n
  assume n: "n < LENGTH(32)"
  then have "n < 8 \<or> (8 \<le> n \<and> n < 16) \<or> (16 \<le> n \<and> n < 24) \<or> (24 \<le> n \<and> n < 32)"
    by auto
  then show "bit (from_be_bytes (to_be_bytes x)) n = bit x n"
    by (elim disjE) (auto simp: from_be_bytes_def to_be_bytes_def bit_simps)
qed
lemma announced_length: "n < 2 ^ 32 \<Longrightarrow> unat (word_of_nat n :: 32 word) = n"
  by (simp add: unat_of_nat)

lemma length_frame [simp]: "length (frame json) = LEN_PREFIX_SIZE + length json"
  by (simp add: frame_def)

lemma write_all_cases:
  assumes "write_all bs w = (r, w')"
  shows "(\<exists>p. wr_sent w' = wr_sent w @ p \<and> prefix p bs) \<and>
    (r = Inr () \<longrightarrow> wr_sent w' = wr_sent w @ bs) \<and> (r \<noteq> Inr () \<longrightarrow> wr_limit w' \<noteq> None)"
  using assms by (auto simp: write_all_def take_is_prefix split: option.splits if_splits)

lemma write_all_open: "open_writer w \<Longrightarrow> write_all bs w = (Inr (), w\<lparr> wr_sent := wr_sent w @ bs \<rparr>)"
  by (simp add: write_all_def open_writer_def)

lemma flush_cases: "flush w = (r, w') \<Longrightarrow> w' = w"
  by (auto simp: flush_def split: option.splits)

lemma send_frame_sent:
  assumes "send_frame json w = (r, w')"
  shows "\<exists>p. wr_sent w' = wr_sent w @ p \<and> prefix p (frame json) \<and> (p \<noteq> [] \<longrightarrow> length json < 2 ^ 32)"
    and "r = Inr () \<Longrightarrow> wr_sent w' = wr_sent w @ frame json \<and> length json < 2 ^ 32"
  using assms
  by (auto simp: send_frame_def frame_def u32_try_from_def prefix_append same_prefix_prefix
      split: option.splits prod.splits sum.splits if_splits dest!: write_all_cases flush_cases)

lemma send_frame_open:
  assumes "open_writer w" and "length json < 2 ^ 32"
  shows "send_frame json w = (Inr (), w\<lparr> wr_sent := wr_sent w @ frame json \<rparr>)"
proof -
  have "open_writer (w\<lparr> wr_sent := bs \<rparr>)" for bs using assms(1) by (simp add: open_writer_def)
  moreover have "wr_flush w = None" using assms(1) by (simp add: open_writer_def)
  ultimately show ?thesis
    using assms by (simp add: send_frame_def u32_try_from_def write_all_open flush_def frame_def)
qed

lemma read_exact_append:
  "rd_data rd = a @ b \<Longrightarrow> n = length a \<Longrightarrow> read_exact n rd = (Inr a, rd\<lparr> rd_data := b \<rparr>)"
  by (simp add: read_exact_def)

lemma read_exact_Inr:
  "read_exact n rd = (Inr bs, rd') \<Longrightarrow> rd_data rd = bs @ rd_data rd' \<and> length bs = n"
  by (auto simp: read_exact_def split: if_splits)

lemma read_exact_suffix: "read_exact n rd = (r, rd') \<Longrightarrow> suffix (rd_data rd') (rd_data rd)"
  by (auto simp: read_exact_def suffix_drop split: if_splits)

lemma client_read_is_daemon_read: "client_read_message_sized = read_message_sized"
  by (intro ext) (simp only: client_read_message_sized_def read_message_sized_def LEN_PREFIX_SIZE_def)

lemma read_message_frame:
  assumes "rd_data rd = frame json @ rest" and "length json < 2 ^ 32" and "length json \<le> max_payload"
  shows "read_message_sized de max_payload rd = (mapE SInvalidData (de json), rd\<lparr> rd_data := rest \<rparr>)"
proof -
  have "read_exact LEN_PREFIX_SIZE rd = (Inr (to_be_bytes (word_of_nat (length json))), rd\<lparr> rd_data := json @ rest \<rparr>)"
    by (rule read_exact_append) (use assms(1) in \<open>simp_all add: frame_def\<close>)
  moreover have "unat (word_of_nat (length json) :: 32 word) = length json"
    using assms(2) by (rule announced_length)
  moreover have "read_exact (length json) (rd\<lparr> rd_data := json @ rest \<rparr>) = (Inr json, rd\<lparr> rd_data := rest \<rparr>)"
    by (subst read_exact_append [where a = json and b = rest]) simp_all
  ultimately show ?thesis using assms(3) by (simp add: read_message_sized_def)
qed

lemma read_message_cut:
  assumes "strict_prefix (rd_data rd) (frame json)" and "length json < 2 ^ 32"
  shows "\<exists>e. fst (read_message_sized de max_payload rd) = Inl e"
proof (cases "LEN_PREFIX_SIZE \<le> length (rd_data rd)")
  case True
  let ?len = "to_be_bytes (word_of_nat (length json))"
  obtain more where more: "frame json = rd_data rd @ more" "more \<noteq> []"
    using assms(1) by (auto simp: strict_prefix_def prefix_def)
  have head: "take LEN_PREFIX_SIZE (rd_data rd) = ?len"
  proof -
    have "take LEN_PREFIX_SIZE (frame json) = take LEN_PREFIX_SIZE (rd_data rd)" using more(1) True by simp
    then show ?thesis by (simp add: frame_def)
  qed
  have len: "unat (word_of_nat (length json) :: 32 word) = length json"
    using assms(2) by (rule announced_length)
  have "length (rd_data rd) < LEN_PREFIX_SIZE + length json"
    using more length_frame [of json] by (metis length_append length_greater_0_conv less_add_same_cancel1)
  then have short: "\<not> length json \<le> length (drop LEN_PREFIX_SIZE (rd_data rd))" using True by simp
  then have "\<exists>e. fst (read_exact (length json) (rd\<lparr> rd_data := drop LEN_PREFIX_SIZE (rd_data rd) \<rparr>)) = Inl e"
    by (simp add: read_exact_def)
  moreover have "read_exact LEN_PREFIX_SIZE rd =
      (Inr ?len, rd\<lparr> rd_data := drop LEN_PREFIX_SIZE (rd_data rd) \<rparr>)"
    using True head by (simp add: read_exact_def)
  ultimately show ?thesis
    using len by (auto simp: read_message_sized_def Let_def split: prod.splits sum.splits)
qed (simp add: read_message_sized_def read_exact_def)
section \<open>What the two sides promise each other\<close>

text \<open>
  A frame writer delivers the encoding of a message, or reports an error and has delivered a
  beginning of it; a frame reader gets the message back from an encoding and from nothing shorter.
  A link is a writer and a reader of which the second understands some of the encodings of the first.
\<close>

locale frame_writer =
  fixes put :: "'a \<Rightarrow> byte_writer \<Rightarrow> ('e + unit) \<times> byte_writer"
    and encode :: "'a \<Rightarrow> bytes option"
  assumes put_ok: "put x w = (Inr (), w') \<Longrightarrow>
      \<exists>f. encode x = Some f \<and> wr_sent w' = wr_sent w @ f"
    and put_part: "put x w = (Inl e, w') \<Longrightarrow>
      \<exists>p. wr_sent w' = wr_sent w @ p \<and> (p \<noteq> [] \<longrightarrow> (\<exists>f. encode x = Some f \<and> prefix p f))"
    and put_open: "encode x = Some f \<Longrightarrow> open_writer w \<Longrightarrow>
      put x w = (Inr (), w\<lparr> wr_sent := wr_sent w @ f \<rparr>)"

locale frame_reader =
  fixes get :: "byte_reader \<Rightarrow> (stream_error + 'a) \<times> byte_reader"
    and legible :: "'a \<Rightarrow> bytes option"
  assumes get_legible: "legible x = Some f \<Longrightarrow> rd_data rd = f @ rest \<Longrightarrow>
      get rd = (Inr x, rd\<lparr> rd_data := rest \<rparr>)"
    and get_cut: "legible x = Some f \<Longrightarrow> strict_prefix (rd_data rd) f \<Longrightarrow>
      \<exists>e. fst (get rd) = Inl e"

locale frame_link = frame_writer put encode + frame_reader get legible
  for put :: "'a \<Rightarrow> byte_writer \<Rightarrow> ('e + unit) \<times> byte_writer" and encode
    and get :: "byte_reader \<Rightarrow> (stream_error + 'a) \<times> byte_reader" and legible +
  assumes legible_encode: "legible x = Some f \<Longrightarrow> encode x = Some f"
begin

lemma delivered:
  assumes "legible x = Some f" and "put x w = (Inr (), w')"
  shows "get (rd\<lparr> rd_data := drop (length (wr_sent w)) (wr_sent w') @ rest \<rparr>) =
    (Inr x, rd\<lparr> rd_data := rest \<rparr>)"
proof -
  have "wr_sent w' = wr_sent w @ f" using put_ok [OF assms(2)] legible_encode [OF assms(1)] by auto
  then show ?thesis using get_legible [OF assms(1), of "rd\<lparr> rd_data := f @ rest \<rparr>" rest] by simp
qed

lemma received_only_whole:
  assumes "legible x = Some f" and "put x w = (Inl e, w')"
    and "drop (length (wr_sent w)) (wr_sent w') \<noteq> f"
  shows "\<exists>e. fst (get (rd\<lparr> rd_data := drop (length (wr_sent w)) (wr_sent w') \<rparr>)) = Inl e"
proof -
  obtain p where p: "wr_sent w' = wr_sent w @ p" "p \<noteq> [] \<longrightarrow> prefix p f"
    using put_part [OF assms(2)] legible_encode [OF assms(1)] by auto
  then have "prefix p f" by (cases p) auto
  then have "strict_prefix p f" using assms(3) p(1) by (auto simp: strict_prefix_def)
  then show ?thesis using get_cut [OF assms(1)] p(1) by simp
qed

end

definition sent_frame :: "('a \<Rightarrow> string + bytes) \<Rightarrow> nat option \<Rightarrow> 'a \<Rightarrow> bytes option" where
  "sent_frame ser max_payload x =
     (case ser x of
        Inl _ \<Rightarrow> None
      | Inr json \<Rightarrow>
          if length json < 2 ^ 32 \<and> (\<forall>m. max_payload = Some m \<longrightarrow> length json \<le> m)
          then Some (frame json) else None)"

definition legible_frame ::
  "('a \<Rightarrow> string + bytes) \<Rightarrow> (bytes \<Rightarrow> string + 'a) \<Rightarrow> nat \<Rightarrow> 'a \<Rightarrow> bytes option" where
  "legible_frame ser de max_payload x =
     (case ser x of
        Inl _ \<Rightarrow> None
      | Inr json \<Rightarrow>
          if length json < 2 ^ 32 \<and> length json \<le> max_payload \<and> de json = Inr x
          then Some (frame json) else None)"

lemma sent_frame_Some [simp]:
  "sent_frame ser max_payload x = Some f \<longleftrightarrow>
     (\<exists>json. ser x = Inr json \<and> length json < 2 ^ 32 \<and>
        (\<forall>m. max_payload = Some m \<longrightarrow> length json \<le> m) \<and> f = frame json)"
  by (auto simp: sent_frame_def split: sum.splits)

lemma legible_frame_Some [simp]:
  "legible_frame ser de max_payload x = Some f \<longleftrightarrow>
     (\<exists>json. ser x = Inr json \<and> length json < 2 ^ 32 \<and> length json \<le> max_payload \<and>
        de json = Inr x \<and> f = frame json)"
  by (auto simp: legible_frame_def split: sum.splits)

interpretation daemon_out: frame_writer "write_message_sized ser m" "sent_frame ser (Some m)"
  for ser :: "'a \<Rightarrow> string + bytes" and m
proof
  fix x w w' e
  show "\<exists>f. sent_frame ser (Some m) x = Some f \<and> wr_sent w' = wr_sent w @ f"
    if "write_message_sized ser m x w = (Inr (), w')"
    using that by (auto simp: write_message_sized_def split: sum.splits if_splits prod.splits
        dest: send_frame_sent(2))
  show "\<exists>p. wr_sent w' = wr_sent w @ p \<and>
      (p \<noteq> [] \<longrightarrow> (\<exists>f. sent_frame ser (Some m) x = Some f \<and> prefix p f))"
    if "write_message_sized ser m x w = (Inl e, w')"
    using that by (auto simp: write_message_sized_def split: sum.splits if_splits prod.splits
        dest: send_frame_sent(1))
  show "write_message_sized ser m x w = (Inr (), w\<lparr> wr_sent := wr_sent w @ f \<rparr>)"
    if "sent_frame ser (Some m) x = Some f" "open_writer w" for f
    using that by (auto simp: write_message_sized_def send_frame_open)
qed
interpretation client_out: frame_writer "client_write_message ser" "sent_frame ser None"
  for ser :: "'a \<Rightarrow> string + bytes"
proof
  fix x w w' e
  show "\<exists>f. sent_frame ser None x = Some f \<and> wr_sent w' = wr_sent w @ f"
    if "client_write_message ser x w = (Inr (), w')"
    using that by (auto simp: client_write_message_def split: sum.splits dest: send_frame_sent(2))
  show "\<exists>p. wr_sent w' = wr_sent w @ p \<and>
      (p \<noteq> [] \<longrightarrow> (\<exists>f. sent_frame ser None x = Some f \<and> prefix p f))"
    if "client_write_message ser x w = (Inl e, w')"
    using that by (auto simp: client_write_message_def split: sum.splits dest: send_frame_sent(1))
  show "client_write_message ser x w = (Inr (), w\<lparr> wr_sent := wr_sent w @ f \<rparr>)"
    if "sent_frame ser None x = Some f" "open_writer w" for f
    using that by (auto simp: client_write_message_def send_frame_open)
qed

interpretation daemon_in: frame_reader "read_message_sized de m" "legible_frame ser de m"
  for ser :: "'a \<Rightarrow> string + bytes" and de :: "bytes \<Rightarrow> string + 'a" and m
  by unfold_locales (auto simp: read_message_frame read_message_cut)

interpretation client_in: frame_reader "client_read_message_sized de m" "legible_frame ser de m"
  for ser :: "'a \<Rightarrow> string + bytes" and de :: "bytes \<Rightarrow> string + 'a" and m
  by unfold_locales (auto simp: client_read_is_daemon_read read_message_frame read_message_cut)

interpretation requests: frame_link "client_write_message ser" "sent_frame ser None"
    "read_message_sized de m" "legible_frame ser de m"
  for ser :: "'a \<Rightarrow> string + bytes" and de :: "bytes \<Rightarrow> string + 'a" and m
  by unfold_locales auto

interpretation responses: frame_link "write_message_sized ser m" "sent_frame ser (Some m)"
    "client_read_message_sized de m'" "legible_frame ser de (min m m')"
  for ser :: "'a \<Rightarrow> string + bytes" and de :: "bytes \<Rightarrow> string + 'a" and m m'
  by unfold_locales (auto simp: client_read_is_daemon_read read_message_frame read_message_cut)

section \<open>Properties\<close>

definition arriving :: "byte_writer \<Rightarrow> byte_writer \<Rightarrow> bytes" where
  "arriving before after = drop (length (wr_sent before)) (wr_sent after)"


definition one_byte :: "byte \<Rightarrow> string + bytes" where
  "one_byte b = Inr [b]"

definition the_byte :: "bytes \<Rightarrow> string + byte" where
  "the_byte bs = (case bs of [b] \<Rightarrow> Inr b | _ \<Rightarrow> Inl ''not a byte'')"


lemma sent_over:
  assumes "send_frame json w = (r, w')"
  shows "prefix (wr_sent w) (wr_sent w') \<and> length (arriving w w') \<le> LEN_PREFIX_SIZE + length json"
  using send_frame_sent(1) [OF assms] prefix_length_le [of _ "frame json"]
  by (auto simp: arriving_def)

lemma written_bounded:
  assumes "write_message_sized ser m x w = (r, w')"
  shows "prefix (wr_sent w) (wr_sent w') \<and> length (arriving w w') \<le> LEN_PREFIX_SIZE + m \<and>
      (\<forall>size limit. r = Inl (ResponseTooLarge size limit) \<longleftrightarrow>
         limit = m \<and> m < size \<and> (\<exists>json. ser x = Inr json \<and> length json = size)) \<and>
      (\<forall>size limit. r = Inl (ResponseTooLarge size limit) \<longrightarrow> w' = w)"
proof (cases "ser x")
  case (Inr json)
  show ?thesis
  proof (cases "m < length json")
    case False
    then obtain q where "send_frame json w = (q, w')" "r = mapE FramingIo q"
      using assms Inr by (auto simp: write_message_sized_def split: prod.splits)
    then show ?thesis using sent_over [of json w q w'] Inr False by (cases q) auto
  qed (use assms Inr in \<open>auto simp: write_message_sized_def arriving_def\<close>)
qed (use assms in \<open>auto simp: write_message_sized_def arriving_def\<close>)

lemma read_exact_taken:
  assumes "read_exact n rd = (r, rd')"
  shows "suffix (rd_data rd') (rd_data rd)" and "length (rd_data rd) \<le> length (rd_data rd') + n"
  using assms by (auto simp: read_exact_def suffix_drop split: if_splits)

lemma taken_bounded:
  assumes "read_message_sized de m rd = (q, rd')"
  shows "suffix (rd_data rd') (rd_data rd) \<and> length (rd_data rd) \<le> length (rd_data rd') + LEN_PREFIX_SIZE + m \<and>
      (\<forall>y. q = Inr y \<longrightarrow> (\<exists>len json. rd_data rd = len @ json @ rd_data rd' \<and>
         length len = LEN_PREFIX_SIZE \<and> length json = unat (from_be_bytes len) \<and>
         length json \<le> m \<and> de json = Inr y))"
proof -
  obtain r1 rd1 where first: "read_exact LEN_PREFIX_SIZE rd = (r1, rd1)" by (cases "read_exact LEN_PREFIX_SIZE rd")
  note taken1 = read_exact_taken [OF first]
  show ?thesis
  proof (cases r1)
    case (Inl e)
    then show ?thesis using assms first taken1 by (auto simp: read_message_sized_def)
  next
    case (Inr len)
    note len = read_exact_Inr [OF first [unfolded Inr]]
    let ?n = "unat (from_be_bytes len)"
    show ?thesis
    proof (cases "m < ?n")
      case True
      then show ?thesis using assms first Inr taken1 by (auto simp: read_message_sized_def Let_def)
    next
      case False
      obtain r2 rd2 where second: "read_exact ?n rd1 = (r2, rd2)" by (cases "read_exact ?n rd1")
      have data: "rd_data rd = len @ rd_data rd1" "length len = LEN_PREFIX_SIZE" using len by simp_all
      have out: "rd' = rd2" and
        body: "q = Inr y \<Longrightarrow> \<exists>json. r2 = Inr json \<and> de json = Inr y" for y
        using assms first Inr False second by (auto simp: read_message_sized_def Let_def split: sum.splits)
      have whole: "\<exists>json. rd_data rd1 = json @ rd_data rd2 \<and> length json = ?n \<and> de json = Inr y" if q: "q = Inr y" for y
        using body [OF q] read_exact_Inr [of ?n rd1 _ rd2] second by blast
      then have read: "\<exists>len json. rd_data rd = len @ json @ rd_data rd' \<and> length len = LEN_PREFIX_SIZE \<and>
          length json = unat (from_be_bytes len) \<and> length json \<le> m \<and> de json = Inr y"
        if q: "q = Inr y" for y
      proof -
        obtain json where "rd_data rd1 = json @ rd_data rd2" "length json = ?n" "de json = Inr y"
          using whole [OF q] by blast
        then show ?thesis using data out False by (intro exI [of _ len] exI [of _ json]) simp
      qed
      have "suffix (rd_data rd') (rd_data rd)"
        using suffix_order.trans [OF read_exact_taken(1) [OF second] taken1(1)] out by simp
      moreover have "length (rd_data rd) \<le> length (rd_data rd') + LEN_PREFIX_SIZE + m"
        using read_exact_taken(2) [OF second] taken1(2) out False by simp
      ultimately show ?thesis using read by blast
    qed
  qed
qed


end
