(* ===== verification/Rpc.thy ===== *)
theory Rpc
  imports Framing Handler
begin

text \<open>
  One remote call from end to end: the connection task of \<open>are-daemon/src/server.rs\<close> and the
  \<open>SecureClient\<close> of \<open>are-client/src/connection.rs\<close>.  TCP, TLS and serde are parameters: whether the
  connection and the handshake succeed, which certificates the handshake yields, where either
  direction of the connection breaks, and the two pairs of serializer and parser.
\<close>

section \<open>The server side of a connection\<close>

datatype connection_failure = ReadFailed stream_error | WriteFailed framing_error

definition too_large_fallback :: "nat \<Rightarrow> nat \<Rightarrow> rpc_response" where
  "too_large_fallback n max_payload =
     Inl (RpcInternalError (''response too large to transmit: '' @ nat_str n @ '' bytes exceeds ''
       @ nat_str max_payload @ ''; narrow the command or read smaller ranges''))"

definition write_response_sized ::
  "(rpc_response \<Rightarrow> string + bytes) \<Rightarrow> rpc_response \<Rightarrow> nat \<Rightarrow> byte_writer
    \<Rightarrow> (framing_error + unit) \<times> byte_writer" where
  "write_response_sized ser response max_payload w =
     (case write_message_sized ser max_payload response w of
        (Inr _, w1) \<Rightarrow> (Inr (), w1)
      | (Inl (ResponseTooLarge n limit), w1) \<Rightarrow>
          write_message_sized ser max_payload (too_large_fallback n limit) w1
      | (Inl e, w1) \<Rightarrow> (Inl e, w1))"

definition write_response ::
  "(rpc_response \<Rightarrow> string + bytes) \<Rightarrow> rpc_response \<Rightarrow> byte_writer
    \<Rightarrow> (framing_error + unit) \<times> byte_writer" where
  "write_response ser response w = write_response_sized ser response DEFAULT_MAX_PAYLOAD w"

definition handle_connection ::
  "(bytes \<Rightarrow> string) \<Rightarrow> polls \<Rightarrow> (bytes \<Rightarrow> string + rpc_request) \<Rightarrow> (rpc_response \<Rightarrow> string + bytes)
    \<Rightarrow> caller \<Rightarrow> byte_reader \<Rightarrow> byte_writer \<Rightarrow> daemon_state \<times> world
    \<Rightarrow> (connection_failure + unit) \<times> byte_writer \<times> daemon_state \<times> world" where
  "handle_connection b3 polls de ser caller rd w s =
     (case read_message de rd of
        (Inl e, _) \<Rightarrow> (Inl (ReadFailed e), w, s)
      | (Inr request, _) \<Rightarrow>
          (case handle_as b3 polls (Some caller) request s of
             (response, s') \<Rightarrow>
               (case write_response ser response w of
                  (r, w') \<Rightarrow> (mapE WriteFailed r, w', s'))))"

text \<open>The task spawned for an accepted TCP connection; \<open>accepted\<close> is the outcome of the TLS handshake.\<close>

definition connection_task ::
  "(bytes \<Rightarrow> string) \<Rightarrow> polls \<Rightarrow> (bytes \<Rightarrow> string + rpc_request) \<Rightarrow> (rpc_response \<Rightarrow> string + bytes)
    \<Rightarrow> string + bytes list option \<Rightarrow> byte_reader \<Rightarrow> byte_writer \<Rightarrow> daemon_state \<times> world
    \<Rightarrow> byte_writer \<times> daemon_state \<times> world" where
  "connection_task b3 polls de ser accepted rd w s =
     (case accepted of
        Inl e \<Rightarrow> (w, s)
      | Inr peer_certs \<Rightarrow>
          (case caller_from_peer_certs b3 peer_certs of
             None \<Rightarrow> (w, s)
           | Some caller \<Rightarrow> snd (handle_connection b3 polls de ser caller rd w s)))"

section \<open>The client side\<close>

datatype client_tls_error =
    ClientPemRead string
  | ClientNoCertificate
  | ClientNoPrivateKey
  | ClientInvalidServerName string
  | ClientConfigError string

fun client_tls_error_display :: "client_tls_error \<Rightarrow> string" where
  "client_tls_error_display (ClientPemRead s) = ''failed to read PEM file: '' @ s"
| "client_tls_error_display ClientNoCertificate = ''no certificate found in PEM data''"
| "client_tls_error_display ClientNoPrivateKey = ''no private key found in PEM data''"
| "client_tls_error_display (ClientInvalidServerName s) = ''invalid server name: '' @ s"
| "client_tls_error_display (ClientConfigError s) = ''TLS config error: '' @ s"

datatype connection_error =
    CTls client_tls_error
  | CTcp stream_error
  | CRequestFailed string
  | CRpcError string
  | CUnexpectedResponse

text \<open>\<open>show_io\<close> renders an I/O error.\<close>

fun connection_error_display :: "(stream_error \<Rightarrow> string) \<Rightarrow> connection_error \<Rightarrow> string" where
  "connection_error_display show_io (CTls e) = ''TLS error: '' @ client_tls_error_display e"
| "connection_error_display show_io (CTcp e) = ''connection failed: '' @ show_io e"
| "connection_error_display show_io (CRequestFailed s) = ''request failed: '' @ s"
| "connection_error_display show_io (CRpcError s) = ''RPC error: '' @ s"
| "connection_error_display show_io CUnexpectedResponse = ''unexpected response type''"

text \<open>
  The connection a client opens: the outcome of \<open>TcpStream::connect\<close> and of the TLS handshake, the
  direction to the peer, and what the peer does with the bytes that reach it.
\<close>

record 's link =
  ln_tcp :: "stream_error + unit"
  ln_tls :: "string + unit"
  ln_up :: byte_writer
  ln_peer :: "bytes \<Rightarrow> 's \<Rightarrow> byte_reader \<times> 's"

definition send_rpc ::
  "(rpc_request \<Rightarrow> string + bytes) \<Rightarrow> (bytes \<Rightarrow> string + rpc_response) \<Rightarrow> 's link \<Rightarrow> rpc_request \<Rightarrow> 's
    \<Rightarrow> (connection_error + rpc_response) \<times> 's" where
  "send_rpc ser de net request s =
     (case ln_tcp net of
        Inl e \<Rightarrow> (Inl (CTcp e), s)
      | Inr _ \<Rightarrow>
          (case ln_tls net of
             Inl e \<Rightarrow> (Inl (CTls (ClientConfigError (''TLS handshake failed: '' @ e))), s)
           | Inr _ \<Rightarrow>
               (case client_write_message ser request (ln_up net) of
                  (r, w') \<Rightarrow>
                    (case ln_peer net (arriving (ln_up net) w') s of
                       (rd, s') \<Rightarrow>
                         (case r of
                            Inl e \<Rightarrow> (Inl (CTcp e), s')
                          | Inr _ \<Rightarrow> (mapE CTcp (fst (client_read_message de rd)), s'))))))"

type_synonym 's rpc = "rpc_request \<Rightarrow> 's \<Rightarrow> (connection_error + rpc_response) \<times> 's"
type_synonym ('s, 'a) client_call = "'s \<Rightarrow> (connection_error + 'a) \<times> 's"

definition typed_call :: "'s rpc \<Rightarrow> rpc_request \<Rightarrow> (rpc_payload \<Rightarrow> 'a option) \<Rightarrow> ('s, 'a) client_call" where
  "typed_call rpc request pick s =
     (case rpc request s of
        (Inl e, s') \<Rightarrow> (Inl e, s')
      | (Inr response, s') \<Rightarrow>
          ((case response of
              Inl e \<Rightarrow> Inl (CRpcError (rpc_error_display e))
            | Inr payload \<Rightarrow> ok_or CUnexpectedResponse (pick payload)), s'))"

definition client_get_environment_info :: "'s rpc \<Rightarrow> environment_id \<Rightarrow> ('s, get_environment_info_response) client_call" where
  "client_get_environment_info rpc environment_id =
     typed_call rpc (GetEnvironmentInfo \<lparr> gi_environment_id = environment_id \<rparr>)
       (\<lambda>p. case p of GetEnvironmentInfoP info \<Rightarrow> Some info | _ \<Rightarrow> None)"

definition client_read_file :: "'s rpc \<Rightarrow> read_file_request \<Rightarrow> ('s, read_file_response) client_call" where
  "client_read_file rpc req =
     typed_call rpc (ReadFile req) (\<lambda>p. case p of ReadFileP resp \<Rightarrow> Some resp | _ \<Rightarrow> None)"

definition client_list_directory :: "'s rpc \<Rightarrow> list_directory_request \<Rightarrow> ('s, list_directory_response) client_call" where
  "client_list_directory rpc req =
     typed_call rpc (ListDirectory req) (\<lambda>p. case p of ListDirectoryP resp \<Rightarrow> Some resp | _ \<Rightarrow> None)"

definition client_file_metadata :: "'s rpc \<Rightarrow> get_file_metadata_request \<Rightarrow> ('s, get_file_metadata_response) client_call" where
  "client_file_metadata rpc req =
     typed_call rpc (GetFileMetadata req) (\<lambda>p. case p of GetFileMetadataP resp \<Rightarrow> Some resp | _ \<Rightarrow> None)"

definition client_execute :: "'s rpc \<Rightarrow> execute_request \<Rightarrow> ('s, execute_response) client_call" where
  "client_execute rpc req =
     typed_call rpc (Execute req) (\<lambda>p. case p of ExecuteP resp \<Rightarrow> Some resp | _ \<Rightarrow> None)"

definition client_process_status :: "'s rpc \<Rightarrow> process_status_request \<Rightarrow> ('s, process_status_response) client_call" where
  "client_process_status rpc req =
     typed_call rpc (ProcessStatus req) (\<lambda>p. case p of ProcessStatusP resp \<Rightarrow> Some resp | _ \<Rightarrow> None)"

definition client_terminate_process :: "'s rpc \<Rightarrow> terminate_process_request \<Rightarrow> ('s, terminate_process_response) client_call" where
  "client_terminate_process rpc req =
     typed_call rpc (TerminateProcess req) (\<lambda>p. case p of TerminateProcessP resp \<Rightarrow> Some resp | _ \<Rightarrow> None)"

definition client_wait_process :: "'s rpc \<Rightarrow> wait_process_request \<Rightarrow> ('s, wait_process_response) client_call" where
  "client_wait_process rpc req =
     typed_call rpc (WaitProcess req) (\<lambda>p. case p of WaitProcessP resp \<Rightarrow> Some resp | _ \<Rightarrow> None)"

definition client_create_session :: "'s rpc \<Rightarrow> create_session_request \<Rightarrow> ('s, create_session_response) client_call" where
  "client_create_session rpc req =
     typed_call rpc (CreateSession req) (\<lambda>p. case p of CreateSessionP resp \<Rightarrow> Some resp | _ \<Rightarrow> None)"

definition client_get_session :: "'s rpc \<Rightarrow> get_session_request \<Rightarrow> ('s, get_session_response) client_call" where
  "client_get_session rpc req =
     typed_call rpc (GetSession req) (\<lambda>p. case p of GetSessionP resp \<Rightarrow> Some resp | _ \<Rightarrow> None)"

definition client_list_sessions :: "'s rpc \<Rightarrow> list_sessions_request \<Rightarrow> ('s, list_sessions_response) client_call" where
  "client_list_sessions rpc req =
     typed_call rpc (ListSessions req) (\<lambda>p. case p of ListSessionsP resp \<Rightarrow> Some resp | _ \<Rightarrow> None)"

definition client_terminate_session :: "'s rpc \<Rightarrow> terminate_session_request \<Rightarrow> ('s, terminate_session_response) client_call" where
  "client_terminate_session rpc req =
     typed_call rpc (TerminateSession req) (\<lambda>p. case p of TerminateSessionP resp \<Rightarrow> Some resp | _ \<Rightarrow> None)"

definition client_write_file :: "'s rpc \<Rightarrow> write_file_request \<Rightarrow> ('s, write_file_response) client_call" where
  "client_write_file rpc req =
     typed_call rpc (WriteFile req) (\<lambda>p. case p of WriteFileP resp \<Rightarrow> Some resp | _ \<Rightarrow> None)"

definition client_create_directory :: "'s rpc \<Rightarrow> create_directory_request \<Rightarrow> ('s, create_directory_response) client_call" where
  "client_create_directory rpc req =
     typed_call rpc (CreateDirectory req) (\<lambda>p. case p of CreateDirectoryP resp \<Rightarrow> Some resp | _ \<Rightarrow> None)"

definition client_rename :: "'s rpc \<Rightarrow> rename_request \<Rightarrow> ('s, rename_response) client_call" where
  "client_rename rpc req =
     typed_call rpc (RenameReq req) (\<lambda>p. case p of RenameP resp \<Rightarrow> Some resp | _ \<Rightarrow> None)"

definition client_delete_file :: "'s rpc \<Rightarrow> delete_request \<Rightarrow> ('s, delete_response) client_call" where
  "client_delete_file rpc req =
     typed_call rpc (DeleteFile req) (\<lambda>p. case p of DeleteFileP resp \<Rightarrow> Some resp | _ \<Rightarrow> None)"

end
