(* ===== verification/RpcProps.thy ===== *)
theory RpcProps
  imports Rpc HandlerAccess
begin

text \<open>
  A remote call is a call of the handler: without faults the typed client methods return what the
  handler of the request returns for the caller of the certificate, and with faults in either
  direction the request is handled at most once and no other answer is made up.
\<close>

section \<open>What arrives\<close>

lemma arriving_same [simp]: "arriving w w = []"
  by (simp add: arriving_def)

definition faithful :: "('a \<Rightarrow> string + bytes) \<Rightarrow> (bytes \<Rightarrow> string + 'a) \<Rightarrow> 'a \<Rightarrow> bool" where
  "faithful ser de x \<longleftrightarrow> (\<forall>json. ser x = Inr json \<longrightarrow> de json = Inr x)"

definition carried :: "('a \<Rightarrow> string + bytes) \<Rightarrow> (bytes \<Rightarrow> string + 'a) \<Rightarrow> 'a \<Rightarrow> bool" where
  "carried ser de x \<longleftrightarrow>
     (\<exists>json. ser x = Inr json \<and> de json = Inr x \<and> length json \<le> DEFAULT_MAX_PAYLOAD)"

lemma payload_fits: "n \<le> DEFAULT_MAX_PAYLOAD \<Longrightarrow> n < 2 ^ 32"
  by (simp add: DEFAULT_MAX_PAYLOAD_def)

lemma client_max [simp]: "CLIENT_MAX_PAYLOAD = DEFAULT_MAX_PAYLOAD"
  by (simp add: CLIENT_MAX_PAYLOAD_def DEFAULT_MAX_PAYLOAD_def)

lemma client_read [simp]: "client_read_message de = read_message de"
  by (rule ext) (simp only: client_read_message_def read_message_def client_read_is_daemon_read client_max)

lemma read_part:
  assumes "prefix p (frame json)" and "p \<noteq> [] \<longrightarrow> length json < 2 ^ 32"
  shows "(\<exists>e. fst (read_message de \<lparr> rd_data = p, rd_end = fin \<rparr>) = Inl e) \<or>
    fst (read_message de \<lparr> rd_data = p, rd_end = fin \<rparr>) = mapE SInvalidData (de json)"
proof (cases "p = frame json")
  case True
  then have small: "length json < 2 ^ 32" using assms(2) by (auto simp: frame_def to_be_bytes_def)
  let ?rd = "\<lparr> rd_data = p, rd_end = fin \<rparr>"
  show ?thesis
  proof (cases "length json \<le> DEFAULT_MAX_PAYLOAD")
    case fits: True
    show ?thesis
      using read_message_frame [of ?rd json "[]" DEFAULT_MAX_PAYLOAD de] True small fits
      by (simp add: read_message_def)
  next
    case False
    have "\<not> (\<exists>y. fst (read_message de ?rd) = Inr y)"
    proof
      assume "\<exists>y. fst (read_message de ?rd) = Inr y"
      then obtain y rd' where "read_message_sized de DEFAULT_MAX_PAYLOAD ?rd = (Inr y, rd')"
        by (metis prod.collapse read_message_def)
      from taken_bounded [OF this] obtain len body where
        "p = len @ body @ rd_data rd'" "length len = LEN_PREFIX_SIZE"
        "length body = unat (from_be_bytes len)" "length body \<le> DEFAULT_MAX_PAYLOAD" by auto
      then have "to_be_bytes (word_of_nat (length json)) @ json = len @ body @ rd_data rd'"
        using True by (simp only: frame_def)
      then have "to_be_bytes (word_of_nat (length json)) = len"
        using \<open>length len = LEN_PREFIX_SIZE\<close> by (metis append_eq_append_conv length_to_be_bytes)
      then have "unat (from_be_bytes len) = length json"
        using small by (metis from_to_be_bytes announced_length)
      then show False
        using False \<open>length body = _\<close> \<open>length body \<le> _\<close> by simp
    qed
    then show ?thesis by (cases "fst (read_message de ?rd)") auto
  qed
next
  case False
  then have cut: "strict_prefix p (frame json)" using assms(1) by (simp add: strict_prefix_def)
  show ?thesis
  proof (cases "p = []")
    case True
    then show ?thesis by (simp add: read_message_def read_message_sized_def read_exact_def LEN_PREFIX_SIZE_def)
  next
    case False
    then show ?thesis
      using read_message_cut [of "\<lparr> rd_data = p, rd_end = fin \<rparr>" json de DEFAULT_MAX_PAYLOAD] cut assms(2)
      by (simp add: read_message_def)
  qed
qed

lemma read_nothing: "\<exists>e. fst (read_message de \<lparr> rd_data = [], rd_end = fin \<rparr>) = Inl e"
  by (simp add: read_message_def read_message_sized_def read_exact_def LEN_PREFIX_SIZE_def)

lemma request_arrives:
  assumes "client_write_message ser req up = (r, up')" and "faithful ser de req"
  shows "(\<exists>e. fst (read_message de \<lparr> rd_data = arriving up up', rd_end = fin \<rparr>) = Inl e) \<or>
    fst (read_message de \<lparr> rd_data = arriving up up', rd_end = fin \<rparr>) = Inr req"
proof (cases "ser req")
  case (Inl e)
  then have "up' = up" using assms(1) by (simp add: client_write_message_def)
  then show ?thesis using read_nothing by (simp only: arriving_same) blast
next
  case (Inr json)
  then have "send_frame json up = (r, up')" using assms(1) by (simp add: client_write_message_def)
  from send_frame_sent(1) [OF this] obtain p where
    "arriving up up' = p" "prefix p (frame json)" "p \<noteq> [] \<longrightarrow> length json < 2 ^ 32"
    by (auto simp: arriving_def)
  moreover have "de json = Inr req" using assms(2) Inr by (simp add: faithful_def)
  ultimately show ?thesis using read_part [of p json de fin] by auto
qed

lemma message_arrives:
  assumes "write_message_sized ser m x w = (r, w')" and "faithful ser de x"
  shows "(\<exists>e. fst (read_message de \<lparr> rd_data = arriving w w', rd_end = fin \<rparr>) = Inl e) \<or>
    fst (read_message de \<lparr> rd_data = arriving w w', rd_end = fin \<rparr>) = Inr x"
proof (cases "w' = w")
  case False
  then obtain json q where "ser x = Inr json" "send_frame json w = (q, w')"
    using assms(1) by (auto simp: write_message_sized_def split: sum.splits if_splits prod.splits)
  then show ?thesis
    using request_arrives [of ser x w q w' de fin] assms(2) by (simp add: client_write_message_def)
qed (use read_nothing in \<open>simp only: arriving_same, blast\<close>)

lemma response_arrives:
  assumes "write_response ser resp w = (r, w')" and "faithful ser de resp"
    and "\<And>n. faithful ser de (too_large_fallback n DEFAULT_MAX_PAYLOAD)"
    and "fst (read_message de \<lparr> rd_data = arriving w w', rd_end = fin \<rparr>) = Inr answer"
  shows "answer = resp \<or> (\<exists>n > DEFAULT_MAX_PAYLOAD. answer = too_large_fallback n DEFAULT_MAX_PAYLOAD)"
proof -
  obtain q w1 where first: "write_message_sized ser DEFAULT_MAX_PAYLOAD resp w = (q, w1)"
    by (cases "write_message_sized ser DEFAULT_MAX_PAYLOAD resp w")
  show ?thesis
  proof (cases "\<exists>n limit. q = Inl (ResponseTooLarge n limit)")
    case True
    then obtain n limit where q: "q = Inl (ResponseTooLarge n limit)" by blast
    then have "w1 = w" "limit = DEFAULT_MAX_PAYLOAD" "n > DEFAULT_MAX_PAYLOAD"
      using written_bounded [OF first] by auto
    moreover from this have again: "write_message_sized ser DEFAULT_MAX_PAYLOAD (too_large_fallback n DEFAULT_MAX_PAYLOAD) w = (r, w')"
      using assms(1) first q by (simp add: write_response_def write_response_sized_def)
    ultimately show ?thesis using message_arrives [OF again assms(3), of fin] assms(4) by auto
  next
    case False
    then have "w' = w1"
      using assms(1) first
      by (auto simp: write_response_def write_response_sized_def split: sum.splits framing_error.splits)
    then show ?thesis using message_arrives [OF first assms(2), of fin] assms(4) by auto
  qed
qed

section \<open>The daemon behind a connection\<close>

definition daemon_peer ::
  "(bytes \<Rightarrow> string) \<Rightarrow> polls \<Rightarrow> (bytes \<Rightarrow> string + rpc_request) \<Rightarrow> (rpc_response \<Rightarrow> string + bytes)
    \<Rightarrow> string + bytes list option \<Rightarrow> byte_writer \<Rightarrow> string option \<Rightarrow> bytes \<Rightarrow> daemon_state \<times> world
    \<Rightarrow> byte_reader \<times> daemon_state \<times> world" where
  "daemon_peer b3 polls de ser accepted down fin bs s =
     (case connection_task b3 polls de ser accepted \<lparr> rd_data = bs, rd_end = fin \<rparr> down s of
        (down', s') \<Rightarrow> (\<lparr> rd_data = arriving down down', rd_end = fin \<rparr>, s'))"

lemma peer_at_most_once:
  assumes "daemon_peer b3 polls de ser accepted down fin bs s = (rd, s')"
    and "fst (read_message de \<lparr> rd_data = bs, rd_end = fin \<rparr>) = Inl e \<or>
         fst (read_message de \<lparr> rd_data = bs, rd_end = fin \<rparr>) = Inr req"
  shows "(s' = s \<and> rd_data rd = []) \<or>
    (\<exists>leaf chain r down'. accepted = Inr (Some (leaf # chain)) \<and>
       s' = snd (handle_as b3 polls (Some (caller_from_leaf_der b3 leaf)) req s) \<and>
       write_response ser (fst (handle_as b3 polls (Some (caller_from_leaf_der b3 leaf)) req s)) down = (r, down') \<and>
       rd = \<lparr> rd_data = arriving down down', rd_end = fin \<rparr>)"
  using assms
  by (auto simp: daemon_peer_def connection_task_def handle_connection_def caller_from_peer_certs_def
      split: sum.splits option.splits list.splits prod.splits)

lemma rpc_once:
  assumes "faithful ser_req de_req req"
    and "\<And>resp. faithful ser_resp de_resp resp"
    and "ln_peer net = daemon_peer b3 polls de_req ser_resp accepted down fin"
    and "send_rpc ser_req de_resp net req s = (answer, s')"
  shows "(s' = s \<and> (\<exists>e. answer = Inl e)) \<or>
    (\<exists>leaf chain. accepted = Inr (Some (leaf # chain)) \<and>
       (let (resp, t) = handle_as b3 polls (Some (caller_from_leaf_der b3 leaf)) req s in
        s' = t \<and> (\<forall>got. answer = Inr got \<longrightarrow> got = resp \<or>
          (\<exists>n > DEFAULT_MAX_PAYLOAD. got = too_large_fallback n DEFAULT_MAX_PAYLOAD))))"
proof (cases "ln_tcp net = Inr () \<and> ln_tls net = Inr ()")
  case True
  obtain r up' where up: "client_write_message ser_req req (ln_up net) = (r, up')"
    by (cases "client_write_message ser_req req (ln_up net)")
  let ?bs = "arriving (ln_up net) up'"
  obtain rd t where peer: "daemon_peer b3 polls de_req ser_resp accepted down fin ?bs s = (rd, t)"
    by (cases "daemon_peer b3 polls de_req ser_resp accepted down fin ?bs s")
  have answer: "s' = t" "answer = (case r of Inl e \<Rightarrow> Inl (CTcp e) | Inr _ \<Rightarrow> mapE CTcp (fst (read_message de_resp rd)))"
    using assms(3,4) True up peer by (auto simp: send_rpc_def split: sum.splits)
  obtain e where "fst (read_message de_req \<lparr> rd_data = ?bs, rd_end = fin \<rparr>) = Inl e \<or>
      fst (read_message de_req \<lparr> rd_data = ?bs, rd_end = fin \<rparr>) = Inr req"
    using request_arrives [OF up assms(1)] by blast
  from peer_at_most_once [OF peer this] show ?thesis
  proof (elim disjE exE conjE)
    assume "t = s" "rd_data rd = []"
    moreover have "\<exists>e. fst (read_message de_resp rd) = Inl e"
      using read_nothing [of de_resp "rd_end rd"] \<open>rd_data rd = []\<close> by (metis byte_reader.surjective unit.exhaust)
    ultimately show ?thesis using answer by (auto split: sum.splits)
  next
    fix leaf chain q down'
    let ?h = "handle_as b3 polls (Some (caller_from_leaf_der b3 leaf)) req s"
    assume acc: "accepted = Inr (Some (leaf # chain))" "t = snd ?h"
      and resp: "write_response ser_resp (fst ?h) down = (q, down')"
        "rd = \<lparr> rd_data = arriving down down', rd_end = fin \<rparr>"
    have "got = fst ?h \<or> (\<exists>n > DEFAULT_MAX_PAYLOAD. got = too_large_fallback n DEFAULT_MAX_PAYLOAD)"
      if "answer = Inr got" for got
      using response_arrives [OF resp(1) assms(2) assms(2), of fin got] that answer(2) resp(2)
      by (auto split: sum.splits)
    then show ?thesis using acc answer(1) by (auto simp: Let_def split: prod.splits)
  qed
next
  case False
  then show ?thesis using assms(4) by (auto simp: send_rpc_def split: sum.splits)
qed

text \<open>
  Claim C5.  A request is handled at most once, as the principal of the certificate, and no answer is
  made up: wherever the connection breaks and however the handshake goes, after a call the daemon is
  either untouched, and the client has an error, or it has handled exactly this request for the
  caller of the leaf certificate, and an answer the client gets is the answer of the handler or the
  notice that this answer was too large to transmit.
\<close>

theorem rpc_at_most_once:
  assumes "faithful ser_req de_req req"
    and "\<And>resp. faithful ser_resp de_resp resp"
    and "ln_peer net = daemon_peer b3 polls de_req ser_resp accepted down fin"
    and "send_rpc ser_req de_resp net req s = (answer, s')"
  shows "(s' = s \<and> (\<exists>e. answer = Inl e)) \<or>
    (\<exists>leaf chain. accepted = Inr (Some (leaf # chain)) \<and>
       (let (resp, t) = handle_as b3 polls (Some (caller_from_leaf_der b3 leaf)) req s in
        s' = t \<and> (\<forall>got. answer = Inr got \<longrightarrow> got = resp \<or>
          (\<exists>n > DEFAULT_MAX_PAYLOAD. got = too_large_fallback n DEFAULT_MAX_PAYLOAD))))"
  by (rule rpc_once [OF assms])

section \<open>The typed methods\<close>

text \<open>The typed method of the client that belongs to a request, with its result as a payload.\<close>

definition as_payload :: "('a \<Rightarrow> rpc_payload) \<Rightarrow> ('s, 'a) client_call \<Rightarrow> ('s, rpc_payload) client_call" where
  "as_payload f call s = (case call s of (r, s') \<Rightarrow> (map_sum id f r, s'))"

fun client_call :: "'s rpc \<Rightarrow> rpc_request \<Rightarrow> ('s, rpc_payload) client_call" where
  "client_call rpc (GetEnvironmentInfo req) = as_payload GetEnvironmentInfoP (client_get_environment_info rpc (gi_environment_id req))"
| "client_call rpc (ReadFile req) = as_payload ReadFileP (client_read_file rpc req)"
| "client_call rpc (ListDirectory req) = as_payload ListDirectoryP (client_list_directory rpc req)"
| "client_call rpc (GetFileMetadata req) = as_payload GetFileMetadataP (client_file_metadata rpc req)"
| "client_call rpc (Execute req) = as_payload ExecuteP (client_execute rpc req)"
| "client_call rpc (ProcessStatus req) = as_payload ProcessStatusP (client_process_status rpc req)"
| "client_call rpc (TerminateProcess req) = as_payload TerminateProcessP (client_terminate_process rpc req)"
| "client_call rpc (WaitProcess req) = as_payload WaitProcessP (client_wait_process rpc req)"
| "client_call rpc (CreateSession req) = as_payload CreateSessionP (client_create_session rpc req)"
| "client_call rpc (GetSession req) = as_payload GetSessionP (client_get_session rpc req)"
| "client_call rpc (ListSessions req) = as_payload ListSessionsP (client_list_sessions rpc req)"
| "client_call rpc (TerminateSession req) = as_payload TerminateSessionP (client_terminate_session rpc req)"
| "client_call rpc (WriteFile req) = as_payload WriteFileP (client_write_file rpc req)"
| "client_call rpc (CreateDirectory req) = as_payload CreateDirectoryP (client_create_directory rpc req)"
| "client_call rpc (RenameReq req) = as_payload RenameP (client_rename rpc req)"
| "client_call rpc (DeleteFile req) = as_payload DeleteFileP (client_delete_file rpc req)"

lemmas client_defs =
  client_get_environment_info_def client_read_file_def client_list_directory_def
  client_file_metadata_def client_execute_def client_process_status_def
  client_terminate_process_def client_wait_process_def client_create_session_def
  client_get_session_def client_list_sessions_def client_terminate_session_def
  client_write_file_def client_create_directory_def client_rename_def
  client_delete_file_def

lemma info_request_eta: "\<lparr> gi_environment_id = gi_environment_id r \<rparr> = (r :: get_environment_info_request)"
  by (cases r) simp

lemma client_call_failed:
  assumes "rpc req s = (Inr (Inl e), s')"
  shows "client_call rpc req s = (Inl (CRpcError (rpc_error_display e)), s')"
  using assms by (cases req) (simp_all add: client_defs typed_call_def as_payload_def info_request_eta)

lemma client_call_answered:
  assumes "rpc req s = (Inr (Inr payload), s')" and "answers req payload"
  shows "client_call rpc req s = (Inr payload, s')"
  using assms
  by (cases req; cases payload)
    (simp_all add: client_defs typed_call_def as_payload_def answers_def info_request_eta)

lemma carried_frame:
  assumes "carried ser de x"
  obtains json where "ser x = Inr json" "length json < 2 ^ 32" "length json \<le> DEFAULT_MAX_PAYLOAD"
    "de json = Inr x"
  using assms payload_fits by (auto simp: carried_def)

lemma read_carried:
  assumes "ser x = Inr json" and "carried ser de x"
  shows "fst (read_message de \<lparr> rd_data = frame json, rd_end = fin \<rparr>) = Inr x"
proof -
  obtain json' where "ser x = Inr json'" "length json' < 2 ^ 32" "length json' \<le> DEFAULT_MAX_PAYLOAD"
    "de json' = Inr x" using assms(2) by (rule carried_frame)
  then show ?thesis
    using assms(1)
      read_message_frame [of "\<lparr> rd_data = frame json, rd_end = fin \<rparr>" json "[]" DEFAULT_MAX_PAYLOAD de]
    by (simp add: read_message_def)
qed

lemma write_carried:
  assumes "carried ser de x" and "open_writer w"
  obtains json where "ser x = Inr json"
    "client_write_message ser x w = (Inr (), w\<lparr> wr_sent := wr_sent w @ frame json \<rparr>)"
    "write_message_sized ser DEFAULT_MAX_PAYLOAD x w = (Inr (), w\<lparr> wr_sent := wr_sent w @ frame json \<rparr>)"
  using assms(1)
  by (rule carried_frame)
    (use assms(2) in \<open>simp add: client_write_message_def write_message_sized_def send_frame_open that\<close>)

lemma send_rpc_open:
  assumes "carried ser_req de_req req" and "ln_tcp net = Inr ()" and "ln_tls net = Inr ()"
    and "open_writer (ln_up net)"
    and "ln_peer net = daemon_peer b3 polls de_req ser_resp (Inr (Some (leaf # chain))) down None"
    and "handle_as b3 polls (Some (caller_from_leaf_der b3 leaf)) req s = (result, s')"
    and "write_response ser_resp result down = (Inr (), down')"
  shows "send_rpc ser_req de_resp net req s =
    (mapE CTcp (fst (read_message de_resp \<lparr> rd_data = arriving down down', rd_end = None \<rparr>)), s')"
proof -
  obtain json where "ser_req req = Inr json" and
    up: "client_write_message ser_req req (ln_up net) =
      (Inr (), (ln_up net)\<lparr> wr_sent := wr_sent (ln_up net) @ frame json \<rparr>)"
    using write_carried [OF assms(1,4)] by metis
  then have "fst (read_message de_req \<lparr> rd_data = frame json, rd_end = None \<rparr>) = Inr req"
    using read_carried [OF _ assms(1)] by blast
  then have "daemon_peer b3 polls de_req ser_resp (Inr (Some (leaf # chain))) down None (frame json) s =
      (\<lparr> rd_data = arriving down down', rd_end = None \<rparr>, s')"
    using assms(6,7)
    by (auto simp: daemon_peer_def connection_task_def caller_from_peer_certs_def handle_connection_def
        split: prod.splits sum.splits)
  then show ?thesis using up assms(2,3,5) by (simp add: send_rpc_def arriving_def)
qed

lemma rpc_carried:
  assumes "carried ser_req de_req req" and "ln_tcp net = Inr ()" and "ln_tls net = Inr ()"
    and "open_writer (ln_up net)" and "open_writer down"
    and "ln_peer net = daemon_peer b3 polls de_req ser_resp (Inr (Some (leaf # chain))) down None"
    and "handle_as b3 polls (Some (caller_from_leaf_der b3 leaf)) req s = (result, s')"
    and "carried ser_resp de_resp result"
  shows "send_rpc ser_req de_resp net req s = (Inr result, s')"
proof -
  obtain json where json: "ser_resp result = Inr json" and
    "write_message_sized ser_resp DEFAULT_MAX_PAYLOAD result down =
      (Inr (), down\<lparr> wr_sent := wr_sent down @ frame json \<rparr>)"
    using write_carried [OF assms(8,5)] by metis
  then have "write_response ser_resp result down = (Inr (), down\<lparr> wr_sent := wr_sent down @ frame json \<rparr>)"
    by (simp add: write_response_def write_response_sized_def)
  from send_rpc_open [OF assms(1-4,6,7) this, of de_resp] show ?thesis
    using read_carried [OF json assms(8)] by (simp add: arriving_def)
qed


text \<open>
  Claim C24.  An answer that is too large to transmit reaches the client as the compact internal
  error that names its size and the limit, while the request has been carried out: the client is
  told, and never meets a broken frame.
\<close>

theorem oversized_answer_is_reported:
  assumes "carried ser_req de_req req"
    and "handle_as b3 polls (Some (caller_from_leaf_der b3 leaf)) req s = (result, s')"
    and "ser_resp result = Inr json" and "length json > DEFAULT_MAX_PAYLOAD"
    and "carried ser_resp de_resp (too_large_fallback (length json) DEFAULT_MAX_PAYLOAD)"
    and "ln_tcp net = Inr ()" and "ln_tls net = Inr ()" and "open_writer (ln_up net)" and "open_writer down"
    and "ln_peer net = daemon_peer b3 polls de_req ser_resp (Inr (Some (leaf # chain))) down None"
  shows "client_call (send_rpc ser_req de_resp net) req s =
    (Inl (CRpcError (''internal error: response too large to transmit: '' @ nat_str (length json)
       @ '' bytes exceeds '' @ nat_str DEFAULT_MAX_PAYLOAD
       @ ''; narrow the command or read smaller ranges'')), s')"
proof -
  let ?rpc = "send_rpc ser_req de_resp net"
  let ?notice = "too_large_fallback (length json) DEFAULT_MAX_PAYLOAD"
  obtain small where small: "ser_resp ?notice = Inr small" and
    "write_message_sized ser_resp DEFAULT_MAX_PAYLOAD ?notice down =
      (Inr (), down\<lparr> wr_sent := wr_sent down @ frame small \<rparr>)"
    using write_carried [OF assms(5,9)] by metis
  then have "write_response ser_resp result down = (Inr (), down\<lparr> wr_sent := wr_sent down @ frame small \<rparr>)"
    using assms(3,4) by (simp add: write_response_def write_response_sized_def write_message_sized_def)
  from send_rpc_open [OF assms(1,6,7,8,10,2) this, of de_resp] have "?rpc req s = (Inr ?notice, s')"
    using read_carried [OF small assms(5)] by (simp add: arriving_def)
  then have "?rpc req s = (Inr (Inl (RpcInternalError (''response too large to transmit: ''
      @ nat_str (length json) @ '' bytes exceeds '' @ nat_str DEFAULT_MAX_PAYLOAD
      @ ''; narrow the command or read smaller ranges''))), s')"
    by (simp only: too_large_fallback_def)
  from client_call_failed [where rpc = ?rpc, OF this] show ?thesis by simp
qed

section \<open>Witnesses\<close>

definition sample_link :: "(rpc_response \<Rightarrow> string + bytes) \<Rightarrow> byte_writer \<Rightarrow> (daemon_state \<times> world) link" where
  "sample_link ser up = \<lparr> ln_tcp = Inr (), ln_tls = Inr (), ln_up = up,
     ln_peer = daemon_peer (\<lambda>_. ''bob'') [] (\<lambda>_. Inr sample_ask) ser (Inr (Some [[]])) new_writer None \<rparr>"

definition sample_answer :: rpc_response where
  "sample_answer = fst (handle_as (\<lambda>_. ''bob'') [] (Some (caller_from_leaf_der (\<lambda>_. ''bob'') [])) sample_ask
     (sample_daemon, sample_world))"

text \<open>Serializers of the one request and the one answer the witnesses exchange.\<close>

definition sample_out :: "rpc_request \<Rightarrow> string + bytes" where
  "sample_out req = (if req = sample_ask then Inr [1] else Inl ''unsupported'')"

definition sample_back :: "rpc_response \<Rightarrow> string + bytes" where
  "sample_back resp = (if resp = sample_answer then Inr [2] else Inl ''unsupported'')"

lemma new_writer_open: "open_writer new_writer"
  by (simp add: open_writer_def new_writer_def)

theorem rpc_at_most_once_witness:
  "\<exists>answer s'. send_rpc sample_out (\<lambda>_. Inr sample_answer)
     (sample_link sample_back (new_writer\<lparr> wr_limit := Some (3, ''reset'') \<rparr>)) sample_ask
     (sample_daemon, sample_world) = (answer, s') \<and>
   ((s' = (sample_daemon, sample_world) \<and> (\<exists>e. answer = Inl e)) \<or>
    s' = snd (handle_as (\<lambda>_. ''bob'') [] (Some (caller_from_leaf_der (\<lambda>_. ''bob'') [])) sample_ask
      (sample_daemon, sample_world)))"
proof -
  let ?net = "sample_link sample_back (new_writer\<lparr> wr_limit := Some (3, ''reset'') \<rparr>)"
  obtain answer s' where run: "send_rpc sample_out (\<lambda>_. Inr sample_answer) ?net sample_ask
      (sample_daemon, sample_world) = (answer, s')"
    by (cases "send_rpc sample_out (\<lambda>_. Inr sample_answer) ?net sample_ask (sample_daemon, sample_world)")
  have "faithful sample_out (\<lambda>_. Inr sample_ask) sample_ask"
    "\<And>resp. faithful sample_back (\<lambda>_. Inr sample_answer) resp"
    by (simp_all add: faithful_def sample_out_def sample_back_def)
  from rpc_at_most_once [OF this _ run] show ?thesis
    using run by (fastforce simp: sample_link_def Let_def split: prod.splits)
qed


lemma sample_answer_ok: "\<not> isl sample_answer"
  unfolding sample_answer_def by code_simp

definition sample_flood :: "rpc_response \<Rightarrow> string + bytes" where
  "sample_flood resp = Inr (if isl resp then [3] else replicate (Suc DEFAULT_MAX_PAYLOAD) 2)"

theorem oversized_answer_is_reported_witness:
  "\<exists>message. fst (client_call (send_rpc sample_out
       (\<lambda>_. Inr (too_large_fallback (Suc DEFAULT_MAX_PAYLOAD) DEFAULT_MAX_PAYLOAD))
       (sample_link sample_flood new_writer)) sample_ask (sample_daemon, sample_world)) =
     Inl (CRpcError (''internal error: response too large to transmit: '' @ message))"
proof -
  let ?h = "handle_as (\<lambda>_. ''bob'') [] (Some (caller_from_leaf_der (\<lambda>_. ''bob'') [])) sample_ask
     (sample_daemon, sample_world)"
  let ?json = "replicate (Suc DEFAULT_MAX_PAYLOAD) (2 :: byte)"
  have "carried sample_out (\<lambda>_. Inr sample_ask) sample_ask"
    by (simp add: carried_def sample_out_def DEFAULT_MAX_PAYLOAD_def)
  moreover have "?h = (sample_answer, snd ?h)" by (simp add: sample_answer_def)
  moreover have "sample_flood sample_answer = Inr ?json" using sample_answer_ok by (simp add: sample_flood_def)
  moreover have "length ?json > DEFAULT_MAX_PAYLOAD" by (simp only: length_replicate)
  moreover have "carried sample_flood
      (\<lambda>_. Inr (too_large_fallback (Suc DEFAULT_MAX_PAYLOAD) DEFAULT_MAX_PAYLOAD))
      (too_large_fallback (length ?json) DEFAULT_MAX_PAYLOAD)"
    by (simp only: carried_def sample_flood_def length_replicate)
      (simp add: too_large_fallback_def DEFAULT_MAX_PAYLOAD_def)
  ultimately have "client_call (send_rpc sample_out
       (\<lambda>_. Inr (too_large_fallback (Suc DEFAULT_MAX_PAYLOAD) DEFAULT_MAX_PAYLOAD))
       (sample_link sample_flood new_writer)) sample_ask (sample_daemon, sample_world) =
    (Inl (CRpcError (''internal error: response too large to transmit: '' @ nat_str (length ?json)
       @ '' bytes exceeds '' @ nat_str DEFAULT_MAX_PAYLOAD
       @ ''; narrow the command or read smaller ranges'')), snd ?h)"
    by (rule oversized_answer_is_reported) (simp_all only: sample_link_def link.simps new_writer_open)
  then show ?thesis by (intro exI) (simp only: fst_conv)
qed

end
