(* ===== verification/Startup.thy ===== *)
theory Startup
  imports Handler FsResolve
begin

text \<open>
  From the command line to a running daemon: the options of \<open>are-daemon/src/main.rs\<close>, the
  configuration and \<open>build_daemon_state\<close> of \<open>are-daemon/src/lib.rs\<close>, and \<open>load_from_file\<close> of the
  grants table.  What the process asks of its surroundings (the current directory, the contents of
  the files it reads, the host name, the operating system) is a record of inputs.
\<close>

section \<open>Surroundings\<close>

record surroundings =
  su_cwd :: "string + fpath"
  su_exists :: "string \<Rightarrow> bool"
  su_read :: "string \<Rightarrow> string + string"
  su_hostname :: "string option"
  su_os :: string
  su_os_release :: "string option"
  su_version :: string

definition path_str :: "fpath \<Rightarrow> string" where
  "path_str p = slash # join_with [slash] p"

section \<open>Configuration\<close>

record daemon_config =
  dc_environment_id :: environment_id
  dc_port :: "16 word"
  dc_max_sessions :: nat
  dc_max_processes_per_session :: "nat option"
  dc_session_idle_timeout_secs :: nat
  dc_session_max_lifetime_secs :: nat
  dc_server_cert_path :: "string option"
  dc_server_key_path :: "string option"
  dc_client_ca_path :: "string option"
  dc_allowed_root :: "string option"
  dc_allowed_executables :: "string list option"
  dc_permissive_exec :: bool
  dc_grants :: "grants_table option"

text \<open>None where \<open>EnvironmentId::new\<close> would panic.\<close>

definition daemon_config_default :: "daemon_config option" where
  "daemon_config_default =
     (case environment_id_new ''default'' of
        None \<Rightarrow> None
      | Some env \<Rightarrow> Some
          \<lparr> dc_environment_id = env, dc_port = 9000, dc_max_sessions = 64,
            dc_max_processes_per_session = None,
            dc_session_idle_timeout_secs = DEFAULT_SESSION_IDLE_TIMEOUT_SECS,
            dc_session_max_lifetime_secs = DEFAULT_SESSION_MAX_LIFETIME_SECS,
            dc_server_cert_path = None, dc_server_key_path = None, dc_client_ca_path = None,
            dc_allowed_root = None, dc_allowed_executables = None, dc_permissive_exec = False,
            dc_grants = None \<rparr>)"

datatype daemon_error = BindFailed string | TlsConfig string | SessionLimitReached | Unauthorized

fun daemon_error_display :: "daemon_error \<Rightarrow> string" where
  "daemon_error_display (BindFailed s) = ''bind failed: '' @ s"
| "daemon_error_display (TlsConfig s) = ''TLS configuration failed: '' @ s"
| "daemon_error_display SessionLimitReached = ''session limit reached''"
| "daemon_error_display Unauthorized = ''unauthorized''"

section \<open>Building the daemon\<close>

text \<open>
  \<open>to_lowercase\<close> is Unicode folding; on the two ASCII words searched for it agrees with ASCII folding.
\<close>

definition detect_platform :: "string \<Rightarrow> string option \<Rightarrow> platform" where
  "detect_platform os os_release =
     (if os = ''linux''
      then (case os_release of
              None \<Rightarrow> GenericLinux
            | Some content \<Rightarrow>
                let lower = to_ascii_lowercase content in
                if sublist ''debian'' lower then Debian
                else if sublist ''ubuntu'' lower then Ubuntu
                else GenericLinux)
      else UnknownPlatform os)"

definition build_fs :: "string + fpath \<Rightarrow> daemon_config \<Rightarrow> world \<Rightarrow> filesystem_config option \<times> world" where
  "build_fs cwd config w =
     (case dc_allowed_root config of
        None \<Rightarrow> (None, w)
      | Some root \<Rightarrow>
          (case (if prefix [slash] root then Inr [] else cwd) of
             Inl _ \<Rightarrow> (None, w)
           | Inr base \<Rightarrow>
               (case fs_config_new base [root] w of
                  (Inr fs_config, w') \<Rightarrow> (Some fs_config, w')
                | (Inl e, w') \<Rightarrow> (None, w'))))"

definition build_process_config :: "daemon_config \<Rightarrow> nat \<Rightarrow> process_config" where
  "build_process_config config per_session_cap =
     (let base = (case dc_allowed_executables config of
                    None \<Rightarrow> process_config_default
                  | Some allowed \<Rightarrow> process_config_default\<lparr> pc_allowed_executables := Some (set allowed) \<rparr>)
      in base\<lparr> pc_permissive := dc_permissive_exec config,
               pc_max_processes_per_session := per_session_cap \<rparr>)"

definition build_daemon_state :: "surroundings \<Rightarrow> daemon_config \<Rightarrow> world \<Rightarrow> daemon_state \<times> world" where
  "build_daemon_state su config w =
     (let machine_name = (case su_hostname su of Some h \<Rightarrow> h | None \<Rightarrow> ''unknown'');
          platform = detect_platform (su_os su) (su_os_release su)
      in case build_fs (su_cwd su) config w of
           (fs, w') \<Rightarrow>
             let fs_caps = (if fs \<noteq> None
                   then cs_insert (cs_insert (cs_insert cs_empty FilesystemRead) FilesystemList) FilesystemWrite
                   else cs_empty);
                 caps = cs_insert (cs_insert (cs_insert fs_caps ProcessExecute) ProcessInspect) ProcessTerminate;
                 per_session_cap = (case dc_max_processes_per_session config of
                   Some n \<Rightarrow> n | None \<Rightarrow> DEFAULT_MAX_PROCESSES_PER_SESSION);
                 proc_manager = process_manager_new (dc_environment_id config)
                   (build_process_config config per_session_cap) fs;
                 state = daemon_state_new (dc_environment_id config) machine_name (su_version su) caps platform;
                 state = state\<lparr> ds_fs := fs, ds_proc := Some proc_manager \<rparr>;
                 state = (case dc_grants config of
                   Some table \<Rightarrow> state\<lparr> ds_grants := Some table \<rparr> | None \<Rightarrow> state);
                 session_config = \<lparr> sc_idle_timeout_secs = dc_session_idle_timeout_secs config,
                   sc_max_lifetime_secs = dc_session_max_lifetime_secs config,
                   sc_max_sessions = dc_max_sessions config,
                   sc_max_processes_per_session = per_session_cap \<rparr>
             in (state\<lparr> ds_sessions :=
                   Some (session_manager_new (dc_environment_id config) session_config fs) \<rparr>, w'))"

section \<open>The command line\<close>

record listen_options =
  lo_port :: "16 word"
  lo_address :: string
  lo_environment_id :: string
  lo_cert :: "string option"
  lo_key :: "string option"
  lo_ca :: "string option"
  lo_allowed_root :: "string option"
  lo_allow_exec :: "string option"
  lo_permissive_exec :: bool
  lo_session_idle_timeout :: nat
  lo_session_max_lifetime :: nat
  lo_max_sessions :: nat
  lo_max_processes_per_session :: nat
  lo_grants_file :: "string option"
  lo_permissive_authz :: bool

text \<open>
  \<open>str::trim\<close>: the characters with the Unicode property \<open>White_Space\<close>, in UTF-8.
\<close>

definition WHITE_SPACE :: "string list" where
  "WHITE_SPACE = map (map char_of)
     ([[9 :: nat], [10], [11], [12], [13], [32], [0xC2, 0x85], [0xC2, 0xA0], [0xE1, 0x9A, 0x80]] @
      map (\<lambda>k. [0xE2, 0x80, k]) [0x80 ..< 0x8B] @
      [[0xE2, 0x80, 0xA8], [0xE2, 0x80, 0xA9], [0xE2, 0x80, 0xAF], [0xE2, 0x81, 0x9F], [0xE3, 0x80, 0x80]])"

lemma white_space_nonempty: "ws \<in> set WHITE_SPACE \<Longrightarrow> 0 < length ws"
  by (auto simp: WHITE_SPACE_def)

function trim_start :: "string \<Rightarrow> string" where
  "trim_start s =
     (case find (\<lambda>ws. prefix ws s) WHITE_SPACE of
        None \<Rightarrow> s
      | Some ws \<Rightarrow> trim_start (drop (length ws) s))"
  by auto

termination trim_start
proof (relation "measure length")
  fix s ws
  assume "find (\<lambda>ws. prefix ws s) WHITE_SPACE = Some ws"
  then have "ws \<in> set WHITE_SPACE" "prefix ws s" by (auto simp: find_Some_iff)
  then have "0 < length ws" "length ws \<le> length s" by (simp_all only: white_space_nonempty prefix_length_le)
  then show "(drop (length ws) s, s) \<in> measure length"
    by (simp only: in_measure length_drop)
qed simp

function trim_end :: "string \<Rightarrow> string" where
  "trim_end s =
     (case find (\<lambda>ws. suffix ws s) WHITE_SPACE of
        None \<Rightarrow> s
      | Some ws \<Rightarrow> trim_end (take (length s - length ws) s))"
  by auto

termination trim_end
proof (relation "measure length")
  fix s ws
  assume "find (\<lambda>ws. suffix ws s) WHITE_SPACE = Some ws"
  then have "ws \<in> set WHITE_SPACE" "suffix ws s" by (auto simp: find_Some_iff)
  then have "0 < length ws" "length ws \<le> length s" by (simp_all only: white_space_nonempty suffix_length_le)
  then show "(take (length s - length ws) s, s) \<in> measure length"
    by (simp only: in_measure length_take)
qed simp

declare trim_start.simps [simp del] trim_end.simps [simp del]

definition trim :: "string \<Rightarrow> string" where
  "trim s = trim_end (trim_start s)"

definition parse_allow_exec :: "string \<Rightarrow> string list" where
  "parse_allow_exec s = filter (\<lambda>name. name \<noteq> []) (map trim (split_on (CHR '','') s))"

definition validate_authz_mode :: "string option \<Rightarrow> bool \<Rightarrow> string + unit" where
  "validate_authz_mode grants_file permissive_authz =
     (if grants_file = None \<and> \<not> permissive_authz
      then Inl (''neither --grants-file nor --permissive-authz given. Pass --grants-file <path> '' @
        ''to run STRICT, or --permissive-authz to run legacy-permissive (DEVELOPMENT ONLY '' @
        map char_of [0xE2 :: nat, 0x80, 0x94] @
        '' every authenticated client may do anything; do not use in production)'')
      else Inr ())"

definition grants_load_from_file ::
  "(string \<Rightarrow> string + raw_grants_file) \<Rightarrow> (string \<Rightarrow> string + string) \<Rightarrow> string \<Rightarrow> string + grants_table" where
  "grants_load_from_file from_str read_to_string path =
     bindE (mapE (\<lambda>e. ''failed to read grants file '' @ path @ '': '' @ e) (read_to_string path)) (\<lambda>text.
     mapE (\<lambda>e. path @ '': '' @ e) (grants_parse_json from_str text))"

text \<open>How a start ends early: the process exits with a message, or \<open>main\<close> returns an error.\<close>

datatype start_error = ExitMessage string | MainError string

definition choose_root :: "surroundings \<Rightarrow> string option \<Rightarrow> start_error + string" where
  "choose_root su allowed_root =
     (case allowed_root of
        Some path \<Rightarrow>
          if \<not> su_exists su path
          then Inl (ExitMessage (''error: allowed-root path does not exist: '' @ path))
          else Inr path
      | None \<Rightarrow>
          mapE (\<lambda>e. MainError (''failed to get current directory: '' @ e))
            (bindE (su_cwd su) (\<lambda>cwd. Inr (path_str cwd))))"

definition load_grants ::
  "(string \<Rightarrow> string + raw_grants_file) \<Rightarrow> surroundings \<Rightarrow> string option \<Rightarrow> start_error + grants_table option" where
  "load_grants from_str su grants_file =
     (case grants_file of
        None \<Rightarrow> Inr None
      | Some path \<Rightarrow>
          (case grants_load_from_file from_str (su_read su) path of
             Inr table \<Rightarrow> Inr (Some table)
           | Inl e \<Rightarrow> Inl (ExitMessage (''error: refusing to start: '' @ e))))"

definition listen_config ::
  "(string \<Rightarrow> string + raw_grants_file) \<Rightarrow> surroundings \<Rightarrow> listen_options \<Rightarrow> start_error + daemon_config" where
  "listen_config from_str su opts =
     bindE (mapE (\<lambda>msg. ExitMessage (''error: refusing to start: '' @ msg))
              (validate_authz_mode (lo_grants_file opts) (lo_permissive_authz opts))) (\<lambda>_.
     bindE (mapE (\<lambda>e. MainError (''invalid environment_id: '' @ core_error_display e))
              (environment_id_try_new (lo_environment_id opts))) (\<lambda>env.
     bindE (choose_root su (lo_allowed_root opts)) (\<lambda>root.
     bindE (load_grants from_str su (lo_grants_file opts)) (\<lambda>grants.
     Inr \<lparr> dc_environment_id = env, dc_port = lo_port opts, dc_max_sessions = lo_max_sessions opts,
           dc_max_processes_per_session = Some (lo_max_processes_per_session opts),
           dc_session_idle_timeout_secs = lo_session_idle_timeout opts,
           dc_session_max_lifetime_secs = lo_session_max_lifetime opts,
           dc_server_cert_path = lo_cert opts, dc_server_key_path = lo_key opts,
           dc_client_ca_path = lo_ca opts, dc_allowed_root = Some root,
           dc_allowed_executables = map_option parse_allow_exec (lo_allow_exec opts),
           dc_permissive_exec = lo_permissive_exec opts, dc_grants = grants \<rparr>))))"

definition start_daemon ::
  "(string \<Rightarrow> string + raw_grants_file) \<Rightarrow> surroundings \<Rightarrow> listen_options \<Rightarrow> world
    \<Rightarrow> start_error + daemon_state \<times> world" where
  "start_daemon from_str su opts w =
     bindE (listen_config from_str su opts) (\<lambda>config.
     Inr (build_daemon_state su config w))"

section \<open>What a started daemon is\<close>

lemma canonicalize_str_same: "same_tree.obeys (canonicalize_str cwd s)"
  unfolding canonicalize_str_def
  by (intro same_tree.obeys_if obeys_pure obeys_canonicalize)

lemma canonicalize_str_Inr:
  "canonicalize_str cwd s w = (Inr p, w') \<Longrightarrow> real_path (w_fs w) (os_path cwd s) = Inr p"
  by (auto simp: canonicalize_str_def sys_canonicalize_def syscall_Inr split: if_splits)

lemma fs_config_single:
  assumes "fs_config_new cwd [root] w = (r, w')"
  shows "same_tree w w'" and "r = Inr c \<Longrightarrow> \<exists>p. c = \<lparr> fc_allowed_roots = [p],
    fc_max_file_bytes = DEFAULT_MAX_FILE_BYTES \<rparr> \<and> real_path (w_fs w) (os_path cwd root) = Inr p"
proof -
  have "same_tree.obeys (fs_config_new cwd [root])"
    unfolding fs_config_new_def fs_config_with_max_file_bytes_def
    by (simp, intro same_tree.obeys_bind same_tree.obeys_map_err canonicalize_str_same same_tree.obeys_ok)
  then show "same_tree w w'" using assms by (rule same_tree.obeysD)
  show "r = Inr c \<Longrightarrow> \<exists>p. c = \<lparr> fc_allowed_roots = [p],
    fc_max_file_bytes = DEFAULT_MAX_FILE_BYTES \<rparr> \<and> real_path (w_fs w) (os_path cwd root) = Inr p"
    using assms canonicalize_str_Inr
    by (fastforce simp: fs_config_new_def fs_config_with_max_file_bytes_def bindM_Inr okM_def mapM_err_def
        split: prod.splits)
qed

lemma build_fs_cases:
  assumes "build_fs cwd config w = (fs, w')"
  shows "same_tree w w'" and "fs = Some c \<Longrightarrow> \<exists>root base p. dc_allowed_root config = Some root \<and>
    c = \<lparr> fc_allowed_roots = [p], fc_max_file_bytes = DEFAULT_MAX_FILE_BYTES \<rparr> \<and>
    real_path (w_fs w) (os_path base root) = Inr p"
proof -
  show "same_tree w w'"
    using assms fs_config_single(1)
    by (auto simp: build_fs_def same_tree.R_refl split: option.splits sum.splits prod.splits if_splits)
  show "\<exists>root base p. dc_allowed_root config = Some root \<and>
    c = \<lparr> fc_allowed_roots = [p], fc_max_file_bytes = DEFAULT_MAX_FILE_BYTES \<rparr> \<and>
    real_path (w_fs w) (os_path base root) = Inr p" if "fs = Some c"
    using assms that
    by (auto simp: build_fs_def split: option.splits sum.splits prod.splits if_splits
        dest!: fs_config_single(2) [OF _ refl])
qed
definition daemon_limits :: "listen_options \<Rightarrow> session_config" where
  "daemon_limits opts = \<lparr> sc_idle_timeout_secs = lo_session_idle_timeout opts,
     sc_max_lifetime_secs = lo_session_max_lifetime opts, sc_max_sessions = lo_max_sessions opts,
     sc_max_processes_per_session = lo_max_processes_per_session opts \<rparr>"

lemma listen_config_Inr:
  assumes "listen_config from_str su opts = Inr config"
  shows "dc_max_processes_per_session config = Some (lo_max_processes_per_session opts)"
    and "dc_session_idle_timeout_secs config = lo_session_idle_timeout opts"
    and "dc_session_max_lifetime_secs config = lo_session_max_lifetime opts"
    and "dc_max_sessions config = lo_max_sessions opts"
    and "dc_environment_id config = EnvironmentId (lo_environment_id opts)"
    and "dc_allowed_executables config = map_option parse_allow_exec (lo_allow_exec opts)"
    and "dc_permissive_exec config = lo_permissive_exec opts"
    and "lo_grants_file opts = None \<Longrightarrow> lo_permissive_authz opts \<and> dc_grants config = None"
    and "lo_grants_file opts = Some path \<Longrightarrow>
      \<exists>table. grants_load_from_file from_str (su_read su) path = Inr table \<and> dc_grants config = Some table"
  using assms
  by (auto simp: listen_config_def bindE_Inr_iff validate_authz_mode_def load_grants_def
      environment_id_try_new_def split: if_splits option.splits sum.splits)

lemma build_daemon_parts:
  assumes "build_daemon_state su config w = (st, w')"
  obtains fs where "build_fs (su_cwd su) config w = (fs, w')" and "ds_fs st = fs"
    and "ds_environment_id st = dc_environment_id config" and "ds_grants st = dc_grants config"
    and "ds_platform st = detect_platform (su_os su) (su_os_release su)"
    and "ds_proc st = Some (process_manager_new (dc_environment_id config)
      (build_process_config config (case dc_max_processes_per_session config of
         Some n \<Rightarrow> n | None \<Rightarrow> DEFAULT_MAX_PROCESSES_PER_SESSION)) fs)"
    and "ds_sessions st = Some (session_manager_new (dc_environment_id config)
      \<lparr> sc_idle_timeout_secs = dc_session_idle_timeout_secs config,
        sc_max_lifetime_secs = dc_session_max_lifetime_secs config,
        sc_max_sessions = dc_max_sessions config,
        sc_max_processes_per_session = (case dc_max_processes_per_session config of
          Some n \<Rightarrow> n | None \<Rightarrow> DEFAULT_MAX_PROCESSES_PER_SESSION) \<rparr> fs)"
    and "ds_advertised_capabilities st = {ProcessExecute, ProcessInspect, ProcessTerminate} \<union>
      (if fs = None then {} else {FilesystemRead, FilesystemList, FilesystemWrite})"
proof -
  obtain fs w1 where fs: "build_fs (su_cwd su) config w = (fs, w1)" by (cases "build_fs (su_cwd su) config w")
  show ?thesis
    by (rule that [of fs])
      (use assms fs in \<open>auto simp: build_daemon_state_def Let_def daemon_state_new_def cs_insert_def cs_empty_def
         split: option.splits\<close>)
qed

end
