(* ===== verification/StartupProps.thy ===== *)
theory StartupProps
  imports Startup DaemonInv
begin

text \<open>
  What the command line of the daemon settles: the authorization mode and the execution policy are
  explicit choices, and the limits given on it bound the tables of every state the daemon reaches.
\<close>

lemma start_daemon_Inr:
  assumes "start_daemon from_str su opts w = Inr (st, w')"
  obtains config where "listen_config from_str su opts = Inr config"
    and "build_daemon_state su config w = (st, w')"
  using assms by (auto simp: start_daemon_def bindE_Inr_iff)

lemma denied_always:
  "normalize_program_name program \<in> normalize_program_name ` pc_denied_executables config \<Longrightarrow>
    \<exists>e. check_policy config program = Inl e"
  unfolding check_policy_def Let_def by (intro exI, subst if_P) (auto simp: image_iff)

lemma no_list_refused:
  "pc_allowed_executables config = None \<Longrightarrow> \<not> pc_permissive config \<Longrightarrow>
    \<exists>e. check_policy config program = Inl e"
  by (auto simp: check_policy_def Let_def)

lemma build_process_config_parts [simp]:
  "pc_permissive (build_process_config config cap) = dc_permissive_exec config"
  "pc_max_processes_per_session (build_process_config config cap) = cap"
  "pc_denied_executables (build_process_config config cap) = DEFAULT_DENIED_EXECUTABLES"
  "pc_max_processes (build_process_config config cap) = DEFAULT_MAX_PROCESSES"
  "pc_allowed_executables (build_process_config config cap) = map_option set (dc_allowed_executables config)"
  by (auto simp: build_process_config_def process_config_default_def Let_def split: option.splits)

text \<open>
  Claim C14.  The daemon never decides silently to be permissive.  If it starts without a grants
  file, the operator has asked for it with the development flag; a grants file that is given is
  loaded, governs every request whatever the flag says, and a file that cannot be read or parsed
  stops the start.  Without an allow list and without the development flag every program is refused,
  and the built-in deny list is in force in every mode.
\<close>

theorem startup_is_explicit:
  assumes "start_daemon from_str su opts w = Inr (st, w')"
  shows "(case lo_grants_file opts of
        None \<Rightarrow> lo_permissive_authz opts \<and> ds_grants st = None
      | Some path \<Rightarrow> \<exists>table. grants_load_from_file from_str (su_read su) path = Inr table \<and>
          ds_grants st = Some table) \<and>
    (\<exists>pm. ds_proc st = Some pm \<and>
      (lo_allow_exec opts = None \<longrightarrow> \<not> lo_permissive_exec opts \<longrightarrow>
         (\<forall>program. \<exists>e. check_policy (pm_config pm) program = Inl e)) \<and>
      (\<forall>program. normalize_program_name program \<in> normalize_program_name ` DEFAULT_DENIED_EXECUTABLES \<longrightarrow>
         (\<exists>e. check_policy (pm_config pm) program = Inl e)))"
proof -
  obtain config where config: "listen_config from_str su opts = Inr config"
    and build: "build_daemon_state su config w = (st, w')" using assms by (rule start_daemon_Inr)
  note parts = listen_config_Inr [OF config]
  from build show ?thesis
  proof (rule build_daemon_parts)
    fix fs
    assume grants: "ds_grants st = dc_grants config"
      and pm: "ds_proc st = Some (process_manager_new (dc_environment_id config)
        (build_process_config config (case dc_max_processes_per_session config of
           Some n \<Rightarrow> n | None \<Rightarrow> DEFAULT_MAX_PROCESSES_PER_SESSION)) fs)"
    have "case lo_grants_file opts of
        None \<Rightarrow> lo_permissive_authz opts \<and> ds_grants st = None
      | Some path \<Rightarrow> \<exists>table. grants_load_from_file from_str (su_read su) path = Inr table \<and>
          ds_grants st = Some table"
      using parts(8,9) grants by (simp split: option.split)
    then show ?thesis
      using pm parts(6,7) by (simp add: process_manager_new_def denied_always no_list_refused)
  qed
qed

definition sample_surroundings :: surroundings where
  "sample_surroundings = \<lparr> su_cwd = Inr [''srv''], su_exists = (\<lambda>_. True), su_read = (\<lambda>_. Inr ''{}''),
     su_hostname = Some ''host'', su_os = ''linux'', su_os_release = None, su_version = ''1.0'' \<rparr>"

definition sample_options :: listen_options where
  "sample_options = \<lparr> lo_port = 9000, lo_address = ''127.0.0.1'', lo_environment_id = ''dev'',
     lo_cert = None, lo_key = None, lo_ca = None, lo_allowed_root = Some ''/srv'', lo_allow_exec = None,
     lo_permissive_exec = False, lo_session_idle_timeout = 3600, lo_session_max_lifetime = 86400,
     lo_max_sessions = 2, lo_max_processes_per_session = 2, lo_grants_file = Some ''grants.json'',
     lo_permissive_authz = False \<rparr>"

definition sample_from_str :: "string \<Rightarrow> string + raw_grants_file" where
  "sample_from_str _ = Inr \<lparr> rf_principals = [] \<rparr>"

lemma sample_start_ok: "\<not> isl (start_daemon sample_from_str sample_surroundings sample_options sample_world)"
proof -
  have "environment_id_try_new ''dev'' = Inr (EnvironmentId ''dev'')" by code_simp
  moreover have "grants_parse_json sample_from_str ''{}'' = Inr \<lparr> gt_principals = [] \<rparr>"
    by (simp add: grants_parse_json_def sample_from_str_def)
  ultimately show ?thesis
    by (simp add: start_daemon_def listen_config_def validate_authz_mode_def choose_root_def load_grants_def
        grants_load_from_file_def sample_options_def sample_surroundings_def)
qed

theorem startup_is_explicit_witness:
  "\<exists>st w'. start_daemon sample_from_str sample_surroundings sample_options sample_world = Inr (st, w') \<and>
     ds_grants st \<noteq> None \<and>
     (\<exists>pm. ds_proc st = Some pm \<and> (\<exists>e. check_policy (pm_config pm) ''/bin/ls'' = Inl e))"
proof -
  obtain st w' where start: "start_daemon sample_from_str sample_surroundings sample_options sample_world =
      Inr (st, w')"
    using sample_start_ok
    by (cases "start_daemon sample_from_str sample_surroundings sample_options sample_world") auto
  from startup_is_explicit [OF this] show ?thesis
    using start by (auto simp: sample_options_def)
qed
section \<open>The configuration of a running daemon\<close>

lemma cfg_fs: "cfg.keeps (fsH h m)"
  by (rule cfg.keepsI) (auto simp: fsH_run same_config_def)

lemma cfg_proc: "cfg.keeps (procH f)"
  by (rule cfg.keepsI) (auto simp: procH_run same_config_def)

lemma cfg_sess: "cfg.keeps (sessH f)"
  by (rule cfg.keepsI) (auto simp: sessH_run same_config_def)

lemma cfg_quiet: "quiet.keeps m \<Longrightarrow> cfg.keeps m"
  by (rule cfg.keepsI) (auto dest: quiet.keepsD simp: no_effect_def)

lemma cfg_kill_count: "cfg.keeps (kill_countH sid)"
  by (rule cfg.keepsI) (auto simp: kill_countH_def same_config_def split: option.splits prod.splits)

lemma cfg_live: "cfg.keeps (require_live_session caller sid)"
  by (rule cfg_quiet [OF quiet_live])

lemmas cfg_steps =
  cfg.keeps_intros cfg_fs cfg_proc cfg_sess cfg_kill_count cfg_live cfg_quiet [OF quiet_kill]
  cfg_quiet [OF quiet_rel] cfg_quiet [OF quiet_live_in]

lemma cfg_handle: "cfg.keeps (handle_as b3 polls caller req)"
  by (cases req)
    (auto intro!: cfg.keeps_respond cfg_steps split: prod.split
      simp: handle_get_environment_info_def handle_read_file_def handle_list_directory_def
        handle_get_file_metadata_def handle_write_file_def handle_create_directory_def handle_rename_def
        handle_delete_file_def handle_execute_def handle_process_status_def handle_terminate_process_def
        handle_wait_process_def handle_create_session_def handle_get_session_def handle_list_sessions_def
        handle_terminate_session_def)

lemma config_reachable:
  "daemon_step\<^sup>*\<^sup>* st st' \<Longrightarrow> same_config (st, w) (st', w)"
proof (induction rule: rtranclp_induct)
  case (step y z)
  have "same_config (y, w) (z, w)"
    using step(2) by cases (use cfg.keepsD [OF cfg_handle] in \<open>fastforce simp: same_config_def\<close>)+
  then show ?case using step(3) cfg.R_trans by blast
qed (simp add: cfg.R_refl)

section \<open>Platform detection\<close>

text \<open>
  The os-release file of Ubuntu names Debian as the distribution it is like, and the search for
  Debian comes first.
\<close>

lemma ubuntu_is_reported_as_debian:
  "detect_platform ''linux'' (Some (''NAME=Ubuntu'' @ [CHR 0x0A] @ ''ID=ubuntu'' @ [CHR 0x0A] @ ''ID_LIKE=debian'')) = Debian"
proof -
  have "sublist ''debian'' (to_ascii_lowercase (''NAME=Ubuntu'' @ [CHR 0x0A] @ ''ID=ubuntu'' @ [CHR 0x0A] @ ''ID_LIKE=debian''))"
    by code_simp
  then show ?thesis unfolding detect_platform_def by (simp only: refl if_True option.case Let_def)
qed

end
