(* ===== verification/Adapter.thy ===== *)
theory Adapter
  imports Rpc
begin

text \<open>
  \<open>are-agent-adapter\<close>: the environment, session and process handles an agent works with.  Every
  operation is a call of the client; the client itself is a function that performs one remote call
  on the state of the other side.  An operation that can panic returns None for the panic.  The text
  of an I/O error and the texts of \<open>serde_json\<close> are not modelled.
\<close>

section \<open>Errors\<close>

datatype adapter_error =
    AConnection connection_error
  | ARpc rpc_error
  | AIo stream_error
  | ASessionNotFound string
  | AProcessNotFound string
  | ACapabilityNotAvailable string
  | AInvalidRequest string
  | ATimeout string
  | ASerialization string

fun adapter_error_display :: "(stream_error \<Rightarrow> string) \<Rightarrow> adapter_error \<Rightarrow> string" where
  "adapter_error_display show_io (AConnection e) = ''connection failed: '' @ connection_error_display show_io e"
| "adapter_error_display show_io (ARpc e) = ''RPC error: '' @ rpc_error_display e"
| "adapter_error_display show_io (AIo e) = ''I/O error: '' @ show_io e"
| "adapter_error_display show_io (ASessionNotFound s) = ''session not found: '' @ s"
| "adapter_error_display show_io (AProcessNotFound s) = ''process not found: '' @ s"
| "adapter_error_display show_io (ACapabilityNotAvailable s) = ''capability not available: '' @ s"
| "adapter_error_display show_io (AInvalidRequest s) = ''invalid request: '' @ s"
| "adapter_error_display show_io (ATimeout s) = ''operation timed out: '' @ s"
| "adapter_error_display show_io (ASerialization s) = ''serialization error: '' @ s"

definition rpc_error_from_adapter :: "(stream_error \<Rightarrow> string) \<Rightarrow> adapter_error \<Rightarrow> rpc_error" where
  "rpc_error_from_adapter show_io err = RpcInternalError (adapter_error_display show_io err)"

section \<open>Calls\<close>

type_synonym ('s, 'a) adapter_call = "'s \<Rightarrow> (adapter_error + 'a) \<times> 's"

definition ask :: "('s, 'a) client_call \<Rightarrow> ('a \<Rightarrow> 'b) \<Rightarrow> ('s, 'b) adapter_call" where
  "ask call f s = (case call s of (r, s') \<Rightarrow> (map_sum AConnection f r, s'))"

section \<open>Data\<close>

record file_write_result =
  fwr_bytes_written :: nat
  fwr_content_hash :: string

record adapter_entry =
  ae_name :: string
  ae_is_dir :: bool
  ae_size :: "nat option"
  ae_content_hash :: "string option"

record adapter_metadata =
  am_is_dir :: bool
  am_size :: nat
  am_content_hash :: "string option"
  am_modified :: nat

record adapter_execute_request =
  ax_program :: string
  ax_args :: "string list"
  ax_working_directory :: string
  ax_env_vars :: env_map
  ax_session_id :: "session_id option"

record adapter_session_config =
  ac_working_directory :: string
  ac_env_vars :: env_map

definition write_result_of :: "write_file_response \<Rightarrow> file_write_result" where
  "write_result_of resp =
     \<lparr> fwr_bytes_written = fm_size (wr_metadata resp),
       fwr_content_hash = (case fm_hash (wr_metadata resp) of None \<Rightarrow> [] | Some h \<Rightarrow> h) \<rparr>"

definition entry_of :: "directory_entry \<Rightarrow> adapter_entry" where
  "entry_of e =
     \<lparr> ae_name = de_name e, ae_is_dir = fm_is_dir (de_metadata e),
       ae_size = (if fm_is_file (de_metadata e) then Some (fm_size (de_metadata e)) else None),
       ae_content_hash = fm_hash (de_metadata e) \<rparr>"

definition metadata_of_response :: "get_file_metadata_response \<Rightarrow> adapter_metadata" where
  "metadata_of_response resp =
     (let meta = gmr_metadata resp in
      \<lparr> am_is_dir = fm_is_dir meta, am_size = fm_size meta, am_content_hash = fm_hash meta,
        am_modified = (case fm_modified_at meta of None \<Rightarrow> 0 | Some t \<Rightarrow> t) \<rparr>)"

section \<open>Processes\<close>

datatype adapter_status = StatusRunning | StatusExited int | StatusFailed string

fun status_from_response :: "process_state \<Rightarrow> adapter_status" where
  "status_from_response Running = StatusRunning"
| "status_from_response (Exited code) = StatusExited code"
| "status_from_response (Failed message) = StatusFailed message"

record process_output =
  po_exit_code :: "int option"
  po_stdout :: bytes
  po_stderr :: bytes
  po_timed_out :: bool
  po_truncated :: bool

definition output_from_response :: "wait_process_response \<Rightarrow> process_output" where
  "output_from_response resp =
     \<lparr> po_exit_code = wpr_exit_code resp, po_stdout = wpr_stdout resp, po_stderr = wpr_stderr resp,
       po_timed_out = wpr_timed_out resp, po_truncated = wpr_truncated resp \<rparr>"

definition output_success :: "process_output \<Rightarrow> bool" where
  "output_success out \<longleftrightarrow> po_exit_code out = Some 0"

record 's process_handle =
  ph_client :: "'s rpc"
  ph_environment_id :: environment_id
  ph_process_id :: process_id
  ph_session_id :: "session_id option"

text \<open>The session of a request; None is the panic of \<open>SessionId::new("")\<close>.\<close>

definition session_or_panic :: "session_id option \<Rightarrow> session_id option" where
  "session_or_panic sid = (case sid of Some s \<Rightarrow> Some s | None \<Rightarrow> session_id_new '''')"

definition ph_wait :: "'s process_handle \<Rightarrow> nat \<Rightarrow> ('s, process_output) adapter_call option" where
  "ph_wait h timeout_secs =
     (case session_or_panic (ph_session_id h) of
        None \<Rightarrow> None
      | Some sid \<Rightarrow> Some (ask
          (client_wait_process (ph_client h)
             \<lparr> wp_environment_id = ph_environment_id h, wp_session_id = sid,
               wp_process_id = ph_process_id h, wp_timeout_secs = timeout_secs \<rparr>)
          output_from_response))"

definition ph_wait_infinite :: "'s process_handle \<Rightarrow> ('s, process_output) adapter_call option" where
  "ph_wait_infinite h = ph_wait h 0"

definition ph_status :: "'s process_handle \<Rightarrow> ('s, adapter_status) adapter_call option" where
  "ph_status h =
     (case session_or_panic (ph_session_id h) of
        None \<Rightarrow> None
      | Some sid \<Rightarrow> Some (ask
          (client_process_status (ph_client h)
             \<lparr> ps_environment_id = ph_environment_id h, ps_session_id = sid,
               ps_process_id = ph_process_id h \<rparr>)
          (\<lambda>resp. status_from_response (psr_state resp))))"

definition ph_terminate :: "'s process_handle \<Rightarrow> ('s, bool) adapter_call option" where
  "ph_terminate h =
     (case session_or_panic (ph_session_id h) of
        None \<Rightarrow> None
      | Some sid \<Rightarrow> Some (ask
          (client_terminate_process (ph_client h)
             \<lparr> tp_environment_id = ph_environment_id h, tp_session_id = sid,
               tp_process_id = ph_process_id h, tp_force = True \<rparr>)
          tpr_terminated))"

text \<open>\<open>elapsed\<close>: the client-side timer fires before the call returns; the call has been sent.\<close>

definition ph_wait_with_timeout ::
  "'s process_handle \<Rightarrow> bool \<Rightarrow> ('s, process_output) adapter_call option" where
  "ph_wait_with_timeout h elapsed =
     map_option (\<lambda>call s. case call s of (r, s') \<Rightarrow>
       (if elapsed then Inl (ATimeout (''client-side timeout waiting for process ''
            @ proc_str (ph_process_id h))) else r, s')) (ph_wait h 0)"

section \<open>Sessions\<close>

record 's session_handle =
  sh_client :: "'s rpc"
  sh_environment_id :: environment_id
  sh_session_id :: session_id

definition sh_read_file :: "'s session_handle \<Rightarrow> string \<Rightarrow> ('s, bytes) adapter_call" where
  "sh_read_file h path =
     ask (client_read_file (sh_client h) \<lparr> rf_environment_id = sh_environment_id h, rf_path = path \<rparr>) rr_content"

definition sh_write_file :: "'s session_handle \<Rightarrow> string \<Rightarrow> bytes \<Rightarrow> ('s, file_write_result) adapter_call" where
  "sh_write_file h path content =
     ask (client_write_file (sh_client h)
       \<lparr> wf_environment_id = sh_environment_id h, wf_path = path, wf_content = content,
         wf_overwrite = True, wf_expected_hash = None \<rparr>) write_result_of"

definition sh_list_directory :: "'s session_handle \<Rightarrow> string \<Rightarrow> ('s, adapter_entry list) adapter_call" where
  "sh_list_directory h path =
     ask (client_list_directory (sh_client h)
       \<lparr> ld_environment_id = sh_environment_id h, ld_path = path \<rparr>) (\<lambda>resp. map entry_of (ldr_entries resp))"

definition sh_file_metadata :: "'s session_handle \<Rightarrow> string \<Rightarrow> ('s, adapter_metadata) adapter_call" where
  "sh_file_metadata h path =
     ask (client_file_metadata (sh_client h)
       \<lparr> gm_environment_id = sh_environment_id h, gm_path = path \<rparr>) metadata_of_response"

definition sh_create_directory :: "'s session_handle \<Rightarrow> string \<Rightarrow> ('s, unit) adapter_call" where
  "sh_create_directory h path =
     ask (client_create_directory (sh_client h)
       \<lparr> cd_environment_id = sh_environment_id h, cd_path = path \<rparr>) (\<lambda>_. ())"

definition sh_rename :: "'s session_handle \<Rightarrow> string \<Rightarrow> string \<Rightarrow> ('s, unit) adapter_call" where
  "sh_rename h src dst =
     ask (client_rename (sh_client h)
       \<lparr> rn_environment_id = sh_environment_id h, rn_src = src, rn_dst = dst \<rparr>) (\<lambda>_. ())"

definition sh_delete :: "'s session_handle \<Rightarrow> string \<Rightarrow> ('s, unit) adapter_call" where
  "sh_delete h path =
     ask (client_delete_file (sh_client h)
       \<lparr> dl_environment_id = sh_environment_id h, dl_path = path \<rparr>) (\<lambda>_. ())"

definition sh_execute :: "'s session_handle \<Rightarrow> adapter_execute_request \<Rightarrow> ('s, 's process_handle) adapter_call" where
  "sh_execute h request =
     ask (client_execute (sh_client h)
       \<lparr> ex_environment_id = sh_environment_id h, ex_session_id = sh_session_id h,
         ex_program = ax_program request, ex_args = ax_args request,
         ex_working_directory = ax_working_directory request, ex_env_vars = ax_env_vars request \<rparr>)
       (\<lambda>resp. \<lparr> ph_client = sh_client h, ph_environment_id = sh_environment_id h,
          ph_process_id = exr_process_id resp, ph_session_id = Some (sh_session_id h) \<rparr>)"

section \<open>Environments\<close>

text \<open>The cache of session handles is a \<open>HashMap\<close> behind a lock that cannot be poisoned.\<close>

record 's remote_environment =
  re_client :: "'s rpc"
  re_environment_id :: environment_id
  re_capabilities :: capability_set
  re_sessions :: "(session_id, 's session_handle) hmap"

definition re_connect :: "'s rpc \<Rightarrow> environment_id \<Rightarrow> ('s, 's remote_environment) adapter_call" where
  "re_connect client env =
     ask (client_get_environment_info client env)
       (\<lambda>info. \<lparr> re_client = client, re_environment_id = env,
          re_capabilities = gir_advertised_capabilities info, re_sessions = [] \<rparr>)"

definition re_new_unchecked :: "'s rpc \<Rightarrow> environment_id \<Rightarrow> capability_set \<Rightarrow> 's remote_environment" where
  "re_new_unchecked client env caps =
     \<lparr> re_client = client, re_environment_id = env, re_capabilities = caps, re_sessions = [] \<rparr>"

definition re_read_file :: "'s remote_environment \<Rightarrow> string \<Rightarrow> ('s, bytes) adapter_call" where
  "re_read_file env path =
     ask (client_read_file (re_client env) \<lparr> rf_environment_id = re_environment_id env, rf_path = path \<rparr>) rr_content"

definition re_write_file :: "'s remote_environment \<Rightarrow> string \<Rightarrow> bytes \<Rightarrow> ('s, file_write_result) adapter_call" where
  "re_write_file env path content =
     ask (client_write_file (re_client env)
       \<lparr> wf_environment_id = re_environment_id env, wf_path = path, wf_content = content,
         wf_overwrite = True, wf_expected_hash = None \<rparr>) write_result_of"

definition re_list_directory :: "'s remote_environment \<Rightarrow> string \<Rightarrow> ('s, adapter_entry list) adapter_call" where
  "re_list_directory env path =
     ask (client_list_directory (re_client env)
       \<lparr> ld_environment_id = re_environment_id env, ld_path = path \<rparr>) (\<lambda>resp. map entry_of (ldr_entries resp))"

definition re_file_metadata :: "'s remote_environment \<Rightarrow> string \<Rightarrow> ('s, adapter_metadata) adapter_call" where
  "re_file_metadata env path =
     ask (client_file_metadata (re_client env)
       \<lparr> gm_environment_id = re_environment_id env, gm_path = path \<rparr>) metadata_of_response"

definition re_execute ::
  "'s remote_environment \<Rightarrow> adapter_execute_request \<Rightarrow> ('s, 's process_handle) adapter_call option" where
  "re_execute env request =
     (case session_or_panic (ax_session_id request) of
        None \<Rightarrow> None
      | Some sid \<Rightarrow> Some (ask
          (client_execute (re_client env)
             \<lparr> ex_environment_id = re_environment_id env, ex_session_id = sid,
               ex_program = ax_program request, ex_args = ax_args request,
               ex_working_directory = ax_working_directory request, ex_env_vars = ax_env_vars request \<rparr>)
          (\<lambda>resp. \<lparr> ph_client = re_client env, ph_environment_id = re_environment_id env,
             ph_process_id = exr_process_id resp, ph_session_id = Some sid \<rparr>)))"

definition session_handle_new :: "'s remote_environment \<Rightarrow> session_id \<Rightarrow> 's session_handle" where
  "session_handle_new env sid =
     \<lparr> sh_client = re_client env, sh_environment_id = re_environment_id env, sh_session_id = sid \<rparr>"

text \<open>The operations on sessions also return the environment, with its cache updated.\<close>

definition caching :: "'s remote_environment \<Rightarrow> session_id \<Rightarrow> 's session_handle \<Rightarrow> 's remote_environment" where
  "caching env sid h = env\<lparr> re_sessions := hm_insert sid h (re_sessions env) \<rparr>"

definition re_create_session ::
  "'s remote_environment \<Rightarrow> adapter_session_config
    \<Rightarrow> ('s, 's session_handle \<times> 's remote_environment) adapter_call" where
  "re_create_session env config =
     ask (client_create_session (re_client env)
       \<lparr> cs_environment_id = re_environment_id env,
         cs_working_directory = (if ac_working_directory config = [] then None
           else Some (ac_working_directory config)),
         cs_env_vars = ac_env_vars config \<rparr>)
       (\<lambda>resp. let sid = si_session_id (csr_session resp); h = session_handle_new env sid in
          (h, caching env sid h))"

definition re_resume_session ::
  "'s remote_environment \<Rightarrow> session_id
    \<Rightarrow> ('s, 's session_handle \<times> 's remote_environment) adapter_call" where
  "re_resume_session env sid =
     ask (client_get_session (re_client env)
       \<lparr> gs_environment_id = re_environment_id env, gs_session_id = sid \<rparr>)
       (\<lambda>resp. let h = session_handle_new env (si_session_id (gsr_session resp)) in
          (h, caching env sid h))"

definition re_list_sessions :: "'s remote_environment \<Rightarrow> ('s, 's session_handle list) adapter_call" where
  "re_list_sessions env =
     ask (client_list_sessions (re_client env) \<lparr> ls_environment_id = re_environment_id env \<rparr>)
       (\<lambda>resp. map (\<lambda>summary. session_handle_new env (si_session_id summary)) (lsr_sessions resp))"

definition re_terminate_session ::
  "'s remote_environment \<Rightarrow> session_id \<Rightarrow> ('s, 's remote_environment) adapter_call" where
  "re_terminate_session env sid =
     ask (client_terminate_session (re_client env)
       \<lparr> ts_environment_id = re_environment_id env, ts_session_id = sid \<rparr>)
       (\<lambda>_. env\<lparr> re_sessions := hm_remove sid (re_sessions env) \<rparr>)"

end
