(* ===== verification/AdapterProps.thy ===== *)
theory AdapterProps
  imports Adapter RpcProps WriteRead
begin

text \<open>
  The adapter over a real daemon: whatever the connection does, a result the adapter reports is a
  result of the daemon's handler.
\<close>

section \<open>Calls that reach a daemon\<close>

text \<open>
  A call procedure whose other side is a daemon, over a connection that may fail to open, refuse the
  handshake or break anywhere in either direction.
\<close>

definition daemon_rpc :: "(bytes \<Rightarrow> string) \<Rightarrow> (daemon_state \<times> world) rpc \<Rightarrow> bool" where
  "daemon_rpc b3 rpc \<longleftrightarrow>
     (\<exists>ser_req de_req ser_resp de_resp net polls accepted down fin.
        (\<forall>req. faithful ser_req de_req req) \<and> (\<forall>resp. faithful ser_resp de_resp resp) \<and>
        ln_peer net = daemon_peer b3 polls de_req ser_resp accepted down fin \<and>
        rpc = send_rpc ser_req de_resp net)"

lemma daemon_rpc_served:
  assumes "daemon_rpc b3 rpc" and "rpc req s = (Inr (Inr payload), s')"
  shows "\<exists>polls leaf. handle_as b3 polls (Some (caller_from_leaf_der b3 leaf)) req s = (Inr payload, s')"
proof -
  obtain ser_req de_req ser_resp de_resp net polls accepted down fin where
    net: "\<And>req. faithful ser_req de_req req" "\<And>resp. faithful ser_resp de_resp resp"
      "ln_peer net = daemon_peer b3 polls de_req ser_resp accepted down fin"
    and rpc: "rpc = send_rpc ser_req de_resp net"
    using assms(1) unfolding daemon_rpc_def by blast
  have "send_rpc ser_req de_resp net req s = (Inr (Inr payload), s')" using assms(2) rpc by simp
  from rpc_once [OF net this] show ?thesis
    by (fastforce simp: too_large_fallback_def split: prod.splits)
qed

lemma ask_Inr: "ask call f s = (Inr y, s') \<longleftrightarrow> (\<exists>x. call s = (Inr x, s') \<and> y = f x)"
  by (auto simp: ask_def map_sum_def split: prod.splits sum.splits)

lemma typed_call_Inr: "typed_call rpc req pick s = (Inr x, s') \<longleftrightarrow>
    (\<exists>payload. rpc req s = (Inr (Inr payload), s') \<and> pick payload = Some x)"
  by (auto simp: typed_call_def ok_or_def split: prod.splits sum.splits option.splits)

section \<open>Waiting without a limit\<close>

lemma wait_zero_rejected: "wp_timeout_secs req = 0 \<Longrightarrow> \<exists>e. wait_process pm req polls = (Inl e, pm)"
  by (simp add: wait_process_def wait_process_validate_def reject_def MIN_WAIT_TIMEOUT_SECS_def)

lemma wait_without_limit_refused:
  assumes "wp_timeout_secs req = 0"
  shows "handle_wait_process polls caller req s \<noteq> (Inr resp, s')"
proof
  assume "handle_wait_process polls caller req s = (Inr resp, s')"
  then obtain s1 where "procH (\<lambda>pm w. (case wait_process pm req polls of (r, pm') \<Rightarrow> (r, pm', w))) s1 = (Inr resp, s')"
    unfolding handle_wait_process_def bindH_Inr by blast
  then show False
    using wait_zero_rejected [OF assms, of "the (ds_proc (fst s1))" polls]
    by (cases "ds_proc (fst s1)") (auto simp: procH_def split: prod.splits)
qed

lemma wait_zero_fails:
  assumes "daemon_rpc b3 (ph_client h)" and "ph_wait h 0 = Some call"
  shows "\<exists>e. fst (call s) = Inl e"
proof -
  have "r \<noteq> Inr out" if run: "call s = (r, s')" for r s' out
  proof
    assume r: "r = Inr out"
    obtain req where call: "call = ask (client_wait_process (ph_client h) req) output_from_response"
      and zero: "wp_timeout_secs req = 0"
      using assms(2) by (auto simp: ph_wait_def split: option.splits)
    from run obtain payload where "ph_client h (WaitProcess req) s = (Inr (Inr payload), s')"
      unfolding r call ask_Inr client_wait_process_def typed_call_Inr by blast
    from daemon_rpc_served [OF assms(1) this] show False
      using wait_without_limit_refused [OF zero] by (auto simp: respond_Inr)
  qed
  then show ?thesis by (metis prod.collapse sum.exhaust)
qed

text \<open>
  Claim C25.  The two waits of the adapter that set no limit never succeed: they ask the daemon for a
  wait of zero seconds, which every daemon refuses, so whatever the process does and however long
  the caller would wait, the result is an error; and for a process started without a session id the
  call panics.
\<close>

theorem adapter_wait_without_limit_fails:
  assumes "daemon_rpc b3 (ph_client h)"
  shows "(case ph_wait_infinite h of None \<Rightarrow> ph_session_id h = None
      | Some call \<Rightarrow> \<forall>s. \<exists>e. fst (call s) = Inl e) \<and>
    (case ph_wait_with_timeout h elapsed of None \<Rightarrow> ph_session_id h = None
      | Some call \<Rightarrow> \<forall>s. \<exists>e. fst (call s) = Inl e)"
proof (cases "ph_wait h 0")
  case None
  then show ?thesis
    by (auto simp: ph_wait_infinite_def ph_wait_with_timeout_def ph_wait_def session_or_panic_def
        split: option.splits)
next
  case (Some call)
  have "\<exists>e. fst (case call s of (r, s') \<Rightarrow> (if elapsed then Inl x else r, s')) = Inl e" for s x
    using wait_zero_fails [OF assms Some, of s] by (auto split: prod.splits)
  then show ?thesis
    using wait_zero_fails [OF assms Some] Some by (simp add: ph_wait_infinite_def ph_wait_with_timeout_def)
qed

section \<open>Files\<close>

lemma write_served:
  assumes "handle_write_file b3 caller q s = (Inr resp, s')"
  shows "\<exists>fs w. ds_fs (fst s) = Some fs \<and> same_tree (snd s) w \<and> fst s' = fst s \<and>
    fs_write_file b3 fs (wf_path q) (wf_content q) (wf_overwrite q) (wf_expected_hash q) w =
      (Inr (wr_metadata resp), snd s')"
  using assms unfolding handle_write_file_def
  by (auto simp: bindH_Inr stages_Inr fsH_run looks_def dest!: rel_Inr sym [of "Inr _" "mapE _ _"])

lemma read_served:
  assumes "handle_read_file b3 caller q s = (Inr resp, s')"
  shows "\<exists>fs w. ds_fs (fst s) = Some fs \<and> same_tree (snd s) w \<and>
    fs_read_file b3 fs (rf_path q) w = (Inr (rr_content resp, rr_metadata resp), snd s')"
  using assms unfolding handle_read_file_def
  by (auto simp: bindH_Inr stages_Inr fsH_run looks_def dest!: rel_Inr sym [of "Inr _" "mapE _ _"])

lemma payload_picks:
  "(case p of WriteFileP resp \<Rightarrow> Some resp | _ \<Rightarrow> None) = Some x \<longleftrightarrow> p = WriteFileP x"
  "(case p of ReadFileP resp \<Rightarrow> Some resp | _ \<Rightarrow> None) = Some y \<longleftrightarrow> p = ReadFileP y"
  by (cases p; simp)+

lemma adapter_write_served:
  assumes "daemon_rpc b3 (re_client env)" and "re_write_file env path content s = (Inr res, s')"
  shows "\<exists>fs w md. ds_fs (fst s) = Some fs \<and> same_tree (snd s) w \<and> fst s' = fst s \<and>
    fs_write_file b3 fs path content True None w = (Inr md, snd s') \<and>
    res = write_result_of \<lparr> wr_metadata = md \<rparr>"
proof -
  let ?q = "\<lparr> wf_environment_id = re_environment_id env, wf_path = path, wf_content = content,
    wf_overwrite = True, wf_expected_hash = None \<rparr> :: write_file_request"
  obtain resp where "re_client env (WriteFile ?q) s = (Inr (Inr (WriteFileP resp)), s')"
    and res: "res = write_result_of resp"
    using assms(2)
    by (auto simp: re_write_file_def ask_Inr client_write_file_def typed_call_Inr payload_picks)
  from daemon_rpc_served [OF assms(1) this(1)] obtain caller where
    "handle_write_file b3 caller ?q s = (Inr resp, s')" by (auto simp: respond_Inr)
  from write_served [OF this] show ?thesis using res by (cases resp) auto
qed

lemma adapter_read_served:
  assumes "daemon_rpc b3 (re_client env)" and "re_read_file env path s = (Inr got, s')"
  shows "\<exists>fs w md. ds_fs (fst s) = Some fs \<and> same_tree (snd s) w \<and>
    fs_read_file b3 fs path w = (Inr (got, md), snd s')"
proof -
  let ?q = "\<lparr> rf_environment_id = re_environment_id env, rf_path = path \<rparr> :: read_file_request"
  obtain resp where "re_client env (ReadFile ?q) s = (Inr (Inr (ReadFileP resp)), s')"
    and got: "got = rr_content resp"
    using assms(2)
    by (auto simp: re_read_file_def ask_Inr client_read_file_def typed_call_Inr payload_picks)
  from daemon_rpc_served [OF assms(1) this(1)] obtain caller where
    "handle_read_file b3 caller ?q s = (Inr resp, s')" by (auto simp: respond_Inr)
  from read_served [OF this] show ?thesis using got by auto
qed


section \<open>An example\<close>

text \<open>An unbroken connection whose codecs know one request and its answer.\<close>

definition only :: "'a \<Rightarrow> 'a \<Rightarrow> string + bytes" where
  "only x y = (if y = x then Inr [1] else Inl ''unsupported'')"

lemma only_faithful: "faithful (only x) (\<lambda>_. Inr x) y"
  by (simp add: only_def faithful_def)

lemma only_carried: "carried (only x) (\<lambda>_. Inr x) x"
  by (simp add: only_def carried_def DEFAULT_MAX_PAYLOAD_def)

definition sample_net :: "(bytes \<Rightarrow> string) \<Rightarrow> rpc_request \<Rightarrow> rpc_response \<Rightarrow> (daemon_state \<times> world) link" where
  "sample_net b3 q r = \<lparr> ln_tcp = Inr (), ln_tls = Inr (), ln_up = new_writer,
     ln_peer = daemon_peer b3 [] (\<lambda>_. Inr q) (only r) (Inr (Some [[]])) new_writer None \<rparr>"

definition sample_rpc :: "(bytes \<Rightarrow> string) \<Rightarrow> rpc_request \<Rightarrow> rpc_response \<Rightarrow> (daemon_state \<times> world) rpc" where
  "sample_rpc b3 q r = send_rpc (only q) (\<lambda>_. Inr r) (sample_net b3 q r)"

lemma sample_rpc_daemon: "daemon_rpc b3 (sample_rpc b3 q r)"
proof -
  have "ln_peer (sample_net b3 q r) =
    daemon_peer b3 [] (\<lambda>_. Inr q) (only r) (Inr (Some [[]])) new_writer None"
    by (simp add: sample_net_def)
  with only_faithful [of q] only_faithful [of r] show ?thesis
    unfolding daemon_rpc_def sample_rpc_def by blast
qed

lemma sample_rpc_answer:
  assumes "handle_as b3 [] (Some (caller_from_leaf_der b3 [])) q s = (r, s')"
  shows "sample_rpc b3 q r q s = (Inr r, s')"
  unfolding sample_rpc_def
  by (rule rpc_carried [OF only_carried _ _ _ _ _ assms only_carried])
    (simp_all add: sample_net_def new_writer_open)

definition open_daemon :: daemon_state where
  "open_daemon = sample_daemon\<lparr> ds_grants := None \<rparr>"

definition sample_agent :: "rpc_request \<Rightarrow> rpc_response \<Rightarrow> (daemon_state \<times> world) remote_environment" where
  "sample_agent q r = re_new_unchecked (sample_rpc (\<lambda>_. ''bob'') q r) sample_env cs_empty"

definition ask_write :: rpc_request where
  "ask_write = WriteFile \<lparr> wf_environment_id = sample_env, wf_path = ''b'', wf_content = [5],
     wf_overwrite = True, wf_expected_hash = None \<rparr>"

definition ask_read :: rpc_request where
  "ask_read = ReadFile \<lparr> rf_environment_id = sample_env, rf_path = ''b'' \<rparr>"

theorem adapter_wait_without_limit_fails_witness:
  "\<exists>call e. ph_wait_infinite \<lparr> ph_client = sample_rpc (\<lambda>_. ''bob'') ask_read (Inl unknown_principal),
       ph_environment_id = sample_env, ph_process_id = sample_pid, ph_session_id = Some sample_sid \<rparr> = Some call \<and>
     fst (call (open_daemon, sample_world)) = Inl e"
proof -
  let ?h = "\<lparr> ph_client = sample_rpc (\<lambda>_. ''bob'') ask_read (Inl unknown_principal),
       ph_environment_id = sample_env, ph_process_id = sample_pid, ph_session_id = Some sample_sid \<rparr>"
  show ?thesis
    using adapter_wait_without_limit_fails [of "\<lambda>_. ''bob''" ?h False] sample_rpc_daemon
    by (auto split: option.splits)
qed

lemma sample_agent_writes:
  assumes "handle_as (\<lambda>_. ''bob'') [] (Some (caller_from_leaf_der (\<lambda>_. ''bob'') [])) ask_write s =
    (Inr (WriteFileP resp), s')"
  shows "re_write_file (sample_agent ask_write (Inr (WriteFileP resp))) ''b'' [5] s =
    (Inr (write_result_of resp), s')"
proof -
  have "sample_rpc (\<lambda>_. ''bob'') (WriteFile \<lparr> wf_environment_id = sample_env, wf_path = ''b'', wf_content = [5],
      wf_overwrite = True, wf_expected_hash = None \<rparr>) (Inr (WriteFileP resp))
    (WriteFile \<lparr> wf_environment_id = sample_env, wf_path = ''b'', wf_content = [5],
      wf_overwrite = True, wf_expected_hash = None \<rparr>) s = (Inr (Inr (WriteFileP resp)), s')"
    using sample_rpc_answer [OF assms] unfolding ask_write_def .
  then show ?thesis
    by (simp add: sample_agent_def re_new_unchecked_def re_write_file_def ask_def client_write_file_def
        typed_call_def ask_write_def ok_or_def)
qed

lemma sample_agent_reads:
  assumes "handle_as (\<lambda>_. ''bob'') [] (Some (caller_from_leaf_der (\<lambda>_. ''bob'') [])) ask_read s =
    (Inr (ReadFileP resp), s')"
  shows "re_read_file (sample_agent ask_read (Inr (ReadFileP resp))) ''b'' s = (Inr (rr_content resp), s')"
proof -
  have "sample_rpc (\<lambda>_. ''bob'') (ReadFile \<lparr> rf_environment_id = sample_env, rf_path = ''b'' \<rparr>) (Inr (ReadFileP resp))
    (ReadFile \<lparr> rf_environment_id = sample_env, rf_path = ''b'' \<rparr>) s = (Inr (Inr (ReadFileP resp)), s')"
    using sample_rpc_answer [OF assms] unfolding ask_read_def .
  then show ?thesis
    by (simp add: sample_agent_def re_new_unchecked_def re_read_file_def ask_def client_read_file_def
        typed_call_def ask_read_def ok_or_def)
qed


end
