(* ===== verification/Cli.thy ===== *)
theory Cli
  imports Rpc "HOL-Library.List_Lexorder" "HOL-Library.Char_ord"
begin

text \<open>
  \<open>are-cli/src/main.rs\<close>: the command-line client.  A command is a value of the type the argument
  parser produces; running one yields what is written to the standard streams, the exit code, and
  the state of the other side after the at most one call the command makes.  The argument parser
  (clap), the logging set-up and a failing \<open>println!\<close> (which panics) are not modelled.
\<close>

section \<open>Running a command\<close>

text \<open>
  What the process meets: the client for a set of connection options, the local files a command
  names, standard input, the outcome of the raw writes to the standard streams, the iteration order
  of a capability set, the text of a timestamp and of an I/O error, the first certificate of a PEM
  file, and BLAKE3.
\<close>

record 's cli_host =
  ch_client :: "string \<Rightarrow> string \<Rightarrow> string \<Rightarrow> string \<Rightarrow> string \<Rightarrow> connection_error + 's rpc"
  ch_stat :: "string \<Rightarrow> string + nat"
  ch_read :: "string \<Rightarrow> string + bytes"
  ch_stdin :: byte_reader
  ch_stdout_error :: "string option"
  ch_stderr_error :: "string option"
  ch_cap_order :: "capability_set \<Rightarrow> capability list"
  ch_debug_time :: "nat \<Rightarrow> string"
  ch_show_io :: "stream_error \<Rightarrow> string"
  ch_first_cert :: "bytes \<Rightarrow> bytes option"
  ch_blake3 :: "bytes \<Rightarrow> string"

datatype chunk = OutText string | OutRaw bytes | ErrText string | ErrRaw bytes

text \<open>A step writes chunks and either exits with a code or goes on with a value.\<close>

type_synonym ('s, 'a) cli = "'s \<Rightarrow> chunk list \<times> (nat + 'a) \<times> 's"

definition pureC :: "'a \<Rightarrow> ('s, 'a) cli" where
  "pureC x s = ([], Inr x, s)"

definition bindC :: "('s, 'a) cli \<Rightarrow> ('a \<Rightarrow> ('s, 'b) cli) \<Rightarrow> ('s, 'b) cli" where
  "bindC m f s =
     (case m s of
        (out, Inl code, s') \<Rightarrow> (out, Inl code, s')
      | (out, Inr x, s') \<Rightarrow> (case f x s' of (out', r, s'') \<Rightarrow> (out @ out', r, s'')))"

definition writeC :: "chunk \<Rightarrow> ('s, unit) cli" where
  "writeC c s = ([c], Inr (), s)"

definition newline :: string where
  "newline = [CHR 0x0A]"

definition print :: "string \<Rightarrow> ('s, unit) cli" where
  "print text = writeC (OutText text)"

definition println :: "string \<Rightarrow> ('s, unit) cli" where
  "println line = writeC (OutText (line @ newline))"

definition eprintln :: "string \<Rightarrow> ('s, unit) cli" where
  "eprintln line = writeC (ErrText (line @ newline))"

definition exit_with :: "nat \<Rightarrow> ('s, 'a) cli" where
  "exit_with code s = ([], Inl code, s)"

text \<open>\<open>eprintln!\<close> of a message followed by \<open>exit(1)\<close>, for a \<open>Result\<close> that is an error.\<close>

definition die :: "string \<Rightarrow> ('s, 'a) cli" where
  "die message = bindC (eprintln message) (\<lambda>_. exit_with 1)"

definition or_die :: "('e \<Rightarrow> string) \<Rightarrow> 'e + 'a \<Rightarrow> ('s, 'a) cli" where
  "or_die message r = (case r of Inl e \<Rightarrow> die (message e) | Inr x \<Rightarrow> pureC x)"

fun println_all :: "string list \<Rightarrow> ('s, unit) cli" where
  "println_all [] = pureC ()"
| "println_all (line # lines) = bindC (println line) (\<lambda>_. println_all lines)"

section \<open>Arguments\<close>

record sess_conn =
  cn_addr :: string
  cn_cert :: string
  cn_key :: string
  cn_ca :: string
  cn_server_name :: string
  cn_env_id :: string

record proc_conn = sess_conn +
  cn_session :: string

text \<open>The variants of \<open>Connect\<close>, \<open>Doctor\<close> and \<open>Fs\<close> repeat the fields of \<open>SessConn\<close>.\<close>

datatype fs_action =
    FsRead sess_conn string
  | FsList sess_conn string
  | FsMetadata sess_conn string
  | FsWrite sess_conn string (fw_content: "string option") (fw_from_file: "string option")
      (fw_expect_hash: "string option") (fw_no_overwrite: bool)
  | FsMkdir sess_conn string
  | FsMv sess_conn string string
  | FsRm sess_conn string

datatype proc_action =
    ProcRun proc_conn string "string list" string "string list"
  | ProcStatus proc_conn string
  | ProcWait proc_conn string nat
  | ProcKill proc_conn string bool

datatype sess_action =
    SessCreate sess_conn string "string list"
  | SessShow sess_conn string
  | SessList sess_conn
  | SessRm sess_conn string

datatype env_action = EnvList | EnvAdd string | EnvRemove string

datatype cli_command =
    Connect sess_conn
  | Doctor sess_conn
  | Fs fs_action
  | Proc proc_action
  | Sess sess_action
  | Env env_action
  | Fingerprint string

definition parse_env_id :: "string \<Rightarrow> ('s, environment_id) cli" where
  "parse_env_id i = or_die (\<lambda>e. ''error: invalid environment_id: '' @ core_error_display e)
     (environment_id_try_new i)"

definition parse_process_id :: "string \<Rightarrow> ('s, process_id) cli" where
  "parse_process_id i = or_die (\<lambda>e. ''error: invalid process id: '' @ core_error_display e)
     (process_id_try_new i)"

definition parse_session_id :: "string \<Rightarrow> ('s, session_id) cli" where
  "parse_session_id i = or_die (\<lambda>e. ''error: invalid session id: '' @ core_error_display e)
     (session_id_try_new i)"

definition client_for :: "'s cli_host \<Rightarrow> 'a sess_conn_scheme \<Rightarrow> connection_error + 's rpc" where
  "client_for host conn =
     ch_client host (cn_cert conn) (cn_key conn) (cn_ca conn) (cn_addr conn) (cn_server_name conn)"

definition make_client :: "'s cli_host \<Rightarrow> 'a sess_conn_scheme \<Rightarrow> ('s, 's rpc) cli" where
  "make_client host conn =
     or_die (\<lambda>e. ''error: failed to configure TLS: '' @ connection_error_display (ch_show_io host) e)
       (client_for host conn)"

section \<open>Values of options\<close>

definition MAX_CLI_CONTENT_BYTES :: nat where
  "MAX_CLI_CONTENT_BYTES = 16 * 1024 * 1024"

text \<open>\<open>stdin().take(limit).read_to_end\<close>: a failure after the limit is not met.\<close>

definition read_stdin_capped :: "'s cli_host \<Rightarrow> string + bytes" where
  "read_stdin_capped host =
     (let input = ch_stdin host; limit = MAX_CLI_CONTENT_BYTES + 1 in
      if limit \<le> length (rd_data input) then Inr (take limit (rd_data input))
      else (case rd_end input of
              None \<Rightarrow> Inr (rd_data input)
            | Some e \<Rightarrow> Inl (''error: failed to read stdin: '' @ e)))"

definition split_once :: "char \<Rightarrow> string \<Rightarrow> (string \<times> string) option" where
  "split_once c s =
     (if c \<in> set s then Some (takeWhile (\<lambda>x. x \<noteq> c) s, tl (dropWhile (\<lambda>x. x \<noteq> c) s)) else None)"

fun env_vars_loop :: "string list \<Rightarrow> env_map \<Rightarrow> string + env_map" where
  "env_vars_loop [] env_vars = Inr env_vars"
| "env_vars_loop (kv # rest) env_vars =
     (case split_once (CHR ''='') kv of
        Some (k, v) \<Rightarrow>
          if k \<noteq> [] then env_vars_loop rest (hm_insert k v env_vars)
          else Inl (''error: invalid --env value '' @ debug_str kv @ '' (expected KEY=VAL)'')
      | None \<Rightarrow> Inl (''error: invalid --env value '' @ debug_str kv @ '' (expected KEY=VAL)''))"

definition parse_env_vars :: "string list \<Rightarrow> ('s, env_map) cli" where
  "parse_env_vars env = or_die id (env_vars_loop env [])"

definition normalize_expect_hash :: "string \<Rightarrow> string option" where
  "normalize_expect_hash input =
     (let raw = (case strip_prefix ''blake3:'' input of None \<Rightarrow> input | Some rest \<Rightarrow> rest);
          hex = to_ascii_lowercase raw in
      if is_valid_hash hex then Some hex else None)"

definition into_bytes :: "string \<Rightarrow> bytes" where
  "into_bytes text = map of_char text"

definition from_file_content :: "'s cli_host \<Rightarrow> string \<Rightarrow> string + bytes" where
  "from_file_content host path =
     (case ch_stat host path of
        Inl e \<Rightarrow> Inl (''error: failed to stat --from-file '' @ path @ '': '' @ e)
      | Inr sz \<Rightarrow>
          if sz > MAX_CLI_CONTENT_BYTES
          then Inl (''error: --from-file '' @ path @ '' is '' @ nat_str sz @ '' bytes, exceeds ''
            @ nat_str MAX_CLI_CONTENT_BYTES @ ''-byte cap'')
          else mapE (\<lambda>e. ''error: failed to read --from-file '' @ path @ '': '' @ e) (ch_read host path))"

definition write_content :: "'s cli_host \<Rightarrow> string option \<Rightarrow> string option \<Rightarrow> string + bytes" where
  "write_content host content from_file =
     bindE (case (content, from_file) of
              (Some text, None) \<Rightarrow> Inr (into_bytes text)
            | (None, Some path) \<Rightarrow> from_file_content host path
            | (None, None) \<Rightarrow> read_stdin_capped host
            | (Some _, Some _) \<Rightarrow> Inl ''error: --content and --from-file are mutually exclusive'')
       (\<lambda>bytes.
          if length bytes > MAX_CLI_CONTENT_BYTES
          then Inl (''error: content is '' @ nat_str (length bytes) @ '' bytes, exceeds ''
            @ nat_str MAX_CLI_CONTENT_BYTES @ ''-byte cap'')
          else Inr bytes)"

definition expect_hash_option :: "string option \<Rightarrow> string + string option" where
  "expect_hash_option given =
     (case given of
        None \<Rightarrow> Inr None
      | Some h \<Rightarrow>
          (case normalize_expect_hash h of
             None \<Rightarrow> Inl ''error: --expect-hash must be 64 hex chars''
           | Some normalized \<Rightarrow> Inr (Some normalized)))"

section \<open>Text\<close>

definition int_str :: "int \<Rightarrow> string" where
  "int_str i = (if i < 0 then ''-'' @ nat_str (nat (- i)) else nat_str (nat i))"

definition bool_str :: "bool \<Rightarrow> string" where
  "bool_str b = (if b then ''true'' else ''false'')"

text \<open>\<open>{:>8}\<close> and \<open>{:?}\<close>.\<close>

definition pad_left :: "nat \<Rightarrow> string \<Rightarrow> string" where
  "pad_left n s = replicate (n - length s) (CHR '' '') @ s"

definition exit_code_debug :: "int option \<Rightarrow> string" where
  "exit_code_debug c = (case c of None \<Rightarrow> ''None'' | Some i \<Rightarrow> ''Some('' @ int_str i @ '')'')"

fun process_state_debug :: "process_state \<Rightarrow> string" where
  "process_state_debug Running = ''Running''"
| "process_state_debug (Exited code) = ''Exited { code: '' @ int_str code @ '' }''"
| "process_state_debug (Failed message) = ''Failed { message: '' @ debug_str message @ '' }''"

text \<open>One remote call: an error is reported and the process exits.\<close>

definition call_or_die :: "(connection_error \<Rightarrow> string) \<Rightarrow> ('s, 'a) client_call \<Rightarrow> ('s, 'a) cli" where
  "call_or_die show_err call s =
     (case call s of
        (Inl e, s') \<Rightarrow> die (''error: '' @ show_err e) s'
      | (Inr x, s') \<Rightarrow> pureC x s')"

text \<open>Raw bytes to a standard stream; \<open>what\<close> is the message when that fails.\<close>

definition write_stdout :: "'s cli_host \<Rightarrow> string \<Rightarrow> bytes \<Rightarrow> ('s, unit) cli" where
  "write_stdout host what bytes =
     (case ch_stdout_error host of
        None \<Rightarrow> writeC (OutRaw bytes)
      | Some e \<Rightarrow> die (what @ e))"

definition write_stderr :: "'s cli_host \<Rightarrow> string \<Rightarrow> bytes \<Rightarrow> ('s, unit) cli" where
  "write_stderr host what bytes =
     (case ch_stderr_error host of
        None \<Rightarrow> writeC (ErrRaw bytes)
      | Some e \<Rightarrow> die (what @ e))"

section \<open>Commands that describe the environment\<close>

definition ask_daemon :: "'s cli_host \<Rightarrow> ('s, 'a) client_call \<Rightarrow> ('s, 'a) cli" where
  "ask_daemon host call = call_or_die (connection_error_display (ch_show_io host)) call"

definition capability_lines :: "'s cli_host \<Rightarrow> capability_set \<Rightarrow> string list" where
  "capability_lines host caps = map (\<lambda>c. ''    - '' @ capability_as_str c) (ch_cap_order host caps)"

definition run_connect :: "'s cli_host \<Rightarrow> sess_conn \<Rightarrow> ('s, unit) cli" where
  "run_connect host conn =
     bindC (parse_env_id (cn_env_id conn)) (\<lambda>env.
     bindC (make_client host conn) (\<lambda>client.
     bindC (ask_daemon host (client_get_environment_info client env)) (\<lambda>info.
     println_all
       ([''Environment: '' @ env_str (gir_environment_id info),
         ''  Machine:   '' @ gir_machine_name info,
         ''  OS:        '' @ gir_operating_system info,
         ''  Platform:  '' @ platform_display (gir_platform info),
         ''  Version:   '' @ gir_daemon_version info,
         ''  Capabilities:''] @ capability_lines host (gir_advertised_capabilities info)))))"

definition CARGO_PKG_VERSION :: string where
  "CARGO_PKG_VERSION = ''0.1.0''"

text \<open>The checks of \<open>doctor\<close> report to standard output: \<open>FAIL\<close> with the error, and exit code 1.\<close>

definition fail_line :: "string \<Rightarrow> ('s, 'a) cli" where
  "fail_line e = bindC (println (''FAIL ('' @ e @ '')'')) (\<lambda>_. exit_with 1)"

definition run_doctor :: "'s cli_host \<Rightarrow> sess_conn \<Rightarrow> ('s, unit) cli" where
  "run_doctor host conn =
     bindC (or_die (\<lambda>e. ''FAIL: invalid environment_id: '' @ core_error_display e)
              (environment_id_try_new (cn_env_id conn))) (\<lambda>env.
     bindC (println_all [''ARE Doctor v'' @ CARGO_PKG_VERSION, []]) (\<lambda>_.
     bindC (print ''  TLS configuration ... '') (\<lambda>_.
     case client_for host conn of
       Inl e \<Rightarrow> fail_line (connection_error_display (ch_show_io host) e)
     | Inr client \<Rightarrow>
         bindC (println ''ok'') (\<lambda>_.
         bindC (print ''  Daemon reachable ... '') (\<lambda>_.
         bindC (\<lambda>s. case client_get_environment_info client env s of
                  (Inl e, s') \<Rightarrow> fail_line (connection_error_display (ch_show_io host) e) s'
                | (Inr info, s') \<Rightarrow> pureC info s') (\<lambda>info.
         println_all
           ([''ok'', [],
             ''  Environment: '' @ env_str (gir_environment_id info),
             ''  Machine:     '' @ gir_machine_name info,
             ''  Platform:    '' @ platform_display (gir_platform info),
             ''  Version:     '' @ gir_daemon_version info,
             (case gir_caller_fingerprint info of
                Some fp \<Rightarrow> ''  Caller:      '' @ fp
              | None \<Rightarrow> ''  Caller:      <unknown (pre-Gate-8 daemon)>''),
             ''  Capabilities:''] @ capability_lines host (gir_advertised_capabilities info)
            @ [[], ''All checks passed.''])))))))"

section \<open>File commands\<close>

definition run_fs_read :: "'s cli_host \<Rightarrow> sess_conn \<Rightarrow> string \<Rightarrow> ('s, unit) cli" where
  "run_fs_read host conn path =
     bindC (parse_env_id (cn_env_id conn)) (\<lambda>env.
     bindC (make_client host conn) (\<lambda>client.
     bindC (ask_daemon host (client_read_file client \<lparr> rf_environment_id = env, rf_path = path \<rparr>)) (\<lambda>resp.
     write_stdout host ''error: failed to write to stdout: '' (rr_content resp))))"

definition list_line :: "directory_entry \<Rightarrow> string" where
  "list_line entry =
     (if fm_is_dir (de_metadata entry) then ''d'' else if fm_is_file (de_metadata entry) then ''-'' else ''?'')
       @ '' '' @ pad_left 8 (nat_str (fm_size (de_metadata entry))) @ '' '' @ de_path entry"

definition run_fs_list :: "'s cli_host \<Rightarrow> sess_conn \<Rightarrow> string \<Rightarrow> ('s, unit) cli" where
  "run_fs_list host conn path =
     bindC (parse_env_id (cn_env_id conn)) (\<lambda>env.
     bindC (make_client host conn) (\<lambda>client.
     bindC (ask_daemon host (client_list_directory client \<lparr> ld_environment_id = env, ld_path = path \<rparr>)) (\<lambda>resp.
     println_all (map list_line (ldr_entries resp)))))"

definition run_fs_metadata :: "'s cli_host \<Rightarrow> sess_conn \<Rightarrow> string \<Rightarrow> ('s, unit) cli" where
  "run_fs_metadata host conn path =
     bindC (parse_env_id (cn_env_id conn)) (\<lambda>env.
     bindC (make_client host conn) (\<lambda>client.
     bindC (ask_daemon host (client_file_metadata client \<lparr> gm_environment_id = env, gm_path = path \<rparr>)) (\<lambda>resp.
     let meta = gmr_metadata resp in
     println_all
       ([''Size:     '' @ nat_str (fm_size meta) @ '' bytes'',
         ''Is file:  '' @ bool_str (fm_is_file meta),
         ''Is dir:   '' @ bool_str (fm_is_dir meta)]
        @ (case fm_modified_at meta of None \<Rightarrow> [] | Some t \<Rightarrow> [''Modified: '' @ ch_debug_time host t])
        @ (case fm_hash meta of None \<Rightarrow> [] | Some h \<Rightarrow> [''Hash:     blake3:'' @ h])))))"

definition hash_lines :: "file_metadata \<Rightarrow> string list" where
  "hash_lines meta = (case fm_hash meta of None \<Rightarrow> [] | Some h \<Rightarrow> [''Hash: blake3:'' @ h])"

definition run_fs_write ::
  "'s cli_host \<Rightarrow> sess_conn \<Rightarrow> string \<Rightarrow> string option \<Rightarrow> string option \<Rightarrow> string option \<Rightarrow> bool
    \<Rightarrow> ('s, unit) cli" where
  "run_fs_write host conn path content from_file expect_hash no_overwrite =
     bindC (parse_env_id (cn_env_id conn)) (\<lambda>env.
     bindC (or_die id (write_content host content from_file)) (\<lambda>bytes.
     bindC (or_die id (expect_hash_option expect_hash)) (\<lambda>expected.
     bindC (make_client host conn) (\<lambda>client.
     bindC (ask_daemon host (client_write_file client
              \<lparr> wf_environment_id = env, wf_path = path, wf_content = bytes,
                wf_overwrite = (\<not> no_overwrite), wf_expected_hash = expected \<rparr>)) (\<lambda>resp.
     println_all ([''Wrote '' @ nat_str (fm_size (wr_metadata resp)) @ '' bytes'']
       @ hash_lines (wr_metadata resp)))))))"

definition run_fs_mkdir :: "'s cli_host \<Rightarrow> sess_conn \<Rightarrow> string \<Rightarrow> ('s, unit) cli" where
  "run_fs_mkdir host conn path =
     bindC (parse_env_id (cn_env_id conn)) (\<lambda>env.
     bindC (make_client host conn) (\<lambda>client.
     bindC (ask_daemon host (client_create_directory client \<lparr> cd_environment_id = env, cd_path = path \<rparr>)) (\<lambda>_.
     println ''Created directory'')))"

definition run_fs_mv :: "'s cli_host \<Rightarrow> sess_conn \<Rightarrow> string \<Rightarrow> string \<Rightarrow> ('s, unit) cli" where
  "run_fs_mv host conn src dst =
     bindC (parse_env_id (cn_env_id conn)) (\<lambda>env.
     bindC (make_client host conn) (\<lambda>client.
     bindC (ask_daemon host (client_rename client
              \<lparr> rn_environment_id = env, rn_src = src, rn_dst = dst \<rparr>)) (\<lambda>resp.
     println_all ([''Renamed ('' @ nat_str (fm_size (rnr_metadata resp)) @ '' bytes)'']
       @ hash_lines (rnr_metadata resp)))))"

definition run_fs_rm :: "'s cli_host \<Rightarrow> sess_conn \<Rightarrow> string \<Rightarrow> ('s, unit) cli" where
  "run_fs_rm host conn path =
     bindC (parse_env_id (cn_env_id conn)) (\<lambda>env.
     bindC (make_client host conn) (\<lambda>client.
     bindC (ask_daemon host (client_delete_file client \<lparr> dl_environment_id = env, dl_path = path \<rparr>)) (\<lambda>_.
     println ''Deleted'')))"

fun run_fs :: "'s cli_host \<Rightarrow> fs_action \<Rightarrow> ('s, unit) cli" where
  "run_fs host (FsRead conn path) = run_fs_read host conn path"
| "run_fs host (FsList conn path) = run_fs_list host conn path"
| "run_fs host (FsMetadata conn path) = run_fs_metadata host conn path"
| "run_fs host (FsWrite conn path content from_file expect_hash no_overwrite) =
     run_fs_write host conn path content from_file expect_hash no_overwrite"
| "run_fs host (FsMkdir conn path) = run_fs_mkdir host conn path"
| "run_fs host (FsMv conn src dst) = run_fs_mv host conn src dst"
| "run_fs host (FsRm conn path) = run_fs_rm host conn path"

section \<open>Process commands\<close>

definition run_proc_run ::
  "'s cli_host \<Rightarrow> proc_conn \<Rightarrow> string \<Rightarrow> string list \<Rightarrow> string \<Rightarrow> string list \<Rightarrow> ('s, unit) cli" where
  "run_proc_run host conn program args workdir env =
     bindC (parse_env_id (cn_env_id conn)) (\<lambda>env_id.
     bindC (parse_session_id (cn_session conn)) (\<lambda>session_id.
     bindC (make_client host conn) (\<lambda>client.
     bindC (parse_env_vars env) (\<lambda>env_vars.
     bindC (ask_daemon host (client_execute client
              \<lparr> ex_environment_id = env_id, ex_session_id = session_id, ex_program = program,
                ex_args = args, ex_working_directory = workdir, ex_env_vars = env_vars \<rparr>)) (\<lambda>resp.
     println (proc_str (exr_process_id resp)))))))"

definition run_proc_status :: "'s cli_host \<Rightarrow> proc_conn \<Rightarrow> string \<Rightarrow> ('s, unit) cli" where
  "run_proc_status host conn i =
     bindC (parse_env_id (cn_env_id conn)) (\<lambda>env_id.
     bindC (parse_session_id (cn_session conn)) (\<lambda>session_id.
     bindC (parse_process_id i) (\<lambda>pid.
     bindC (make_client host conn) (\<lambda>client.
     bindC (ask_daemon host (client_process_status client
              \<lparr> ps_environment_id = env_id, ps_session_id = session_id, ps_process_id = pid \<rparr>)) (\<lambda>resp.
     println (process_state_debug (psr_state resp)))))))"

definition run_proc_wait :: "'s cli_host \<Rightarrow> proc_conn \<Rightarrow> string \<Rightarrow> nat \<Rightarrow> ('s, unit) cli" where
  "run_proc_wait host conn i timeout =
     bindC (parse_env_id (cn_env_id conn)) (\<lambda>env_id.
     bindC (parse_session_id (cn_session conn)) (\<lambda>session_id.
     bindC (parse_process_id i) (\<lambda>pid.
     bindC (make_client host conn) (\<lambda>client.
     bindC (ask_daemon host (client_wait_process client
              \<lparr> wp_environment_id = env_id, wp_session_id = session_id, wp_process_id = pid,
                wp_timeout_secs = timeout \<rparr>)) (\<lambda>resp.
     bindC (println_all
              [''exit_code: '' @ exit_code_debug (wpr_exit_code resp),
               ''timed_out: '' @ bool_str (wpr_timed_out resp),
               ''truncated: '' @ bool_str (wpr_truncated resp)]) (\<lambda>_.
     bindC (write_stdout host ''error: failed to write stdout: '' (wpr_stdout resp)) (\<lambda>_.
     if wpr_stderr resp = [] then pureC ()
     else bindC (eprintln ''--- stderr ---'') (\<lambda>_.
       write_stderr host ''error: failed to write stderr: '' (wpr_stderr resp)))))))))"

definition run_proc_kill :: "'s cli_host \<Rightarrow> proc_conn \<Rightarrow> string \<Rightarrow> bool \<Rightarrow> ('s, unit) cli" where
  "run_proc_kill host conn i force =
     bindC (parse_env_id (cn_env_id conn)) (\<lambda>env_id.
     bindC (parse_session_id (cn_session conn)) (\<lambda>session_id.
     bindC (parse_process_id i) (\<lambda>pid.
     bindC (make_client host conn) (\<lambda>client.
     bindC (ask_daemon host (client_terminate_process client
              \<lparr> tp_environment_id = env_id, tp_session_id = session_id, tp_process_id = pid,
                tp_force = force \<rparr>)) (\<lambda>resp.
     println (''terminated: '' @ bool_str (tpr_terminated resp)))))))"

fun run_proc :: "'s cli_host \<Rightarrow> proc_action \<Rightarrow> ('s, unit) cli" where
  "run_proc host (ProcRun conn program args workdir env) = run_proc_run host conn program args workdir env"
| "run_proc host (ProcStatus conn i) = run_proc_status host conn i"
| "run_proc host (ProcWait conn i timeout) = run_proc_wait host conn i timeout"
| "run_proc host (ProcKill conn i force) = run_proc_kill host conn i force"

section \<open>Session commands\<close>

definition run_sess_create :: "'s cli_host \<Rightarrow> sess_conn \<Rightarrow> string \<Rightarrow> string list \<Rightarrow> ('s, unit) cli" where
  "run_sess_create host conn workdir env =
     bindC (parse_env_id (cn_env_id conn)) (\<lambda>env_id.
     bindC (make_client host conn) (\<lambda>client.
     bindC (parse_env_vars env) (\<lambda>env_vars.
     bindC (ask_daemon host (client_create_session client
              \<lparr> cs_environment_id = env_id, cs_working_directory = Some workdir, cs_env_vars = env_vars \<rparr>)) (\<lambda>resp.
     println (sess_str (si_session_id (csr_session resp)))))))"

definition session_lines :: "session_info \<Rightarrow> string list" where
  "session_lines s =
     [''session: '' @ sess_str (si_session_id s),
      ''  environment: '' @ env_str (si_environment_id s),
      ''  workdir:     '' @ si_working_directory s,
      ''  created:     '' @ nat_str (si_created_at s),
      ''  last-active: '' @ nat_str (si_last_activity s),
      ''  env:'']
     @ map (\<lambda>k. ''    '' @ k @ ''='' @ (case hm_get (si_env_vars s) k of None \<Rightarrow> [] | Some v \<Rightarrow> v))
         (sort (map fst (si_env_vars s)))"

definition run_sess_show :: "'s cli_host \<Rightarrow> sess_conn \<Rightarrow> string \<Rightarrow> ('s, unit) cli" where
  "run_sess_show host conn i =
     bindC (parse_session_id i) (\<lambda>session_id.
     bindC (parse_env_id (cn_env_id conn)) (\<lambda>env_id.
     bindC (make_client host conn) (\<lambda>client.
     bindC (ask_daemon host (client_get_session client
              \<lparr> gs_environment_id = env_id, gs_session_id = session_id \<rparr>)) (\<lambda>resp.
     println_all (session_lines (gsr_session resp))))))"

definition session_line :: "session_info \<Rightarrow> string" where
  "session_line s = sess_str (si_session_id s) @ ''  workdir='' @ si_working_directory s
     @ ''  env_vars='' @ nat_str (length (si_env_vars s)) @ ''  created='' @ nat_str (si_created_at s)
     @ ''  last-active='' @ nat_str (si_last_activity s)"

definition run_sess_list :: "'s cli_host \<Rightarrow> sess_conn \<Rightarrow> ('s, unit) cli" where
  "run_sess_list host conn =
     bindC (parse_env_id (cn_env_id conn)) (\<lambda>env_id.
     bindC (make_client host conn) (\<lambda>client.
     bindC (ask_daemon host (client_list_sessions client \<lparr> ls_environment_id = env_id \<rparr>)) (\<lambda>resp.
     println_all (map session_line (lsr_sessions resp)))))"

definition run_sess_rm :: "'s cli_host \<Rightarrow> sess_conn \<Rightarrow> string \<Rightarrow> ('s, unit) cli" where
  "run_sess_rm host conn i =
     bindC (parse_session_id i) (\<lambda>session_id.
     bindC (parse_env_id (cn_env_id conn)) (\<lambda>env_id.
     bindC (make_client host conn) (\<lambda>client.
     bindC (ask_daemon host (client_terminate_session client
              \<lparr> ts_environment_id = env_id, ts_session_id = session_id \<rparr>)) (\<lambda>resp.
     println (''terminated session ('' @ nat_str (tsr_terminated_processes resp) @ '' processes reaped)'')))))"

fun run_sess :: "'s cli_host \<Rightarrow> sess_action \<Rightarrow> ('s, unit) cli" where
  "run_sess host (SessCreate conn workdir env) = run_sess_create host conn workdir env"
| "run_sess host (SessShow conn i) = run_sess_show host conn i"
| "run_sess host (SessList conn) = run_sess_list host conn"
| "run_sess host (SessRm conn i) = run_sess_rm host conn i"

section \<open>Commands without a daemon, and the dispatch\<close>

fun run_env :: "env_action \<Rightarrow> ('s, unit) cli" where
  "run_env EnvList = println ''env list: no environments configured yet''"
| "run_env (EnvAdd name) = println (''env add: '' @ name @ '' (stub)'')"
| "run_env (EnvRemove name) = println (''env remove: '' @ name @ '' (stub)'')"

definition run_fingerprint :: "'s cli_host \<Rightarrow> string \<Rightarrow> ('s, unit) cli" where
  "run_fingerprint host cert =
     bindC (or_die (\<lambda>e. ''error: failed to read '' @ cert @ '': '' @ e) (ch_read host cert)) (\<lambda>data.
     case ch_first_cert host data of
       Some der \<Rightarrow> println (''blake3:'' @ ch_blake3 host der)
     | None \<Rightarrow> die (''error: no certificate found in '' @ cert))"

fun run_command :: "'s cli_host \<Rightarrow> cli_command \<Rightarrow> ('s, unit) cli" where
  "run_command host (Connect conn) = run_connect host conn"
| "run_command host (Doctor conn) = run_doctor host conn"
| "run_command host (Fs action) = run_fs host action"
| "run_command host (Proc action) = run_proc host action"
| "run_command host (Sess action) = run_sess host action"
| "run_command host (Env action) = run_env action"
| "run_command host (Fingerprint cert) = run_fingerprint host cert"

text \<open>The process: what it writes, its exit code, and the other side afterwards.\<close>

definition cli_main :: "'s cli_host \<Rightarrow> cli_command \<Rightarrow> 's \<Rightarrow> chunk list \<times> nat \<times> 's" where
  "cli_main host command s =
     (case run_command host command s of
        (out, r, s') \<Rightarrow> (out, (case r of Inl code \<Rightarrow> code | Inr _ \<Rightarrow> 0), s'))"

end
