(* ===== verification/CliProps.thy ===== *)
theory CliProps
  imports Cli AdapterProps
begin

text \<open>
  What the exit code of the command-line client means: which request a command stands for, that it
  is sent at most once and only when every argument is valid, and what this means for the files of
  a daemon behind the connection.
\<close>

section \<open>Steps\<close>

lemma pureC_run [simp]: "pureC x s = ([], Inr x, s)"
  by (simp add: pureC_def)

lemma writeC_run [simp]: "writeC c s = ([c], Inr (), s)"
  by (simp add: writeC_def)

lemma printing_run [simp]:
  "print t s = ([OutText t], Inr (), s)"
  "println t s = ([OutText (t @ newline)], Inr (), s)"
  "eprintln t s = ([ErrText (t @ newline)], Inr (), s)"
  by (simp_all add: print_def println_def eprintln_def)

lemma die_run [simp]: "die t s = ([ErrText (t @ newline)], Inl 1, s)"
  by (simp add: die_def bindC_def exit_with_def)

lemma fail_line_run [simp]: "fail_line e s = ([OutText (''FAIL ('' @ e @ '')'' @ newline)], Inl 1, s)"
  by (simp add: fail_line_def bindC_def exit_with_def)

lemma println_all_run [simp]: "println_all ls s = (map (\<lambda>l. OutText (l @ newline)) ls, Inr (), s)"
  by (induction ls) (simp_all add: bindC_def)

declare println_all.simps [simp del]

lemma or_die_bind [simp]:
  "bindC (or_die message (Inl e)) f s = ([ErrText (message e @ newline)], Inl 1, s)"
  "bindC (or_die message (Inr x)) f s = f x s"
  by (simp_all add: bindC_def or_die_def)

lemma printing_bind [simp]:
  "bindC (writeC c) f s = (case f () s of (out, r, s') \<Rightarrow> (c # out, r, s'))"
  "bindC (print t) f s = (case f () s of (out, r, s') \<Rightarrow> (OutText t # out, r, s'))"
  "bindC (println t) f s = (case f () s of (out, r, s') \<Rightarrow> (OutText (t @ newline) # out, r, s'))"
  "bindC (eprintln t) f s = (case f () s of (out, r, s') \<Rightarrow> (ErrText (t @ newline) # out, r, s'))"
  "bindC (println_all ls) f s =
     (case f () s of (out, r, s') \<Rightarrow> (map (\<lambda>l. OutText (l @ newline)) ls @ out, r, s'))"
  by (simp_all add: bindC_def)

section \<open>What a command asks for\<close>

definition valid :: "'e + 'a \<Rightarrow> 'a option" where
  "valid r = (case r of Inl _ \<Rightarrow> None | Inr x \<Rightarrow> Some x)"

lemma valid_simps [simp]: "valid (Inl e) = None" "valid (Inr x) = Some x"
  by (simp_all add: valid_def)

text \<open>The request a command stands for, when its arguments and its local input are valid.\<close>

fun fs_request :: "'s cli_host \<Rightarrow> environment_id \<Rightarrow> fs_action \<Rightarrow> rpc_request option" where
  "fs_request host env (FsRead _ path) = Some (ReadFile \<lparr> rf_environment_id = env, rf_path = path \<rparr>)"
| "fs_request host env (FsList _ path) = Some (ListDirectory \<lparr> ld_environment_id = env, ld_path = path \<rparr>)"
| "fs_request host env (FsMetadata _ path) = Some (GetFileMetadata \<lparr> gm_environment_id = env, gm_path = path \<rparr>)"
| "fs_request host env (FsWrite _ path content from_file expect_hash no_overwrite) =
     Option.bind (valid (write_content host content from_file)) (\<lambda>bytes.
     map_option (\<lambda>expected. WriteFile
         \<lparr> wf_environment_id = env, wf_path = path, wf_content = bytes,
           wf_overwrite = (\<not> no_overwrite), wf_expected_hash = expected \<rparr>)
       (valid (expect_hash_option expect_hash)))"
| "fs_request host env (FsMkdir _ path) = Some (CreateDirectory \<lparr> cd_environment_id = env, cd_path = path \<rparr>)"
| "fs_request host env (FsMv _ src dst) =
     Some (RenameReq \<lparr> rn_environment_id = env, rn_src = src, rn_dst = dst \<rparr>)"
| "fs_request host env (FsRm _ path) = Some (DeleteFile \<lparr> dl_environment_id = env, dl_path = path \<rparr>)"

fun proc_request :: "environment_id \<Rightarrow> session_id \<Rightarrow> proc_action \<Rightarrow> rpc_request option" where
  "proc_request env sid (ProcRun _ program args workdir vars) =
     map_option (\<lambda>env_vars. Execute
         \<lparr> ex_environment_id = env, ex_session_id = sid, ex_program = program, ex_args = args,
           ex_working_directory = workdir, ex_env_vars = env_vars \<rparr>)
       (valid (env_vars_loop vars []))"
| "proc_request env sid (ProcStatus _ i) =
     map_option (\<lambda>pid. ProcessStatus
         \<lparr> ps_environment_id = env, ps_session_id = sid, ps_process_id = pid \<rparr>)
       (valid (process_id_try_new i))"
| "proc_request env sid (ProcWait _ i timeout) =
     map_option (\<lambda>pid. WaitProcess
         \<lparr> wp_environment_id = env, wp_session_id = sid, wp_process_id = pid, wp_timeout_secs = timeout \<rparr>)
       (valid (process_id_try_new i))"
| "proc_request env sid (ProcKill _ i force) =
     map_option (\<lambda>pid. TerminateProcess
         \<lparr> tp_environment_id = env, tp_session_id = sid, tp_process_id = pid, tp_force = force \<rparr>)
       (valid (process_id_try_new i))"

fun sess_request :: "environment_id \<Rightarrow> sess_action \<Rightarrow> rpc_request option" where
  "sess_request env (SessCreate _ workdir vars) =
     map_option (\<lambda>env_vars. CreateSession
         \<lparr> cs_environment_id = env, cs_working_directory = Some workdir, cs_env_vars = env_vars \<rparr>)
       (valid (env_vars_loop vars []))"
| "sess_request env (SessShow _ i) =
     map_option (\<lambda>sid. GetSession \<lparr> gs_environment_id = env, gs_session_id = sid \<rparr>) (valid (session_id_try_new i))"
| "sess_request env (SessList _) = Some (ListSessions \<lparr> ls_environment_id = env \<rparr>)"
| "sess_request env (SessRm _ i) =
     map_option (\<lambda>sid. TerminateSession \<lparr> ts_environment_id = env, ts_session_id = sid \<rparr>) (valid (session_id_try_new i))"

fun fs_conn :: "fs_action \<Rightarrow> sess_conn" where
  "fs_conn (FsRead conn _) = conn"
| "fs_conn (FsList conn _) = conn"
| "fs_conn (FsMetadata conn _) = conn"
| "fs_conn (FsWrite conn _ _ _ _ _) = conn"
| "fs_conn (FsMkdir conn _) = conn"
| "fs_conn (FsMv conn _ _) = conn"
| "fs_conn (FsRm conn _) = conn"

fun proc_conn_of :: "proc_action \<Rightarrow> proc_conn" where
  "proc_conn_of (ProcRun conn _ _ _ _) = conn"
| "proc_conn_of (ProcStatus conn _) = conn"
| "proc_conn_of (ProcWait conn _ _) = conn"
| "proc_conn_of (ProcKill conn _ _) = conn"

fun sess_conn_of :: "sess_action \<Rightarrow> sess_conn" where
  "sess_conn_of (SessCreate conn _ _) = conn"
| "sess_conn_of (SessShow conn _) = conn"
| "sess_conn_of (SessList conn) = conn"
| "sess_conn_of (SessRm conn _) = conn"

fun command_client :: "'s cli_host \<Rightarrow> cli_command \<Rightarrow> 's rpc option" where
  "command_client host (Connect conn) = valid (client_for host conn)"
| "command_client host (Doctor conn) = valid (client_for host conn)"
| "command_client host (Fs action) = valid (client_for host (fs_conn action))"
| "command_client host (Proc action) = valid (client_for host (proc_conn_of action))"
| "command_client host (Sess action) = valid (client_for host (sess_conn_of action))"
| "command_client host (Env _) = None"
| "command_client host (Fingerprint _) = None"

fun command_request :: "'s cli_host \<Rightarrow> cli_command \<Rightarrow> rpc_request option" where
  "command_request host (Connect conn) =
     map_option (\<lambda>env. GetEnvironmentInfo \<lparr> gi_environment_id = env \<rparr>)
       (valid (environment_id_try_new (cn_env_id conn)))"
| "command_request host (Doctor conn) =
     map_option (\<lambda>env. GetEnvironmentInfo \<lparr> gi_environment_id = env \<rparr>)
       (valid (environment_id_try_new (cn_env_id conn)))"
| "command_request host (Fs action) =
     Option.bind (valid (environment_id_try_new (cn_env_id (fs_conn action))))
       (\<lambda>env. fs_request host env action)"
| "command_request host (Proc action) =
     Option.bind (valid (environment_id_try_new (cn_env_id (proc_conn_of action)))) (\<lambda>env.
     Option.bind (valid (session_id_try_new (cn_session (proc_conn_of action))))
       (\<lambda>sid. proc_request env sid action))"
| "command_request host (Sess action) =
     Option.bind (valid (environment_id_try_new (cn_env_id (sess_conn_of action))))
       (\<lambda>env. sess_request env action)"
| "command_request host (Env _) = None"
| "command_request host (Fingerprint _) = None"

section \<open>One command, one call\<close>

text \<open>
  Running a command is calling the request it stands for: the state of the other side is the one the
  call leaves, and the process ends well exactly if the call does; without a request or a client
  nothing is sent.
\<close>

definition performs :: "'s cli_host \<Rightarrow> ('s, unit) cli \<Rightarrow> rpc_request option \<Rightarrow> 's rpc option \<Rightarrow> 's \<Rightarrow> bool" where
  "performs host m request client s \<longleftrightarrow>
     (case m s of (out, r, s') \<Rightarrow>
        (case (request, client) of
           (Some req, Some rpc) \<Rightarrow>
             (case client_call rpc req s of
                (Inl e, t) \<Rightarrow> s' = t \<and> r = Inl 1 \<and>
                  out = [ErrText (''error: '' @ connection_error_display (ch_show_io host) e @ newline)]
              | (Inr _, t) \<Rightarrow> s' = t \<and> r = Inr ())
         | _ \<Rightarrow> s' = s \<and> r = Inl 1 \<and> (\<exists>t. out = [ErrText t])))"

lemma as_payload_run: "as_payload f call s = (map_sum id f (fst (call s)), snd (call s))"
  by (simp add: as_payload_def split: prod.splits)

lemma ask_daemon_bind:
  "bindC (ask_daemon host call) f s =
     (case call s of
        (Inl e, s') \<Rightarrow> ([ErrText (''error: '' @ connection_error_display (ch_show_io host) e @ newline)], Inl 1, s')
      | (Inr x, s') \<Rightarrow> f x s')"
  by (auto simp: ask_daemon_def bindC_def call_or_die_def split: prod.splits sum.splits)

lemmas run_defs =
  run_fs_read_def run_fs_list_def run_fs_metadata_def run_fs_write_def run_fs_mkdir_def run_fs_mv_def run_fs_rm_def
  run_proc_run_def run_proc_status_def run_proc_wait_def run_proc_kill_def
  run_sess_create_def run_sess_show_def run_sess_list_def run_sess_rm_def run_connect_def
  parse_env_id_def parse_session_id_def parse_process_id_def parse_env_vars_def make_client_def
  ask_daemon_bind as_payload_run

lemma performs_fs:
  assumes "\<And>conn path. action = FsRead conn path \<Longrightarrow> ch_stdout_error host = None"
  shows "performs host (run_fs host action) (command_request host (Fs action)) (command_client host (Fs action)) s"
proof (cases "environment_id_try_new (cn_env_id (fs_conn action))")
  case (Inl e)
  then show ?thesis by (cases action) (simp_all add: performs_def run_defs)
next
  case (Inr env)
  then show ?thesis
  proof (cases action)
    case (FsWrite conn path content from_file expect_hash no_overwrite)
    then show ?thesis
      using Inr by (cases "write_content host content from_file"; cases "expect_hash_option expect_hash";
          cases "client_for host conn") (auto simp: performs_def run_defs split: prod.splits sum.splits)
  qed (cases "client_for host (fs_conn action)";
    auto simp: performs_def run_defs write_stdout_def assms Let_def split: prod.splits sum.splits)+
qed

lemma performs_proc:
  assumes "ch_stdout_error host = None" and "ch_stderr_error host = None"
  shows "performs host (run_proc host action) (command_request host (Proc action)) (command_client host (Proc action)) s"
proof (cases "environment_id_try_new (cn_env_id (proc_conn_of action))")
  case (Inl e)
  then show ?thesis by (cases action) (simp_all add: performs_def run_defs)
next
  case env: (Inr env)
  show ?thesis
  proof (cases "session_id_try_new (cn_session (proc_conn_of action))")
    case (Inl e)
    then show ?thesis using env by (cases action) (simp_all add: performs_def run_defs)
  next
    case (Inr sid)
    show ?thesis
    proof (cases action)
      case (ProcRun conn program args workdir vars)
      then show ?thesis
        using env Inr by (cases "env_vars_loop vars []"; cases "client_for host conn")
          (auto simp: performs_def run_defs split: prod.splits sum.splits)
    next
      case (ProcStatus conn i)
      then show ?thesis
        using env Inr by (cases "process_id_try_new i"; cases "client_for host conn")
          (auto simp: performs_def run_defs split: prod.splits sum.splits)
    next
      case (ProcWait conn i timeout)
      then show ?thesis
        using env Inr assms by (cases "process_id_try_new i"; cases "client_for host conn")
          (auto simp: performs_def run_defs write_stdout_def write_stderr_def
            split: prod.splits sum.splits)
    next
      case (ProcKill conn i force)
      then show ?thesis
        using env Inr by (cases "process_id_try_new i"; cases "client_for host conn")
          (auto simp: performs_def run_defs split: prod.splits sum.splits)
    qed
  qed
qed

lemma performs_sess:
  "performs host (run_sess host action) (command_request host (Sess action)) (command_client host (Sess action)) s"
proof (cases "environment_id_try_new (cn_env_id (sess_conn_of action))")
  case env: (Inl e)
  show ?thesis
  proof (cases action)
    case (SessShow conn i)
    then show ?thesis using env by (cases "session_id_try_new i") (simp_all add: performs_def run_defs)
  next
    case (SessRm conn i)
    then show ?thesis using env by (cases "session_id_try_new i") (simp_all add: performs_def run_defs)
  qed (use env in \<open>simp_all add: performs_def run_defs\<close>)
next
  case env: (Inr env)
  show ?thesis
  proof (cases action)
    case (SessCreate conn workdir vars)
    then show ?thesis
      using env by (cases "env_vars_loop vars []"; cases "client_for host conn")
        (auto simp: performs_def run_defs split: prod.splits sum.splits)
  next
    case (SessShow conn i)
    then show ?thesis
      using env by (cases "session_id_try_new i"; cases "client_for host conn")
        (auto simp: performs_def run_defs split: prod.splits sum.splits)
  next
    case (SessList conn)
    then show ?thesis
      using env by (cases "client_for host conn")
        (auto simp: performs_def run_defs split: prod.splits sum.splits)
  next
    case (SessRm conn i)
    then show ?thesis
      using env by (cases "session_id_try_new i"; cases "client_for host conn")
        (auto simp: performs_def run_defs split: prod.splits sum.splits)
  qed
qed

lemma performs_connect:
  "performs host (run_connect host conn) (command_request host (Connect conn)) (command_client host (Connect conn)) s"
  by (cases "environment_id_try_new (cn_env_id conn)"; cases "client_for host conn")
    (auto simp: performs_def run_defs split: prod.splits sum.splits)

text \<open>What a command writes when its call fails.\<close>

definition failure_output :: "'s cli_host \<Rightarrow> cli_command \<Rightarrow> connection_error \<Rightarrow> chunk list" where
  "failure_output host command e =
     (let text = connection_error_display (ch_show_io host) e in
      case command of
        Doctor _ \<Rightarrow>
          [OutText (''ARE Doctor v'' @ CARGO_PKG_VERSION @ newline), OutText newline,
           OutText ''  TLS configuration ... '', OutText (''ok'' @ newline),
           OutText ''  Daemon reachable ... '', OutText (''FAIL ('' @ text @ '')'' @ newline)]
      | _ \<Rightarrow> [ErrText (''error: '' @ text @ newline)])"

definition outcome :: "'s cli_host \<Rightarrow> cli_command \<Rightarrow> 's \<Rightarrow> bool" where
  "outcome host command s \<longleftrightarrow>
     (case cli_main host command s of (out, code, s') \<Rightarrow>
        (case (command_request host command, command_client host command) of
           (Some req, Some rpc) \<Rightarrow>
             (case client_call rpc req s of
                (Inl e, t) \<Rightarrow> s' = t \<and> code = 1 \<and> out = failure_output host command e
              | (Inr _, t) \<Rightarrow> s' = t \<and> code = 0)
         | _ \<Rightarrow> s' = s \<and> code = 1))"

lemma performs_outcome:
  assumes "performs host (run_command host command) (command_request host command)
      (command_client host command) s" and "\<And>conn. command \<noteq> Doctor conn"
  shows "outcome host command s"
  using assms
  by (cases command)
    (auto simp: performs_def outcome_def cli_main_def failure_output_def
      split: prod.splits sum.splits option.splits)

lemma bind_call: "bindC (\<lambda>s. case call s of (Inl e, s') \<Rightarrow> fail_line (g e) s' | (Inr x, s') \<Rightarrow> pureC x s') f s =
    (case call s of
       (Inl e, s') \<Rightarrow> ([OutText (''FAIL ('' @ g e @ '')'' @ newline)], Inl 1, s')
     | (Inr x, s') \<Rightarrow> f x s')"
  by (auto simp: bindC_def split: prod.splits sum.splits)

lemma doctor_outcome: "outcome host (Doctor conn) s"
  by (cases "environment_id_try_new (cn_env_id conn)"; cases "client_for host conn")
    (auto simp: outcome_def cli_main_def run_doctor_def bind_call as_payload_run failure_output_def
      split: prod.splits sum.splits)

definition contacts_daemon :: "cli_command \<Rightarrow> bool" where
  "contacts_daemon command \<longleftrightarrow> (case command of Env _ \<Rightarrow> False | Fingerprint _ \<Rightarrow> False | _ \<Rightarrow> True)"


section \<open>Digests\<close>

lemma normalize_expect_hash_Some:
  "normalize_expect_hash input = Some h \<Longrightarrow> is_valid_hash h \<and> to_ascii_lowercase h = h"
  by (auto simp: normalize_expect_hash_def Let_def split: if_splits)

lemma expect_hash_given: "expect_hash_option (Some h) = Inr expected \<Longrightarrow>
    \<exists>digest. normalize_expect_hash h = Some digest \<and> expected = Some digest"
  by (cases "normalize_expect_hash h") (auto simp: expect_hash_option_def)

lemma printed_hash_accepted:
  assumes "is_valid_hash h" and "to_ascii_lowercase h = h"
  shows "normalize_expect_hash (''blake3:'' @ h) = Some h"
  using assms by (simp add: normalize_expect_hash_def strip_prefix_def)

section \<open>A guarded write\<close>

lemma cli_write_run:
  assumes run: "cli_main host (Fs (FsWrite conn path content from_file expect_hash no_overwrite)) s = (out, 0, s')"
    and client: "client_for host conn = Inr rpc"
  obtains env new expected resp where
    "write_content host content from_file = Inr new" and "expect_hash_option expect_hash = Inr expected"
    "rpc (WriteFile \<lparr> wf_environment_id = env, wf_path = path, wf_content = new,
       wf_overwrite = (\<not> no_overwrite), wf_expected_hash = expected \<rparr>) s = (Inr (Inr (WriteFileP resp)), s')"
    and "out = map (\<lambda>l. OutText (l @ newline))
       ((''Wrote '' @ nat_str (fm_size (wr_metadata resp)) @ '' bytes'') # hash_lines (wr_metadata resp))"
proof -
  obtain env where env: "environment_id_try_new (cn_env_id conn) = Inr env"
    using run by (cases "environment_id_try_new (cn_env_id conn)") (simp_all add: cli_main_def run_defs)
  obtain new where new: "write_content host content from_file = Inr new"
    using run env by (cases "write_content host content from_file") (simp_all add: cli_main_def run_defs)
  obtain expected where expected: "expect_hash_option expect_hash = Inr expected"
    using run env new by (cases "expect_hash_option expect_hash") (simp_all add: cli_main_def run_defs)
  let ?q = "\<lparr> wf_environment_id = env, wf_path = path, wf_content = new,
       wf_overwrite = (\<not> no_overwrite), wf_expected_hash = expected \<rparr> :: write_file_request"
  obtain resp where call: "client_write_file rpc ?q s = (Inr resp, s')"
    and out: "out = map (\<lambda>l. OutText (l @ newline))
       ((''Wrote '' @ nat_str (fm_size (wr_metadata resp)) @ '' bytes'') # hash_lines (wr_metadata resp))"
    using run env new expected client
    by (auto simp: cli_main_def run_defs split: prod.splits sum.splits)
  from call have "rpc (WriteFile ?q) s = (Inr (Inr (WriteFileP resp)), s')"
    by (auto simp: client_write_file_def typed_call_Inr payload_picks)
  from that [OF new expected this out] show thesis .
qed


section \<open>An example\<close>

definition sample_host :: "(daemon_state \<times> world) rpc \<Rightarrow> (daemon_state \<times> world) cli_host" where
  "sample_host rpc = \<lparr> ch_client = (\<lambda>_ _ _ _ _. Inr rpc), ch_stat = (\<lambda>_. Inl ''no file''),
     ch_read = (\<lambda>_. Inl ''no file''), ch_stdin = \<lparr> rd_data = [], rd_end = None \<rparr>,
     ch_stdout_error = None, ch_stderr_error = None, ch_cap_order = (\<lambda>_. []),
     ch_debug_time = nat_str, ch_show_io = (\<lambda>_. ''I/O error''), ch_first_cert = (\<lambda>_. None),
     ch_blake3 = (\<lambda>_. []) \<rparr>"

definition sample_conn :: sess_conn where
  "sample_conn = \<lparr> cn_addr = ''127.0.0.1:9000'', cn_cert = ''c'', cn_key = ''k'', cn_ca = ''a'',
     cn_server_name = ''localhost'', cn_env_id = env_str sample_env \<rparr>"

definition sample_digest :: "bytes \<Rightarrow> string" where
  "sample_digest bs = replicate 64 (if bs = [1, 2] then CHR ''a'' else CHR ''b'')"

definition guarded_command :: cli_command where
  "guarded_command = Fs (FsWrite sample_conn ''a'' (Some ''x'') None
     (Some (''blake3:'' @ replicate 64 (CHR ''A''))) False)"

definition guarded_request :: rpc_request where
  "guarded_request = WriteFile \<lparr> wf_environment_id = sample_env, wf_path = ''a'', wf_content = into_bytes ''x'',
     wf_overwrite = True, wf_expected_hash = Some (replicate 64 (CHR ''a'')) \<rparr>"

definition guarded_answer :: "rpc_response \<times> daemon_state \<times> world" where
  "guarded_answer = handle_as sample_digest [] (Some (caller_from_leaf_der sample_digest [])) guarded_request
     (open_daemon, sample_world)"

lemma guarded_request: "command_request host guarded_command = Some guarded_request"
proof -
  have "expect_hash_option (Some (''blake3:'' @ replicate 64 (CHR ''A''))) = Inr (Some (replicate 64 (CHR ''a'')))"
    by code_simp
  moreover have "environment_id_try_new (cn_env_id sample_conn) = Inr sample_env" by code_simp
  moreover have "write_content host (Some ''x'') None = Inr (into_bytes ''x'')"
    by (simp add: write_content_def into_bytes_def MAX_CLI_CONTENT_BYTES_def)
  ultimately show ?thesis by (simp add: guarded_command_def guarded_request_def)
qed

lemma sample_resolves: "fs_resolve sample_cfg ''a'' sample_world = (Inr [''srv'', ''a''], sample_world\<lparr> w_sys := 1 \<rparr>)"
proof -
  have "fc_allowed_roots sample_cfg = [[''srv'']]" "check_path_shape ''a'' = Inr ()"
    "real_path (w_fs sample_world) ([''srv''] @ split_path ''a'') = Inr [''srv'', ''a'']" by code_simp+
  moreover have "w_fault sample_world = (\<lambda>_. None)" "w_sys sample_world = 0" by (simp_all add: sample_world_def)
  ultimately show ?thesis using resolve_calm [of sample_world sample_cfg "[''srv'']" "''a''"] by simp
qed

lemma guarded_answer: "fst guarded_answer = Inr (WriteFileP \<lparr> wr_metadata = \<lparr> fm_size = 1, fm_modified_at = None,
    fm_is_dir = False, fm_is_file = True, fm_hash = Some (replicate 64 (CHR ''b'')) \<rparr> \<rparr>)"
proof -
  have "case guarded_request of WriteFile q \<Rightarrow> write_file_validate q = Inr ()" by code_simp
  then have ok: "write_file_validate \<lparr> wf_environment_id = sample_env, wf_path = ''a'', wf_content = into_bytes ''x'',
     wf_overwrite = True, wf_expected_hash = Some (replicate 64 (CHR ''a'')) \<rparr> = Inr ()"
    by (simp add: guarded_request_def)
  have "fst (fs_write_file sample_digest sample_cfg ''a'' (into_bytes ''x'') True
      (Some (replicate 64 (CHR ''a''))) (sample_world\<lparr> w_sys := 1 \<rparr>)) =
    Inr \<lparr> fm_size = 1, fm_modified_at = None, fm_is_dir = False, fm_is_file = True,
      fm_hash = Some (replicate 64 (CHR ''b'')) \<rparr>" by code_simp
  then obtain w2 where wr: "fs_write_file sample_digest sample_cfg ''a'' (into_bytes ''x'') True
      (Some (replicate 64 (CHR ''a''))) (sample_world\<lparr> w_sys := 1 \<rparr>) =
    (Inr \<lparr> fm_size = 1, fm_modified_at = None, fm_is_dir = False, fm_is_file = True,
      fm_hash = Some (replicate 64 (CHR ''b'')) \<rparr>, w2)" by (metis prod.collapse)
  have rel: "fs_relativize sample_cfg [''srv'', ''a''] = Some ''a''" by code_simp
  have st: "ds_fs open_daemon = Some sample_cfg" "ds_grants open_daemon = None"
    "ds_environment_id open_daemon = sample_env"
    by (simp_all add: open_daemon_def sample_daemon_def with_grants_def daemon_state_with_fs_def)
  show ?thesis
    using wr
    by (simp add: guarded_answer_def guarded_request_def respond_def handle_write_file_def bindH_def validH_def ok
        require_fs_def denyH_def deny_unknown_principal_def fs_rel_for_grant_def fsH_def sample_resolves rel
        grantH_def check_fs_grant_def effective_grants_def st split: prod.splits)
qed

definition guarded_rpc :: "(daemon_state \<times> world) rpc" where
  "guarded_rpc = sample_rpc sample_digest guarded_request (fst guarded_answer)"

lemma guarded_call: "client_call guarded_rpc guarded_request (open_daemon, sample_world) =
    (Inr (WriteFileP \<lparr> wr_metadata = \<lparr> fm_size = 1, fm_modified_at = None,
       fm_is_dir = False, fm_is_file = True, fm_hash = Some (replicate 64 (CHR ''b'')) \<rparr> \<rparr>), snd guarded_answer)"
proof (rule client_call_answered)
  have "guarded_rpc guarded_request (open_daemon, sample_world) = (Inr (fst guarded_answer), snd guarded_answer)"
    unfolding guarded_rpc_def by (rule sample_rpc_answer) (simp add: guarded_answer_def)
  then show "guarded_rpc guarded_request (open_daemon, sample_world) =
    (Inr (Inr (WriteFileP \<lparr> wr_metadata = \<lparr> fm_size = 1, fm_modified_at = None,
       fm_is_dir = False, fm_is_file = True, fm_hash = Some (replicate 64 (CHR ''b'')) \<rparr> \<rparr>)), snd guarded_answer)"
    by (simp only: guarded_answer)
qed (simp add: answers_def guarded_request_def)

lemma guarded_client: "client_for (sample_host rpc) sample_conn = Inr rpc"
  by (simp add: client_for_def sample_host_def)


lemma guarded_run:
  "\<exists>out. cli_main (sample_host guarded_rpc) guarded_command (open_daemon, sample_world) = (out, 0, snd guarded_answer)"
proof -
  have "command_client (sample_host guarded_rpc) guarded_command = Some guarded_rpc"
    by (simp add: guarded_command_def guarded_client)
  moreover have "outcome (sample_host guarded_rpc) guarded_command (open_daemon, sample_world)"
    using performs_fs [of "case guarded_command of Fs action \<Rightarrow> action" "sample_host guarded_rpc" "(open_daemon, sample_world)"]
    by (intro performs_outcome) (simp_all add: guarded_command_def)
  ultimately show ?thesis by (auto simp: outcome_def guarded_request guarded_call split: prod.splits)
qed


text \<open>The fingerprint the client prints is the one the daemon derives for the holder of the certificate.\<close>

lemma fingerprint_names_the_caller:
  assumes "cli_main host (Fingerprint cert) s = (out, 0, s')"
  shows "s' = s \<and> (\<exists>data der. ch_read host cert = Inr data \<and> ch_first_cert host data = Some der \<and>
    out = [OutText (ca_fingerprint (caller_from_leaf_der (ch_blake3 host) der) @ newline)])"
  using assms
  by (cases "ch_read host cert")
    (auto simp: cli_main_def run_fingerprint_def caller_from_leaf_der_def caller_new_def fingerprint_der_def
      split: option.splits)

end
