(* ===== verification/Tls.thy ===== *)
theory Tls
  imports Startup Rpc
begin

text \<open>
  TLS configurations: \<open>are-daemon/src/tls.rs\<close>, \<open>are-client/src/tls.rs\<close>, the constructors of
  \<open>SecureClient\<close> and \<open>build_tls_config\<close> of \<open>are-daemon/src/main.rs\<close>.  What rustls, rustls_pemfile and
  rcgen do is a record of functions; a configuration records what the code hands to them.  The
  contents of a file is the parameter \<open>read\<close> (\<open>read_to_string\<close> where the code wants UTF-8).
\<close>

section \<open>The libraries\<close>

type_synonym der = bytes

datatype tls_version = TLS12 | TLS13

record tls_library =
  tl_certs :: "string \<Rightarrow> (string + der) list"
  tl_private_key :: "string \<Rightarrow> string + der option"
  tl_root_add :: "der \<Rightarrow> string + unit"
  tl_verifier :: "der list \<Rightarrow> string + unit"
  tl_versions :: "tls_version list \<Rightarrow> string + unit"
  tl_single_cert :: "der list \<Rightarrow> der \<Rightarrow> string + unit"
  tl_client_cert :: "der list \<Rightarrow> der \<Rightarrow> string + unit"
  tl_server_name :: "string \<Rightarrow> string + string"
  tl_ephemeral :: "string + der \<times> der \<times> der"

text \<open>\<open>tl_ephemeral\<close> yields the server certificate, its key and the CA that \<open>rcgen\<close> made.\<close>

record server_config =
  sc_versions :: "tls_version list"
  sc_client_roots :: "der list"
  sc_chain :: "der list"
  sc_key :: der

record client_config =
  cc_versions :: "tls_version list"
  cc_roots :: "der list"
  cc_chain :: "der list"
  cc_key :: der

text \<open>\<open>collect\<close> into a \<open>Result\<close>: the first error, or all values.\<close>

fun collect_results :: "('e + 'a) list \<Rightarrow> 'e + 'a list" where
  "collect_results [] = Inr []"
| "collect_results (r # rs) = bindE r (\<lambda>x. bindE (collect_results rs) (\<lambda>xs. Inr (x # xs)))"

section \<open>The server side\<close>

datatype tls_error =
    TlsPemRead string
  | TlsNoCertificate
  | TlsNoPrivateKey
  | TlsVerificationFailed string
  | TlsInvalidCredential string
  | TlsRootStoreError string

fun tls_error_display :: "tls_error \<Rightarrow> string" where
  "tls_error_display (TlsPemRead s) = ''failed to read PEM file: '' @ s"
| "tls_error_display TlsNoCertificate = ''no certificate found in PEM data''"
| "tls_error_display TlsNoPrivateKey = ''no private key found in PEM data''"
| "tls_error_display (TlsVerificationFailed s) = ''certificate verification failed: '' @ s"
| "tls_error_display (TlsInvalidCredential s) = ''invalid credential format: '' @ s"
| "tls_error_display (TlsRootStoreError s) = ''root cert store error: '' @ s"

definition tls_error_from :: "string \<Rightarrow> tls_error" where
  "tls_error_from e = TlsInvalidCredential e"

definition load_certificates_from_pem ::
  "tls_library \<Rightarrow> (string \<Rightarrow> string + string) \<Rightarrow> string \<Rightarrow> tls_error + der list" where
  "load_certificates_from_pem lib read path =
     bindE (mapE (\<lambda>e. TlsPemRead (path @ '': '' @ e)) (read path)) (\<lambda>data.
     bindE (mapE TlsPemRead (collect_results (tl_certs lib data))) (\<lambda>certs.
     if certs = [] then Inl TlsNoCertificate else Inr certs))"

definition load_private_key_from_pem ::
  "tls_library \<Rightarrow> (string \<Rightarrow> string + string) \<Rightarrow> string \<Rightarrow> tls_error + der" where
  "load_private_key_from_pem lib read path =
     bindE (mapE (\<lambda>e. TlsPemRead (path @ '': '' @ e)) (read path)) (\<lambda>data.
     bindE (mapE TlsPemRead (tl_private_key lib data)) (\<lambda>key. ok_or TlsNoPrivateKey key))"

definition build_root_store :: "tls_library \<Rightarrow> der \<Rightarrow> tls_error + der list" where
  "build_root_store lib ca_cert =
     bindE (mapE TlsRootStoreError (tl_root_add lib ca_cert)) (\<lambda>_. Inr [ca_cert])"

definition build_server_config ::
  "tls_library \<Rightarrow> der list \<Rightarrow> der \<Rightarrow> der \<Rightarrow> tls_error + server_config" where
  "build_server_config lib server_certs server_key ca_cert =
     bindE (build_root_store lib ca_cert) (\<lambda>root_store.
     bindE (mapE TlsVerificationFailed (tl_verifier lib root_store)) (\<lambda>_.
     let supported_versions = [TLS13] in
     bindE (mapE TlsInvalidCredential (tl_versions lib supported_versions)) (\<lambda>_.
     bindE (mapE TlsInvalidCredential (tl_single_cert lib server_certs server_key)) (\<lambda>_.
     Inr \<lparr> sc_versions = supported_versions, sc_client_roots = root_store, sc_chain = server_certs,
           sc_key = server_key \<rparr>))))"

text \<open>The client configuration of the daemon's crate, which its tests use.\<close>

definition build_test_client_config ::
  "tls_library \<Rightarrow> der list \<Rightarrow> der \<Rightarrow> der \<Rightarrow> string \<Rightarrow> tls_error + client_config" where
  "build_test_client_config lib client_certs client_key ca_cert server_name =
     bindE (mapE TlsRootStoreError (tl_root_add lib ca_cert)) (\<lambda>_.
     let supported_versions = [TLS13] in
     bindE (mapE TlsInvalidCredential (tl_versions lib supported_versions)) (\<lambda>_.
     bindE (mapE TlsInvalidCredential (tl_client_cert lib client_certs client_key)) (\<lambda>_.
     Inr \<lparr> cc_versions = supported_versions, cc_roots = [ca_cert], cc_chain = client_certs,
           cc_key = client_key \<rparr>)))"

definition generate_ephemeral_certs :: "tls_library \<Rightarrow> string + server_config" where
  "generate_ephemeral_certs lib =
     bindE (tl_ephemeral lib) (\<lambda>(server_cert, server_key, ca_cert).
     mapE tls_error_display (build_server_config lib [server_cert] server_key ca_cert))"

definition build_tls_config ::
  "tls_library \<Rightarrow> (string \<Rightarrow> string + string) \<Rightarrow> daemon_config \<Rightarrow> string + server_config" where
  "build_tls_config lib read config =
     (case (dc_server_cert_path config, dc_server_key_path config, dc_client_ca_path config) of
        (Some cert_path, Some key_path, Some ca_path) \<Rightarrow>
          bindE (mapE (\<lambda>e. ''failed to read cert: '' @ e) (read cert_path)) (\<lambda>cert_pem.
          bindE (mapE (\<lambda>e. ''failed to read key: '' @ e) (read key_path)) (\<lambda>key_pem.
          bindE (mapE (\<lambda>e. ''failed to read CA: '' @ e) (read ca_path)) (\<lambda>ca_pem.
          bindE (mapE (\<lambda>e. ''invalid cert PEM: '' @ e) (collect_results (tl_certs lib cert_pem))) (\<lambda>server_certs.
          bindE (mapE (\<lambda>e. ''invalid key PEM: '' @ e) (tl_private_key lib key_pem)) (\<lambda>key.
          bindE (ok_or ''no private key found in key PEM'' key) (\<lambda>server_key.
          case tl_certs lib ca_pem of
            [] \<Rightarrow> Inl ''no CA certificate found''
          | ca # _ \<Rightarrow>
              bindE (mapE (\<lambda>e. ''invalid CA PEM: '' @ e) ca) (\<lambda>ca_cert.
              mapE tls_error_display (build_server_config lib server_certs server_key ca_cert))))))))
      | _ \<Rightarrow> generate_ephemeral_certs lib)"

section \<open>The client side\<close>

definition load_client_certificates ::
  "tls_library \<Rightarrow> (string \<Rightarrow> string + string) \<Rightarrow> string \<Rightarrow> client_tls_error + der list" where
  "load_client_certificates lib read path =
     bindE (mapE (\<lambda>e. ClientPemRead (path @ '': '' @ e)) (read path)) (\<lambda>data.
     bindE (mapE ClientPemRead (collect_results (tl_certs lib data))) (\<lambda>certs.
     if certs = [] then Inl ClientNoCertificate else Inr certs))"

definition load_client_key ::
  "tls_library \<Rightarrow> (string \<Rightarrow> string + string) \<Rightarrow> string \<Rightarrow> client_tls_error + der" where
  "load_client_key lib read path =
     bindE (mapE (\<lambda>e. ClientPemRead (path @ '': '' @ e)) (read path)) (\<lambda>data.
     bindE (mapE ClientPemRead (tl_private_key lib data)) (\<lambda>key. ok_or ClientNoPrivateKey key))"

definition build_client_config ::
  "tls_library \<Rightarrow> der list \<Rightarrow> der \<Rightarrow> der \<Rightarrow> string \<Rightarrow> client_tls_error + client_config \<times> string" where
  "build_client_config lib client_certs client_key ca_cert server_name =
     bindE (mapE ClientConfigError (tl_root_add lib ca_cert)) (\<lambda>_.
     bindE (mapE ClientInvalidServerName (tl_server_name lib server_name)) (\<lambda>name.
     let supported_versions = [TLS13] in
     bindE (mapE ClientConfigError (tl_versions lib supported_versions)) (\<lambda>_.
     bindE (mapE ClientConfigError (tl_client_cert lib client_certs client_key)) (\<lambda>_.
     Inr (\<lparr> cc_versions = supported_versions, cc_roots = [ca_cert], cc_chain = client_certs,
            cc_key = client_key \<rparr>, name)))))"

record secure_client =
  cl_tls_config :: client_config
  cl_server_name :: string
  cl_server_addr :: string

definition secure_client_new ::
  "tls_library \<Rightarrow> der list \<Rightarrow> der \<Rightarrow> der \<Rightarrow> string \<Rightarrow> string \<Rightarrow> connection_error + secure_client" where
  "secure_client_new lib client_certs client_key ca_cert server_addr server_name =
     bindE (mapE CTls (build_client_config lib client_certs client_key ca_cert server_name)) (\<lambda>(tls_config, sn).
     Inr \<lparr> cl_tls_config = tls_config, cl_server_name = sn, cl_server_addr = server_addr \<rparr>)"

definition from_pem_files ::
  "tls_library \<Rightarrow> (string \<Rightarrow> string + string) \<Rightarrow> (string \<Rightarrow> string + string) \<Rightarrow> string \<Rightarrow> string \<Rightarrow> string
    \<Rightarrow> string \<Rightarrow> string \<Rightarrow> connection_error + secure_client" where
  "from_pem_files lib read read_to_string cert_path key_path ca_path server_addr server_name =
     bindE (mapE CTls (load_client_certificates lib read cert_path)) (\<lambda>client_certs.
     bindE (mapE CTls (load_client_key lib read key_path)) (\<lambda>client_key.
     bindE (mapE (\<lambda>e. CTls (ClientPemRead (ca_path @ '': '' @ e))) (read_to_string ca_path)) (\<lambda>ca_data.
     case tl_certs lib ca_data of
       [] \<Rightarrow> Inl (CTls ClientNoCertificate)
     | ca # _ \<Rightarrow>
         bindE (mapE (\<lambda>e. CTls (ClientPemRead e)) ca) (\<lambda>ca_cert.
         secure_client_new lib client_certs client_key ca_cert server_addr server_name))))"

section \<open>What the configurations enforce\<close>

lemma collect_results_Inr: "collect_results rs = Inr xs \<longleftrightarrow> rs = map Inr xs"
proof (induction rs arbitrary: xs)
  case (Cons r rs)
  then show ?case by (cases xs) (auto simp: bindE_Inr_iff)
qed auto

lemma server_config_parts:
  assumes "build_server_config lib certs key ca = Inr config"
  shows "sc_versions config = [TLS13]" and "sc_client_roots config = [ca]"
    and "sc_chain config = certs" and "tl_verifier lib [ca] = Inr ()"
  using assms by (auto simp: build_server_config_def build_root_store_def bindE_Inr_iff Let_def)

lemma server_config_enforces:
  "build_server_config lib certs key ca = Inr config \<Longrightarrow>
    sc_versions config = [TLS13] \<and> sc_client_roots config = [ca]"
  by (simp add: server_config_parts)

text \<open>The certificate authority of the clients: of the three files, or the generated one.\<close>

definition client_ca ::
  "tls_library \<Rightarrow> (string \<Rightarrow> string + string) \<Rightarrow> daemon_config \<Rightarrow> der \<Rightarrow> bool" where
  "client_ca lib read config ca \<longleftrightarrow>
     (case (dc_server_cert_path config, dc_server_key_path config, dc_client_ca_path config) of
        (Some _, Some _, Some path) \<Rightarrow>
          (\<exists>pem rest. read path = Inr pem \<and> tl_certs lib pem = Inr ca # rest)
      | _ \<Rightarrow> (\<exists>cert key. tl_ephemeral lib = Inr (cert, key, ca)))"

lemma ephemeral_uses:
  "generate_ephemeral_certs lib = Inr tls \<Longrightarrow> \<exists>cert key ca. tl_ephemeral lib = Inr (cert, key, ca) \<and>
    build_server_config lib [cert] key ca = Inr tls"
  by (auto simp: generate_ephemeral_certs_def bindE_Inr_iff)

lemma loaded_uses:
  assumes "dc_server_cert_path config = Some cert_path" and "dc_server_key_path config = Some key_path"
    and "dc_client_ca_path config = Some ca_path" and "build_tls_config lib read config = Inr tls"
  shows "\<exists>pem certs key ca rest. read ca_path = Inr pem \<and> tl_certs lib pem = Inr ca # rest \<and>
    build_server_config lib certs key ca = Inr tls"
proof -
  note run = assms(4) [unfolded build_tls_config_def assms(1-3), simplified]
  obtain pem where pem: "read ca_path = Inr pem" using run by (auto simp: bindE_Inr_iff)
  obtain first rest where "tl_certs lib pem = first # rest"
    using run pem by (cases "tl_certs lib pem") (auto simp: bindE_Inr_iff)
  then show ?thesis using run pem by (auto simp: bindE_Inr_iff)
qed

lemma build_tls_config_parts:
  assumes tls: "build_tls_config lib read config = Inr tls"
  shows "\<exists>ca. client_ca lib read config ca \<and> sc_client_roots tls = [ca] \<and> sc_versions tls = [TLS13]"
proof (cases "\<exists>c k a. dc_server_cert_path config = Some c \<and> dc_server_key_path config = Some k \<and>
    dc_client_ca_path config = Some a")
  case True
  then show ?thesis
    using loaded_uses [OF _ _ _ tls] by (fastforce simp: client_ca_def dest: server_config_enforces)
next
  case False
  then have "generate_ephemeral_certs lib = Inr tls"
    using tls by (auto simp: build_tls_config_def split: option.splits)
  then show ?thesis
    using False ephemeral_uses [of lib tls]
    by (fastforce simp: client_ca_def dest: server_config_enforces split: option.splits)
qed

text \<open>With one of the three files missing the other two are not even read.\<close>

lemma incomplete_tls_options:
  "None \<in> {dc_server_cert_path config, dc_server_key_path config, dc_client_ca_path config} \<Longrightarrow>
    build_tls_config lib read config = generate_ephemeral_certs lib"
  by (auto simp: build_tls_config_def split: option.split)

end
