(* ===== verification/Serve.thy ===== *)
theory Serve
  imports Tls RpcProps StartupProps
begin

text \<open>
  The serving daemon: the accept loop of \<open>are-daemon/src/server.rs\<close> and the \<open>Listen\<close> command of
  \<open>are-daemon/src/main.rs\<close> that leads to it.  What happens outside the daemon while it serves is a
  list of events: connections and their handshakes, accept errors, children that make their
  supervisors run, and changes that other programs make to the machine.  The connection tasks are
  composed in the order in which they handle their requests.
\<close>

section \<open>The accept loop\<close>

datatype net_event =
    AcceptFailed string
  | Incoming "string + bytes list option" byte_reader byte_writer polls
  | Supervised sup_event
  | Machine world

fun serve_event ::
  "(bytes \<Rightarrow> string) \<Rightarrow> (bytes \<Rightarrow> string + rpc_request) \<Rightarrow> (rpc_response \<Rightarrow> string + bytes)
    \<Rightarrow> net_event \<Rightarrow> daemon_state \<times> world \<Rightarrow> byte_writer list \<times> daemon_state \<times> world" where
  "serve_event b3 de ser (AcceptFailed e) s = ([], s)"
| "serve_event b3 de ser (Incoming accepted rd wr polls) s =
     (case connection_task b3 polls de ser accepted rd wr s of (wr', s') \<Rightarrow> ([wr'], s'))"
| "serve_event b3 de ser (Supervised ev) (st, w) =
     ([], (case ds_proc st of None \<Rightarrow> st | Some pm \<Rightarrow> st\<lparr> ds_proc := Some (run_event ev pm) \<rparr>), w)"
| "serve_event b3 de ser (Machine w') (st, w) = ([], st, w')"

fun serve ::
  "(bytes \<Rightarrow> string) \<Rightarrow> (bytes \<Rightarrow> string + rpc_request) \<Rightarrow> (rpc_response \<Rightarrow> string + bytes)
    \<Rightarrow> net_event list \<Rightarrow> daemon_state \<times> world \<Rightarrow> byte_writer list \<times> daemon_state \<times> world" where
  "serve b3 de ser [] s = ([], s)"
| "serve b3 de ser (ev # evs) s =
     (case serve_event b3 de ser ev s of
        (out, s1) \<Rightarrow> (case serve b3 de ser evs s1 of (outs, s2) \<Rightarrow> (out @ outs, s2)))"

text \<open>
  The network: how an address parses, whether it can be bound, and what arrives at a server with a
  given TLS configuration.
\<close>

record network =
  nw_parse_addr :: "string \<Rightarrow> string + string"
  nw_bind :: "string \<Rightarrow> string + unit"
  nw_events :: "server_config \<Rightarrow> net_event list"

record tls_server =
  ts_tls_acceptor :: server_config
  ts_state :: daemon_state

definition tls_server_new :: "server_config \<Rightarrow> daemon_state \<Rightarrow> tls_server" where
  "tls_server_new tls_acceptor state = \<lparr> ts_tls_acceptor = tls_acceptor, ts_state = state \<rparr>"

definition tls_server_run ::
  "(bytes \<Rightarrow> string) \<Rightarrow> (bytes \<Rightarrow> string + rpc_request) \<Rightarrow> (rpc_response \<Rightarrow> string + bytes) \<Rightarrow> network
    \<Rightarrow> tls_server \<Rightarrow> string \<Rightarrow> world \<Rightarrow> string + byte_writer list \<times> daemon_state \<times> world" where
  "tls_server_run b3 de ser net server addr w =
     bindE (nw_bind net addr) (\<lambda>_.
     Inr (serve b3 de ser (nw_events net (ts_tls_acceptor server)) (ts_state server, w)))"

definition daemon_main ::
  "(bytes \<Rightarrow> string) \<Rightarrow> (bytes \<Rightarrow> string + rpc_request) \<Rightarrow> (rpc_response \<Rightarrow> string + bytes)
    \<Rightarrow> (string \<Rightarrow> string + raw_grants_file) \<Rightarrow> tls_library \<Rightarrow> network \<Rightarrow> surroundings \<Rightarrow> listen_options \<Rightarrow> world
    \<Rightarrow> start_error + byte_writer list \<times> daemon_state \<times> world" where
  "daemon_main b3 de ser from_str lib net su opts w =
     bindE (listen_config from_str su opts) (\<lambda>config.
     case build_daemon_state su config w of
       (state, w') \<Rightarrow>
         bindE (mapE MainError (build_tls_config lib (su_read su) config)) (\<lambda>tls_config.
         bindE (mapE (\<lambda>e. MainError (''invalid address: '' @ e))
                  (nw_parse_addr net (lo_address opts @ '':'' @ nat_str (unat (lo_port opts))))) (\<lambda>addr.
         mapE MainError (tls_server_run b3 de ser net (tls_server_new tls_config state) addr w'))))"

section \<open>The filesystem stays ready\<close>

definition single_root :: "daemon_state \<Rightarrow> bool" where
  "single_root st \<longleftrightarrow> (\<forall>fs. ds_fs st = Some fs \<longrightarrow> length (fc_allowed_roots fs) = 1)"

text \<open>The trees after an authorized effect: well formed, and the roots are still directories.\<close>

lemma keeps_roots:
  assumes "fs_ready st w" and "wf_tree (w_fs w')"
    and "\<And>fs root. ds_fs st = Some fs \<Longrightarrow> root \<in> set (fc_allowed_roots fs) \<Longrightarrow>
      hm_get (w_fs w) root \<noteq> None \<Longrightarrow> hm_get (w_fs w') root = hm_get (w_fs w) root"
  shows "fs_ready st w'"
  unfolding fs_ready_def
proof (intro conjI allI impI ballI)
  fix fs root
  assume fs: "ds_fs st = Some fs" and root: "root \<in> set (fc_allowed_roots fs)"
  then have "hm_get (w_fs w) root = Some NDir" using assms(1) by (simp add: fs_ready_def is_dir_node_iff)
  then show "is_dir_node (w_fs w') root" using assms(3) [OF fs root] by (simp add: is_dir_node_iff)
qed (use assms in \<open>auto simp: fs_ready_def\<close>)

lemma confined_ready:
  assumes "fs_ready st w" and "single_root st" and "ds_fs st = Some fs" and "confined A w w'"
    and "\<And>root. fc_allowed_roots fs = [root] \<Longrightarrow> hm_get (w_fs w) root \<noteq> None \<Longrightarrow> \<not> A root"
  shows "fs_ready st w'"
  using assms(1) confined_wf [OF assms(4)]
proof (rule keeps_roots)
  fix fs' root
  assume "ds_fs st = Some fs'" "root \<in> set (fc_allowed_roots fs')" and old: "hm_get (w_fs w) root \<noteq> None"
  then have "fc_allowed_roots fs = [root]"
    using assms(2,3) by (auto simp: single_root_def length_Suc_conv)
  then show "hm_get (w_fs w') root = hm_get (w_fs w) root"
    using assms(4,5) old by (auto simp: confined_def agree_outside_def)
qed

lemma not_inside_root: "fc_allowed_roots fs = [root] \<Longrightarrow> inside fs p \<Longrightarrow> \<not> prefix p root"
  unfolding inside_def by (auto dest: prefix_order.less_le_trans)

lemma permitted_ready:
  assumes "permitted st caller req w w'" and "fs_ready st w" and "single_root st"
  shows "fs_ready st w'"
  using assms(1)
proof cases
  case nothing
  then show ?thesis using assms(2) by (simp add: fs_ready_def same_tree_def)
next
  case (change fs q p)
  show ?thesis
    by (rule confined_ready [OF assms(2,3) change(2,6)])
      (use change(4) not_inside_root in \<open>auto simp: write_footprint_def\<close>)
next
  case (mkdir fs root others q rel)
  have wf: "wf_tree (w_fs w)" using assms(2) by (simp add: fs_ready_def)
  show ?thesis
    by (rule keeps_roots [OF assms(2) only_addsD(1) [OF mkdir(6) wf]])
      (use only_addsD(2) [OF mkdir(6) wf] in \<open>auto simp: adds_dirs_def\<close>)
next
  case (move fs q s d)
  show ?thesis
    by (rule confined_ready [OF assms(2,3) move(2,9)]) (use move(5,6) not_inside_root in blast)
next
  case (remove fs q p)
  show ?thesis
    by (rule confined_ready [OF assms(2,3) remove(2,6)]) (use remove(4) not_inside_root in auto)
next
  case spawn
  then show ?thesis using assms(2) by (simp add: fs_ready_def)
qed

section \<open>Serving\<close>

text \<open>
  What the daemon may make of an event: nothing of a failed accept; of a connection nothing, or one
  request, handled for the certificate that the peer has proved to own, which is trusted, and with
  an effect that the grants of that principal permit; of a child a step of its supervisor, which
  does not touch the machine.  What other programs do to the machine does not touch the daemon.
\<close>

inductive served_event ::
  "(bytes \<Rightarrow> string) \<Rightarrow> (der \<Rightarrow> bool) \<Rightarrow> net_event \<Rightarrow> daemon_state \<times> world \<Rightarrow> daemon_state \<times> world \<Rightarrow> bool"
  for b3 :: "bytes \<Rightarrow> string" and trusted :: "der \<Rightarrow> bool" where
  accept: "served_event b3 trusted (AcceptFailed e) s s"
| silent: "served_event b3 trusted (Incoming accepted rd wr polls) s s"
| request: "trusted leaf \<Longrightarrow>
     handle_as b3 polls (Some (caller_from_leaf_der b3 leaf)) req (st, w) = (r, (st', w')) \<Longrightarrow>
     permitted st (Some (caller_from_leaf_der b3 leaf)) req w w' \<Longrightarrow>
     served_event b3 trusted (Incoming (Inr (Some (leaf # chain))) rd wr polls) (st, w) (st', w')"
| child: "ds_proc st = Some pm \<Longrightarrow>
     served_event b3 trusted (Supervised ev) (st, w) (st\<lparr> ds_proc := Some (run_event ev pm) \<rparr>, w)"
| childless: "served_event b3 trusted (Supervised ev) s s"
| others: "served_event b3 trusted (Machine w') (st, w) (st, w')"

inductive served ::
  "(bytes \<Rightarrow> string) \<Rightarrow> (der \<Rightarrow> bool) \<Rightarrow> net_event list \<Rightarrow> daemon_state \<times> world \<Rightarrow> daemon_state \<times> world \<Rightarrow> bool"
  for b3 :: "bytes \<Rightarrow> string" and trusted :: "der \<Rightarrow> bool" where
  finished: "served b3 trusted [] s s"
| event: "served_event b3 trusted ev s s1 \<Longrightarrow> served b3 trusted evs s1 s2 \<Longrightarrow>
     served b3 trusted (ev # evs) s s2"

inductive_cases served_eventE: "served_event b3 trusted ev s s'"

inductive_cases served_ConsE: "served b3 trusted (ev # evs) s s'"

text \<open>
  The documented behaviour of rustls with a client verifier: a handshake that succeeds has
  authenticated the peer by a certificate chain that one of the roots signed.
\<close>

definition authenticates :: "(der list \<Rightarrow> der \<Rightarrow> bool) \<Rightarrow> network \<Rightarrow> bool" where
  "authenticates trusted net \<longleftrightarrow> (\<forall>tls peer rd wr polls.
     Incoming (Inr peer) rd wr polls \<in> set (nw_events net tls) \<longrightarrow>
     (\<exists>leaf chain. peer = Some (leaf # chain) \<and> trusted (sc_client_roots tls) leaf))"

text \<open>The other programs leave the allowed root in place.\<close>

definition others_leave_root :: "daemon_state \<Rightarrow> net_event list \<Rightarrow> bool" where
  "others_leave_root st evs \<longleftrightarrow> (\<forall>w. Machine w \<in> set evs \<longrightarrow> fs_ready st w)"

definition serving :: "daemon_state \<Rightarrow> daemon_state \<times> world \<Rightarrow> bool" where
  "serving st0 s \<longleftrightarrow> ds_fs (fst s) = ds_fs st0 \<and> fs_ready (fst s) (snd s)"

lemma fs_ready_cong: "ds_fs st = ds_fs st' \<Longrightarrow> fs_ready st w = fs_ready st' w"
  by (simp add: fs_ready_def)

lemma single_root_cong: "ds_fs st = ds_fs st' \<Longrightarrow> single_root st = single_root st'"
  by (simp add: single_root_def)

lemma connection_served:
  assumes "connection_task b3 polls de ser accepted rd wr s = (wr', s')"
    and "serving st0 s" and "single_root st0"
    and "\<And>peer. accepted = Inr peer \<Longrightarrow> \<exists>leaf chain. peer = Some (leaf # chain) \<and> trusted leaf"
  shows "serving st0 s' \<and> served_event b3 trusted (Incoming accepted rd wr polls) s s'"
proof (cases "s' = s")
  case False
  obtain peer where peer: "accepted = Inr peer"
    using assms(1) False by (cases accepted) (auto simp: connection_task_def)
  then obtain leaf chain where leaf: "accepted = Inr (Some (leaf # chain))" "trusted leaf"
    using assms(4) by blast
  obtain req r where run: "handle_as b3 polls (Some (caller_from_leaf_der b3 leaf)) req s = (r, s')"
    using assms(1) leaf(1) False
    by (auto simp: connection_task_def handle_connection_def caller_from_peer_certs_def
        split: sum.splits prod.splits)
  obtain st w st' w' where s: "s = (st, w)" "s' = (st', w')" by fastforce
  have ready: "fs_ready (fst s) (snd s)" and fs: "ds_fs st = ds_fs st0" using assms(2) s by (simp_all add: serving_def)
  have perm: "permitted st (Some (caller_from_leaf_der b3 leaf)) req w w'"
    using handle_permitted [OF run ready] s by simp
  have "ds_fs st' = ds_fs st" using cfg.keepsD [OF cfg_handle run] s by (simp add: same_config_def)
  moreover have "fs_ready st w'"
    using permitted_ready [OF perm] ready s single_root_cong [OF fs] assms(3) by simp
  ultimately have "serving st0 s'" using s fs fs_ready_cong [of st' st] by (simp add: serving_def)
  then show ?thesis
    using served_event.request [where trusted = trusted, OF leaf(2) run [unfolded s] perm] s leaf(1) by simp
qed (use assms(2) in \<open>auto intro: served_event.silent\<close>)

lemma event_served:
  assumes "serve_event b3 de ser ev s = (out, s')" and "serving st0 s" and "single_root st0"
    and "\<And>peer rd wr polls. ev = Incoming (Inr peer) rd wr polls \<Longrightarrow>
      \<exists>leaf chain. peer = Some (leaf # chain) \<and> trusted leaf"
    and "\<And>w. ev = Machine w \<Longrightarrow> fs_ready st0 w"
  shows "serving st0 s' \<and> served_event b3 trusted ev s s'"
proof (cases ev)
  case (Incoming accepted rd wr polls)
  then obtain wr' where task: "connection_task b3 polls de ser accepted rd wr s = (wr', s')"
    using assms(1) by (auto split: prod.splits)
  show ?thesis
    unfolding Incoming by (rule connection_served [OF task assms(2,3)]) (use assms(4) Incoming in blast)
next
  case (Supervised e)
  obtain st w where s: "s = (st, w)" by (cases s)
  show ?thesis
    using assms(1,2) Supervised s served_event.child served_event.childless
    by (cases "ds_proc st") (auto simp: serving_def fs_ready_def)
next
  case (Machine w')
  obtain st w where s: "s = (st, w)" by (cases s)
  have "serving st0 (st, w')"
    using assms(2,5) Machine s fs_ready_cong [of st st0] by (simp add: serving_def)
  then show ?thesis using assms(1) Machine s served_event.others by auto
qed (use assms(1,2) in \<open>auto intro: served_event.accept\<close>)

lemma serve_served:
  assumes "serve b3 de ser evs s = (outs, s')" and "serving st0 s" and "single_root st0"
    and "\<And>peer rd wr polls. Incoming (Inr peer) rd wr polls \<in> set evs \<Longrightarrow>
      \<exists>leaf chain. peer = Some (leaf # chain) \<and> trusted leaf"
    and "others_leave_root st0 evs"
  shows "served b3 trusted evs s s'"
  using assms(1,2,4,5)
proof (induction evs arbitrary: s outs)
  case (Cons ev evs)
  obtain out s1 rest where ev: "serve_event b3 de ser ev s = (out, s1)"
    and evs: "serve b3 de ser evs s1 = (rest, s')"
    using Cons.prems(1) by (auto split: prod.splits)
  have one: "serving st0 s1 \<and> served_event b3 trusted ev s s1"
    by (rule event_served [OF ev Cons.prems(2) assms(3)], metis Cons.prems(3) list.set_intros(1))
      (use Cons.prems(4) in \<open>simp add: others_leave_root_def\<close>)
  have "served b3 trusted evs s1 s'"
    by (rule Cons.IH [OF evs], use one in simp, metis Cons.prems(3) list.set_intros(2))
      (use Cons.prems(4) in \<open>simp add: others_leave_root_def\<close>)
  then show ?case using one served.event by blast
qed (auto intro: served.finished)

lemma started_root:
  assumes "start_daemon from_str su opts w = Inr (st, w')"
  shows "single_root st" and "same_tree w w'"
    and "ds_fs st = Some fs \<Longrightarrow> \<exists>config base root p. listen_config from_str su opts = Inr config \<and>
      dc_allowed_root config = Some root \<and> fc_allowed_roots fs = [p] \<and>
      real_path (w_fs w) (os_path base root) = Inr p"
proof -
  obtain config where config: "listen_config from_str su opts = Inr config"
    and build: "build_daemon_state su config w = (st, w')" using assms by (rule start_daemon_Inr)
  obtain c where c: "build_fs (su_cwd su) config w = (c, w')" "ds_fs st = c"
    using build by (rule build_daemon_parts)
  show "same_tree w w'" by (rule build_fs_cases(1) [OF c(1)])
  show "single_root st" using build_fs_cases(2) [OF c(1)] c(2) by (fastforce simp: single_root_def)
  show "\<exists>config base root p. listen_config from_str su opts = Inr config \<and>
      dc_allowed_root config = Some root \<and> fc_allowed_roots fs = [p] \<and>
      real_path (w_fs w) (os_path base root) = Inr p" if "ds_fs st = Some fs"
    using build_fs_cases(2) [OF c(1)] c(2) that config by fastforce
qed

lemma daemon_main_Inr:
  assumes "daemon_main b3 de ser from_str lib net su opts w = Inr (outs, s)"
    and "start_daemon from_str su opts w = Inr (st0, w0)"
  obtains config tls where "listen_config from_str su opts = Inr config"
    and "build_tls_config lib (su_read su) config = Inr tls"
    and "serve b3 de ser (nw_events net tls) (st0, w0) = (outs, s)"
proof -
  obtain config where config: "listen_config from_str su opts = Inr config"
    and build: "build_daemon_state su config w = (st0, w0)" using assms(2) by (rule start_daemon_Inr)
  then obtain tls where "build_tls_config lib (su_read su) config = Inr tls"
    and "serve b3 de ser (nw_events net tls) (st0, w0) = (outs, s)"
    using assms(1) by (auto simp: daemon_main_def tls_server_run_def tls_server_new_def bindE_Inr_iff)
  then show ?thesis using config by (rule_tac that)
qed


definition sample_tls :: tls_library where
  "sample_tls = \<lparr> tl_certs = (\<lambda>_. []), tl_private_key = (\<lambda>_. Inr None), tl_root_add = (\<lambda>_. Inr ()),
     tl_verifier = (\<lambda>_. Inr ()), tl_versions = (\<lambda>_. Inr ()), tl_single_cert = (\<lambda>_ _. Inr ()),
     tl_client_cert = (\<lambda>_ _. Inr ()), tl_server_name = Inr, tl_ephemeral = Inr ([9], [8], [7]) \<rparr>"

definition sample_net :: network where
  "sample_net = \<lparr> nw_parse_addr = Inr, nw_bind = (\<lambda>_. Inr ()),
     nw_events = (\<lambda>tls. [AcceptFailed ''too many open files'',
       Incoming (Inr (Some [[1]])) \<lparr> rd_data = [0, 0, 0, 1, 42], rd_end = None \<rparr>
         \<lparr> wr_sent = [], wr_limit = None, wr_flush = None \<rparr> []]) \<rparr>"

lemma sample_listen:
  "listen_config sample_from_str sample_surroundings sample_options = Inr config \<Longrightarrow>
    dc_allowed_root config = Some ''/srv'' \<and> dc_server_cert_path config = None"
  by (auto simp: listen_config_def bindE_Inr_iff choose_root_def sample_options_def sample_surroundings_def)

lemma sample_started_ready:
  assumes "start_daemon sample_from_str sample_surroundings sample_options sample_world = Inr (st, w)"
  shows "fs_ready st w"
proof -
  have tree: "w_fs w = sample_tree" using started_root(2) [OF assms] by (simp add: same_tree_def sample_world_def)
  have "os_path base ''/srv'' = [''srv'']" for base by (simp add: os_path_def slash_def split_path_def)
  moreover have "real_path sample_tree [''srv''] = Inr [''srv'']" by code_simp
  moreover have "is_dir_node sample_tree [''srv'']" by code_simp
  ultimately show ?thesis
    using started_root(3) [OF assms] sample_listen sample_tree_wf tree
    by (fastforce simp: fs_ready_def cfg_ok_def sample_world_def normal_name_def slash_def nul_def)
qed

lemma sample_main_ok:
  "\<not> isl (daemon_main (\<lambda>_. []) (\<lambda>_. Inr sample_get) (\<lambda>_. Inr []) sample_from_str sample_tls sample_net
     sample_surroundings sample_options sample_world)"
proof -
  obtain config where "listen_config sample_from_str sample_surroundings sample_options = Inr config"
    using sample_start_ok
    by (cases "listen_config sample_from_str sample_surroundings sample_options") (auto simp: start_daemon_def)
  then show ?thesis
    using sample_listen
    by (auto simp: daemon_main_def build_tls_config_def generate_ephemeral_certs_def build_server_config_def
        build_root_store_def sample_tls_def tls_server_run_def sample_net_def split: prod.split)
qed


text \<open>Where no certificate is trusted, nobody but the other programs touches the machine.\<close>

lemma strangers_change_nothing:
  assumes "served b3 (\<lambda>_. False) evs s s'" and "\<And>w. Machine w \<notin> set evs"
  shows "snd s' = snd s"
  using assms
proof (induction evs arbitrary: s)
  case Nil
  then show ?case by (auto elim: served.cases)
next
  case (Cons ev evs)
  obtain s1 where ev: "served_event b3 (\<lambda>_. False) ev s s1" and evs: "served b3 (\<lambda>_. False) evs s1 s'"
    using Cons.prems(1) by (rule served_ConsE)
  have "snd s1 = snd s" using ev Cons.prems(2) by (cases rule: served_eventE [consumes 1]) auto
  then show ?case using Cons.IH [OF evs] Cons.prems(2) by simp
qed

text \<open>
  An accept error, a failed handshake and a peer without certificate leave the daemon as it was, and
  it goes on serving.
\<close>

fun refused :: "net_event \<Rightarrow> bool" where
  "refused (AcceptFailed e) = True"
| "refused (Incoming (Inl e) rd wr polls) = True"
| "refused (Incoming (Inr peer) rd wr polls) = (peer = None \<or> peer = Some [])"
| "refused ev = False"

theorem refused_connections_change_nothing:
  "snd (serve b3 de ser evs s) = snd (serve b3 de ser (filter (\<lambda>ev. \<not> refused ev) evs) s)"
proof (induction evs arbitrary: s)
  case (Cons ev evs)
  have "snd (serve_event b3 de ser ev s) = s" if "refused ev"
    using that by (cases ev rule: refused.cases) (auto simp: connection_task_def caller_from_peer_certs_def)
  then show ?case using Cons.IH by (simp add: split_beta)
qed simp

end
